(* ===== verification/Prelude.thy ===== *)
theory Prelude
  imports Main "HOL-Library.Sublist"
begin

text \<open>
  Shared vocabulary of the development.

  \<^item> Python text is a list of code points (\<open>pystr\<close>); \<open>u ''abc''\<close> is the text of an
    ASCII literal. \<open>py_strip\<close>, \<open>py_lower\<close>, \<open>py_contains\<close>, \<open>py_replace\<close>, \<open>str_of_int\<close>
    are the \<open>str\<close> operations the sources call. \<open>py_lower\<close> maps ASCII, Latin-1, Cyrillic and the two
    code points outside ASCII whose lower case is ASCII (U+0130, U+212A); the remaining scripts
    are left unchanged, which no comparison of the program with its ASCII tables can observe.
  \<^item> A computation that may raise is a value of \<open>'e + 'a\<close>; one that also changes a state is
    a function \<open>'s \<Rightarrow> ('e + 'a) \<times> 's\<close>, sequenced by \<open>bindM\<close>.
  \<^item> Generic facts on lists used by several components.
\<close>

named_theorems py_simps \<open>unfolding rules of the Python string primitives\<close>

named_theorems inv_intros \<open>preservation of the invariants by the operations of the components\<close>

section \<open>Python text\<close>

type_synonym pystr = "int list"

definition u :: "string \<Rightarrow> pystr" where
  "u s = map of_char s"

lemma u_simps [simp]: "u [] = []" "u (c # cs) = of_char c # u cs"
  by (simp_all add: u_def)

definition is_space :: "int \<Rightarrow> bool" where
  "is_space c \<longleftrightarrow> 9 \<le> c \<and> c \<le> 13 \<or> 28 \<le> c \<and> c \<le> 32 \<or> c = 133 \<or> c = 160 \<or> c = 5760
     \<or> 8192 \<le> c \<and> c \<le> 8202 \<or> c = 8232 \<or> c = 8233 \<or> c = 8239 \<or> c = 8287 \<or> c = 12288"

definition py_strip :: "pystr \<Rightarrow> pystr" where
  "py_strip s = rev (dropWhile is_space (rev (dropWhile is_space s)))"

definition lower_cp :: "int \<Rightarrow> pystr" where
  "lower_cp c =
     (if 65 \<le> c \<and> c \<le> 90 then [c + 32]
      else if 192 \<le> c \<and> c \<le> 222 \<and> c \<noteq> 215 then [c + 32]
      else if c = 304 then [105, 775]
      else if 1024 \<le> c \<and> c \<le> 1039 then [c + 80]
      else if 1040 \<le> c \<and> c \<le> 1071 then [c + 32]
      else if c = 8490 then [107]
      else if c = 8491 then [229]
      else [c])"

definition py_lower :: "pystr \<Rightarrow> pystr" where
  "py_lower s = concat (map lower_cp s)"

fun py_startswith :: "pystr \<Rightarrow> pystr \<Rightarrow> bool" where
  "py_startswith [] t = True"
| "py_startswith (c # p) [] = False"
| "py_startswith (c # p) (d # t) = (c = d \<and> py_startswith p t)"

fun py_contains :: "pystr \<Rightarrow> pystr \<Rightarrow> bool" where
  \<comment> \<open>Python's \<open>needle in text\<close>\<close>
  "py_contains n [] = (n = [])"
| "py_contains n (c # t) = (py_startswith n (c # t) \<or> py_contains n t)"

definition py_replace_char :: "int \<Rightarrow> int \<Rightarrow> pystr \<Rightarrow> pystr" where
  \<comment> \<open>\<open>s.replace(a, b)\<close> for one-character \<open>a\<close> and \<open>b\<close>\<close>
  "py_replace_char a b s = map (\<lambda>c. if c = a then b else c) s"

definition one_line :: "pystr \<Rightarrow> pystr" where
  \<comment> \<open>the idiom \<open>s.replace(CR, SPACE).replace(LF, SPACE)\<close>\<close>
  "one_line s = py_replace_char 10 32 (py_replace_char 13 32 s)"

fun split_once :: "int \<Rightarrow> pystr \<Rightarrow> (pystr \<times> pystr) option" where
  \<comment> \<open>\<open>s.split(c, 1)\<close> / \<open>s.partition(c)\<close>: \<open>None\<close> when the separator does not occur\<close>
  "split_once c [] = None"
| "split_once c (d # s) =
     (if c = d then Some ([], s)
      else map_option (\<lambda>(a, b). (d # a, b)) (split_once c s))"

fun nat_digits :: "nat \<Rightarrow> pystr" where
  "nat_digits n = (if n < 10 then [48 + int n] else nat_digits (n div 10) @ [48 + int (n mod 10)])"

declare nat_digits.simps [simp del]

definition str_of_int :: "int \<Rightarrow> pystr" where
  "str_of_int i = (if i < 0 then 45 # nat_digits (nat (- i)) else nat_digits (nat i))"

fun split_all :: "int \<Rightarrow> pystr \<Rightarrow> pystr list" where
  \<comment> \<open>\<open>s.split(c)\<close>\<close>
  "split_all c [] = [[]]"
| "split_all c (d # s) = (if d = c then [] # split_all c s
     else (case split_all c s of p # ps \<Rightarrow> (d # p) # ps | [] \<Rightarrow> [[d]]))"

fun digits_ok :: "bool \<Rightarrow> pystr \<Rightarrow> bool" where
  \<comment> \<open>ASCII digits, single underscores between them; the flag says that a digit is due\<close>
  "digits_ok due [] = (\<not> due)"
| "digits_ok due (c # s) = (if 48 \<le> c \<and> c \<le> 57 then digits_ok False s else c = 95 \<and> \<not> due \<and> digits_ok True s)"

definition py_int :: "pystr \<Rightarrow> int option" where
  \<comment> \<open>\<open>int(s)\<close>, \<open>None\<close> for a \<open>ValueError\<close>; digits outside ASCII are left out\<close>
  "py_int s = (let t = py_strip s;
       (neg, body) = (case t of c # r \<Rightarrow> if c = 45 then (True, r) else if c = 43 then (False, r) else (False, t) | [] \<Rightarrow> (False, []));
       v = foldl (\<lambda>acc d. acc * 10 + (d - 48)) 0 (filter (\<lambda>c. c \<noteq> 95) body)
     in if digits_ok True body then Some (if neg then - v else v) else None)"

subsection \<open>Facts on text\<close>

lemma dropWhile_rev_no_space_hd:
  "dropWhile P xs = [] \<or> \<not> P (hd (dropWhile P xs))"
  by (induction xs) auto

lemma dropWhile_idem_hd: "xs = [] \<or> \<not> P (hd xs) \<Longrightarrow> dropWhile P xs = xs"
  by (cases xs) auto

lemma py_strip_Nil [simp]: "py_strip [] = []"
  by (simp add: py_strip_def)

lemma py_strip_eq_Nil: "py_strip s = [] \<longleftrightarrow> (\<forall>c \<in> set s. is_space c)"
proof -
  have "dropWhile is_space (rev (dropWhile is_space s)) = [] \<longleftrightarrow>
        (\<forall>c \<in> set (dropWhile is_space s). is_space c)"
    by (simp add: dropWhile_eq_Nil_conv)
  also have "\<dots> \<longleftrightarrow> (\<forall>c \<in> set s. is_space c)"
  proof
    assume all: "\<forall>c \<in> set (dropWhile is_space s). is_space c"
    have "dropWhile is_space s = []"
      using dropWhile_rev_no_space_hd [of is_space s] all hd_in_set by blast
    then show "\<forall>c \<in> set s. is_space c"
      by (simp add: dropWhile_eq_Nil_conv)
  next
    assume "\<forall>c \<in> set s. is_space c"
    then show "\<forall>c \<in> set (dropWhile is_space s). is_space c"
      by (auto dest: set_dropWhileD)
  qed
  finally show ?thesis by (simp add: py_strip_def)
qed

lemma dropWhile_suffix: "\<exists>p. xs = p @ dropWhile P xs"
  by (metis takeWhile_dropWhile_id)

lemma py_strip_idem [simp]: "py_strip (py_strip s) = py_strip s"
proof -
  define a where "a = dropWhile is_space s"
  define b where "b = rev (dropWhile is_space (rev a))"
  have strip: "py_strip s = b" by (simp add: py_strip_def a_def b_def)
  have "b = [] \<or> \<not> is_space (hd b)"
  proof (cases "b = []")
    case False
    obtain p where "rev a = p @ dropWhile is_space (rev a)"
      using dropWhile_suffix by blast
    then have "a = b @ rev p"
      unfolding b_def by (metis rev_append rev_rev_ident)
    then have "hd a = hd b" and "a \<noteq> []" using False by auto
    moreover have "\<not> is_space (hd a)"
      using dropWhile_rev_no_space_hd [of is_space s] \<open>a \<noteq> []\<close> unfolding a_def by blast
    ultimately show ?thesis by simp
  qed simp
  then have front: "dropWhile is_space b = b" by (rule dropWhile_idem_hd)
  have "dropWhile is_space (rev b) = rev b"
    by (rule dropWhile_idem_hd) (use dropWhile_rev_no_space_hd [of is_space "rev a"] in \<open>simp add: b_def\<close>)
  with front show ?thesis unfolding strip by (simp add: py_strip_def)
qed

lemma set_py_strip_subset: "set (py_strip s) \<subseteq> set s"
proof
  fix x assume "x \<in> set (py_strip s)"
  then have "x \<in> set (dropWhile is_space s)"
    by (auto simp: py_strip_def dest: set_dropWhileD)
  then show "x \<in> set s" by (auto dest: set_dropWhileD)
qed

lemma length_py_strip: "length (py_strip s) \<le> length s"
  by (metis length_dropWhile_le length_rev le_trans py_strip_def)

lemma length_one_line [simp]: "length (one_line s) = length s"
  by (simp add: one_line_def py_replace_char_def)

lemma one_line_no_newline: "10 \<notin> set (one_line s)" "13 \<notin> set (one_line s)"
  by (auto simp: one_line_def py_replace_char_def)

lemma py_startswith_iff: "py_startswith p t \<longleftrightarrow> (\<exists>r. t = p @ r)"
  by (induction p t rule: py_startswith.induct) auto

lemma py_contains_iff: "py_contains n t \<longleftrightarrow> (\<exists>a b. t = a @ n @ b)"
proof (induction t)
  case Nil
  then show ?case by auto
next
  case (Cons c t)
  note IH = Cons.IH
  show ?case
  proof
    assume "py_contains n (c # t)"
    then consider r where "c # t = n @ r" | "py_contains n t"
      by (auto simp: py_startswith_iff)
    then show "\<exists>a b. c # t = a @ n @ b"
    proof cases
      case 1
      then show ?thesis by (metis append_Nil)
    next
      case 2
      then show ?thesis using Cons.IH by (metis append_Cons)
    qed
  next
    assume "\<exists>a b. c # t = a @ n @ b"
    then obtain a b where ab: "c # t = a @ n @ b" by blast
    show "py_contains n (c # t)"
    proof (cases a)
      case Nil
      with ab have "py_startswith n (c # t)" by (simp add: py_startswith_iff)
      then show ?thesis by simp
    next
      case (Cons d a')
      with ab have "t = a' @ n @ b" by simp
      then have "py_contains n t" using IH by blast
      then show ?thesis by simp
    qed
  qed
qed

lemma py_contains_self_append [simp]: "py_contains n (a @ n @ b)"
  by (auto simp: py_contains_iff)

lemma split_once_None: "split_once c s = None \<longleftrightarrow> c \<notin> set s"
  by (induction s) auto

lemma split_once_Some: "split_once c s = Some (a, b) \<Longrightarrow> s = a @ c # b \<and> c \<notin> set a"
  by (induction s arbitrary: a b) (auto split: if_splits)

lemma py_lower_append [simp]: "py_lower (a @ b) = py_lower a @ py_lower b"
  by (simp add: py_lower_def)

lemma py_lower_Nil [simp]: "py_lower [] = []"
  by (simp add: py_lower_def)

lemma py_lower_Cons: "py_lower (c # s) = lower_cp c @ py_lower s"
  by (simp add: py_lower_def)

lemma lower_cp_nonempty [simp]: "lower_cp c \<noteq> []"
  by (simp add: lower_cp_def)

subsection \<open>Decimal notation\<close>

definition digits_value :: "pystr \<Rightarrow> int" where
  "digits_value s = foldl (\<lambda>acc d. acc * 10 + (d - 48)) 0 s"

lemma digits_value_nat_digits: "digits_value (nat_digits n) = int n"
proof (induction n rule: nat_digits.induct)
  case (1 n)
  show ?case
  proof (cases "n < 10")
    case True
    then show ?thesis by (subst nat_digits.simps) (simp add: digits_value_def)
  next
    case False
    then have "digits_value (nat_digits n) = int (n div 10) * 10 + int (n mod 10)"
      by (subst nat_digits.simps) (use 1 in \<open>simp add: digits_value_def\<close>)
    also have "\<dots> = int n" by (metis of_nat_add of_nat_mult of_nat_numeral div_mult_mod_eq)
    finally show ?thesis .
  qed
qed

lemma nat_digits_range: "d \<in> set (nat_digits n) \<Longrightarrow> 48 \<le> d \<and> d \<le> 57"
proof (induction n rule: nat_digits.induct)
  case (1 n)
  then show ?case by (subst (asm) (2) nat_digits.simps) (auto split: if_splits)
qed

lemma nat_digits_nonempty [simp]: "nat_digits n \<noteq> []"
  by (subst nat_digits.simps) simp

lemma str_of_int_inj: "str_of_int i = str_of_int j \<Longrightarrow> i = j"
proof -
  assume eq: "str_of_int i = str_of_int j"
  have no45: "hd (nat_digits n) \<noteq> 45" for n
    using nat_digits_range [of "hd (nat_digits n)" n] hd_in_set [OF nat_digits_nonempty] by fastforce
  show ?thesis
  proof (cases "i < 0 \<longleftrightarrow> j < 0")
    case True
    then have "nat_digits (nat \<bar>i\<bar>) = nat_digits (nat \<bar>j\<bar>)"
      using eq by (auto simp: str_of_int_def split: if_splits)
    then have "\<bar>i\<bar> = \<bar>j\<bar>" by (metis digits_value_nat_digits int_nat_eq abs_ge_zero)
    then show ?thesis using True by linarith
  next
    case False
    then show ?thesis
      using eq no45 by (auto simp: str_of_int_def split: if_splits) (metis list.sel(1))+
  qed
qed

end
