(* ===== verification/Errors.thy ===== *)
theory Errors
  imports Prelude
begin

text \<open>
  Exceptions as values. \<open>exc_class\<close> lists the exception classes the sources name (standard library,
  third-party and the program's own \<open>backend/app/exceptions.py\<close>); \<open>ESub n c\<close> is any further subclass
  of \<open>c\<close>. \<open>isinstance\<close> follows the class hierarchy through \<open>mro\<close>. The second part is the wire
  format of errors (\<open>_payload\<close>, \<open>_headers\<close> and the four handlers), the third the
  state-and-exception monad in which the operations of the other theories are written.
\<close>

section \<open>The exception hierarchy\<close>

datatype err_class =
    NotAuthenticatedError | InvalidCredentialsError | ForbiddenError | NotFoundError
  | ConflictError | ValidationError | IMAPLoginFailedError | SMTPLoginFailedError
  | SMTPSendFailedError | InvalidHostError | RateLimitedError | UpstreamError
  | DependencyUnavailableError | OAuthReconsentRequiredError

primrec status_code :: "err_class \<Rightarrow> int" where
  "status_code NotAuthenticatedError = 401"
| "status_code InvalidCredentialsError = 401"
| "status_code ForbiddenError = 403"
| "status_code NotFoundError = 404"
| "status_code ConflictError = 409"
| "status_code ValidationError = 400"
| "status_code IMAPLoginFailedError = 422"
| "status_code SMTPLoginFailedError = 422"
| "status_code SMTPSendFailedError = 502"
| "status_code InvalidHostError = 422"
| "status_code RateLimitedError = 429"
| "status_code UpstreamError = 502"
| "status_code DependencyUnavailableError = 503"
| "status_code OAuthReconsentRequiredError = 409"

primrec err_code :: "err_class \<Rightarrow> string" where
  "err_code NotAuthenticatedError = ''not_authenticated''"
| "err_code InvalidCredentialsError = ''invalid_credentials''"
| "err_code ForbiddenError = ''forbidden''"
| "err_code NotFoundError = ''not_found''"
| "err_code ConflictError = ''conflict''"
| "err_code ValidationError = ''validation_error''"
| "err_code IMAPLoginFailedError = ''imap_login_failed''"
| "err_code SMTPLoginFailedError = ''smtp_login_failed''"
| "err_code SMTPSendFailedError = ''smtp_failed''"
| "err_code InvalidHostError = ''invalid_host''"
| "err_code RateLimitedError = ''rate_limited''"
| "err_code UpstreamError = ''upstream_error''"
| "err_code DependencyUnavailableError = ''dependency_unavailable''"
| "err_code OAuthReconsentRequiredError = ''oauth_reconsent_required''"

datatype exc_class =
    EBaseException | EException | EOSError | ETimeoutError | EGaiError | EConnectionError
  | ESSLError | EAssertionError | EValueError | ETypeError | EInvalidTag
  | EImapError | EImapAbort | EMailboxLoginError | EMailboxFolderSelectError
  | EMailboxFetchError | EMailboxAppendError | ESMTPException | ESMTPAuthenticationError
  | ERedisError | EHTTPError | EConnectError | EConnectTimeout | EIntegrityError
  | EMultipleResultsFound | EPydanticValidationError | ERequestValidationError
  | EOAuthError | EOAuthRefreshInvalidError | EDomain err_class
  | ESub pystr exc_class

primrec mro :: "exc_class \<Rightarrow> exc_class list" where
  "mro (ESub n c) = ESub n c # mro c"
| "mro EBaseException = [EBaseException]"
| "mro EException = [EException, EBaseException]"
| "mro EOSError = [EOSError, EException, EBaseException]"
| "mro ETimeoutError = [ETimeoutError, EOSError, EException, EBaseException]"
| "mro EGaiError = [EGaiError, EOSError, EException, EBaseException]"
| "mro EConnectionError = [EConnectionError, EOSError, EException, EBaseException]"
| "mro ESSLError = [ESSLError, EOSError, EException, EBaseException]"
| "mro EAssertionError = [EAssertionError, EException, EBaseException]"
| "mro EValueError = [EValueError, EException, EBaseException]"
| "mro ETypeError = [ETypeError, EException, EBaseException]"
| "mro EInvalidTag = [EInvalidTag, EException, EBaseException]"
| "mro EImapError = [EImapError, EException, EBaseException]"
| "mro EImapAbort = [EImapAbort, EImapError, EException, EBaseException]"
| "mro EMailboxLoginError = [EMailboxLoginError, EException, EBaseException]"
| "mro EMailboxFolderSelectError = [EMailboxFolderSelectError, EException, EBaseException]"
| "mro EMailboxFetchError = [EMailboxFetchError, EException, EBaseException]"
| "mro EMailboxAppendError = [EMailboxAppendError, EException, EBaseException]"
| "mro ESMTPException = [ESMTPException, EException, EBaseException]"
| "mro ESMTPAuthenticationError = [ESMTPAuthenticationError, ESMTPException, EException, EBaseException]"
| "mro ERedisError = [ERedisError, EException, EBaseException]"
| "mro EHTTPError = [EHTTPError, EException, EBaseException]"
| "mro EConnectError = [EConnectError, EHTTPError, EException, EBaseException]"
| "mro EConnectTimeout = [EConnectTimeout, EHTTPError, EException, EBaseException]"
| "mro EIntegrityError = [EIntegrityError, EException, EBaseException]"
| "mro EMultipleResultsFound = [EMultipleResultsFound, EException, EBaseException]"
| "mro EPydanticValidationError = [EPydanticValidationError, EValueError, EException, EBaseException]"
| "mro ERequestValidationError = [ERequestValidationError, EException, EBaseException]"
| "mro EOAuthError = [EOAuthError, EException, EBaseException]"
| "mro EOAuthRefreshInvalidError = [EOAuthRefreshInvalidError, EException, EBaseException]"
| "mro (EDomain d) = [EDomain d, EException, EBaseException]"

primrec domain_name :: "err_class \<Rightarrow> pystr" where
  "domain_name NotAuthenticatedError = u ''NotAuthenticatedError''"
| "domain_name InvalidCredentialsError = u ''InvalidCredentialsError''"
| "domain_name ForbiddenError = u ''ForbiddenError''"
| "domain_name NotFoundError = u ''NotFoundError''"
| "domain_name ConflictError = u ''ConflictError''"
| "domain_name ValidationError = u ''ValidationError''"
| "domain_name IMAPLoginFailedError = u ''IMAPLoginFailedError''"
| "domain_name SMTPLoginFailedError = u ''SMTPLoginFailedError''"
| "domain_name SMTPSendFailedError = u ''SMTPSendFailedError''"
| "domain_name InvalidHostError = u ''InvalidHostError''"
| "domain_name RateLimitedError = u ''RateLimitedError''"
| "domain_name UpstreamError = u ''UpstreamError''"
| "domain_name DependencyUnavailableError = u ''DependencyUnavailableError''"
| "domain_name OAuthReconsentRequiredError = u ''OAuthReconsentRequiredError''"

primrec type_name :: "exc_class \<Rightarrow> pystr" where
  "type_name (ESub n c) = n"
| "type_name EBaseException = u ''BaseException''"
| "type_name EException = u ''Exception''"
| "type_name EOSError = u ''OSError''"
| "type_name ETimeoutError = u ''TimeoutError''"
| "type_name EGaiError = u ''gaierror''"
| "type_name EConnectionError = u ''ConnectionError''"
| "type_name ESSLError = u ''SSLError''"
| "type_name EAssertionError = u ''AssertionError''"
| "type_name EValueError = u ''ValueError''"
| "type_name ETypeError = u ''TypeError''"
| "type_name EInvalidTag = u ''InvalidTag''"
| "type_name EImapError = u ''error''"
| "type_name EImapAbort = u ''abort''"
| "type_name EMailboxLoginError = u ''MailboxLoginError''"
| "type_name EMailboxFolderSelectError = u ''MailboxFolderSelectError''"
| "type_name EMailboxFetchError = u ''MailboxFetchError''"
| "type_name EMailboxAppendError = u ''MailboxAppendError''"
| "type_name ESMTPException = u ''SMTPException''"
| "type_name ESMTPAuthenticationError = u ''SMTPAuthenticationError''"
| "type_name ERedisError = u ''RedisError''"
| "type_name EHTTPError = u ''HTTPError''"
| "type_name EConnectError = u ''ConnectError''"
| "type_name EConnectTimeout = u ''ConnectTimeout''"
| "type_name EIntegrityError = u ''IntegrityError''"
| "type_name EMultipleResultsFound = u ''MultipleResultsFound''"
| "type_name EPydanticValidationError = u ''ValidationError''"
| "type_name ERequestValidationError = u ''RequestValidationError''"
| "type_name EOAuthError = u ''OAuthError''"
| "type_name EOAuthRefreshInvalidError = u ''OAuthRefreshInvalidError''"
| "type_name (EDomain c) = domain_name c"

text \<open>
  An exception object: its class, \<open>str(exc)\<close>, and the attributes the sources read
  (\<open>errno\<close>; \<open>field\<close>, \<open>details\<close> and \<open>retry_after\<close> of \<open>DomainError\<close>; \<open>code\<close> of \<open>OAuthError\<close>).
\<close>

record pyexc =
  ecls :: exc_class
  emsg :: pystr
  eerrno :: "int option"
  efield :: "string option"
  edetails :: "(string \<times> pystr) list"
  eretry :: "int option"
  ecode :: string

definition isinstance :: "pyexc \<Rightarrow> exc_class \<Rightarrow> bool" where
  "isinstance e c \<longleftrightarrow> c \<in> set (mro (ecls e))"

definition mk_exc :: "exc_class \<Rightarrow> pystr \<Rightarrow> pyexc" where
  "mk_exc c m = \<lparr>ecls = c, emsg = m, eerrno = None, efield = None, edetails = [], eretry = None, ecode = []\<rparr>"

definition domain_error :: "err_class \<Rightarrow> pystr option \<Rightarrow> pyexc" where
  \<comment> \<open>\<open>DomainError.__init__\<close>: an absent or empty message falls back to the code\<close>
  "domain_error c m = mk_exc (EDomain c)
     (case m of None \<Rightarrow> u (err_code c) | Some t \<Rightarrow> if t = [] then u (err_code c) else t)"

definition raise_domain :: "err_class \<Rightarrow> string \<Rightarrow> pyexc" where
  "raise_domain c m = domain_error c (Some (u m))"

definition oauth_error :: "string \<Rightarrow> pystr option \<Rightarrow> pyexc" where
  "oauth_error code m = (mk_exc EOAuthError
     (case m of None \<Rightarrow> u code | Some t \<Rightarrow> if t = [] then u code else t)) \<lparr>ecode := code\<rparr>"

lemma mro_head [simp]: "c \<in> set (mro c)"
  by (cases c) auto

lemma isinstance_mk [simp]: "isinstance (mk_exc c m) d \<longleftrightarrow> d \<in> set (mro c)"
  by (simp add: isinstance_def mk_exc_def)

lemma mk_exc_simps [simp]:
  "ecls (mk_exc c m) = c" "emsg (mk_exc c m) = m" "eerrno (mk_exc c m) = None"
  by (simp_all add: mk_exc_def)

lemma domain_error_cls [simp]: "ecls (domain_error c m) = EDomain c"
  "ecls (raise_domain c t) = EDomain c"
  by (simp_all add: domain_error_def raise_domain_def)

lemma oauth_error_cls [simp]: "ecls (oauth_error c m) = EOAuthError"
  by (simp add: oauth_error_def)

section \<open>The wire format of errors\<close>

datatype json = JNull | JBool bool | JInt int | JStr pystr | JArr "json list"
  | JObj "(string \<times> json) list"

record http_response =
  rs_status :: int
  rs_headers :: "(string \<times> pystr) list"
  rs_body :: json

definition err_payload :: "pyexc \<Rightarrow> err_class \<Rightarrow> json" where
  "err_payload e c = JObj [(''error'', JObj
     ([(''code'', JStr (u (err_code c))), (''message'', JStr (emsg e))]
      @ (case efield e of None \<Rightarrow> [] | Some f \<Rightarrow> [(''field'', JStr (u f))])
      @ (if edetails e = [] then [] else
           [(''details'', JObj (map (\<lambda>(k, v). (k, JStr v)) (edetails e)))])))]"

definition err_headers :: "pyexc \<Rightarrow> (string \<times> pystr) list" where
  "err_headers e = (case eretry e of None \<Rightarrow> [] | Some r \<Rightarrow> [(''Retry-After'', str_of_int r)])"

definition domain_handler :: "pyexc \<Rightarrow> err_class \<Rightarrow> http_response" where
  "domain_handler e c = \<lparr>rs_status = status_code c, rs_headers = err_headers e, rs_body = err_payload e c\<rparr>"

definition http_handler :: "int \<Rightarrow> pystr \<Rightarrow> http_response" where
  "http_handler st detail =
     (let code = (if st = 401 then ''not_authenticated'' else if st = 403 then ''forbidden''
        else if st = 404 then ''not_found'' else if st = 405 then ''method_not_allowed''
        else if st = 429 then ''rate_limited'' else ''http_error'')
      in \<lparr>rs_status = st, rs_headers = [], rs_body = JObj [(''error'', JObj
           [(''code'', JStr (u code)), (''message'', JStr (if detail = [] then u code else detail))])]\<rparr>)"

definition validation_handler :: "(pystr \<times> pystr) list \<Rightarrow> http_response" where
  \<comment> \<open>the argument lists the \<open>loc\<close> path and the \<open>type\<close> of every error, never a value\<close>
  "validation_handler errs = \<lparr>rs_status = 400, rs_headers = [], rs_body = JObj [(''error'', JObj
     [(''code'', JStr (u ''validation_error'')), (''message'', JStr (u ''Request validation failed'')),
      (''details'', JObj [(''errors'', JArr (map (\<lambda>(l, t).
         JObj [(''loc'', JStr l), (''type'', JStr t)]) errs))])])]\<rparr>"

definition unhandled_handler :: "pyexc \<Rightarrow> http_response" where
  "unhandled_handler e = \<lparr>rs_status = 500, rs_headers = [], rs_body = JObj [(''error'', JObj
     [(''code'', JStr (u ''internal_error'')), (''message'', JStr (u ''An internal error occurred.''))])]\<rparr>"

definition dispatch_handler :: "pyexc \<Rightarrow> http_response" where
  \<comment> \<open>the handler table of \<open>install_exception_handlers\<close>, for an exception leaving a route\<close>
  "dispatch_handler e = (case ecls e of
       EDomain c \<Rightarrow> domain_handler e c
     | ERequestValidationError \<Rightarrow> validation_handler []
     | _ \<Rightarrow> unhandled_handler e)"

section \<open>State and exceptions\<close>

type_synonym ('s, 'a) prog = "'s \<Rightarrow> (pyexc + 'a) \<times> 's"

definition ret :: "'a \<Rightarrow> ('s, 'a) prog" where
  "ret x = (\<lambda>s. (Inr x, s))"

definition throw :: "pyexc \<Rightarrow> ('s, 'a) prog" where
  "throw e = (\<lambda>s. (Inl e, s))"

definition bindM :: "('s, 'a) prog \<Rightarrow> ('a \<Rightarrow> ('s, 'b) prog) \<Rightarrow> ('s, 'b) prog" where
  "bindM m f = (\<lambda>s. case m s of (Inl e, s') \<Rightarrow> (Inl e, s') | (Inr x, s') \<Rightarrow> f x s')"

definition catchM :: "('s, 'a) prog \<Rightarrow> (pyexc \<Rightarrow> ('s, 'a) prog) \<Rightarrow> ('s, 'a) prog" where
  "catchM m h = (\<lambda>s. case m s of (Inl e, s') \<Rightarrow> h e s' | (Inr x, s') \<Rightarrow> (Inr x, s'))"

definition getM :: "('s \<Rightarrow> 'a) \<Rightarrow> ('s, 'a) prog" where
  "getM f = (\<lambda>s. (Inr (f s), s))"

definition modifyM :: "('s \<Rightarrow> 's) \<Rightarrow> ('s, unit) prog" where
  "modifyM f = (\<lambda>s. (Inr (), f s))"

definition liftE :: "pyexc + 'a \<Rightarrow> ('s, 'a) prog" where
  "liftE r = (\<lambda>s. (r, s))"

abbreviation seqM :: "('s, 'a) prog \<Rightarrow> ('s, 'b) prog \<Rightarrow> ('s, 'b) prog" where
  "seqM m k \<equiv> bindM m (\<lambda>_. k)"

fun for_each :: "('a \<Rightarrow> ('s, unit) prog) \<Rightarrow> 'a list \<Rightarrow> ('s, unit) prog" where
  "for_each f [] = ret ()"
| "for_each f (x # xs) = seqM (f x) (for_each f xs)"

lemma ret_app [simp]: "ret x s = (Inr x, s)"
  and throw_app [simp]: "throw e s = (Inl e, s)"
  and getM_app [simp]: "getM f s = (Inr (f s), s)"
  and modifyM_app [simp]: "modifyM g s = (Inr (), g s)"
  and liftE_app [simp]: "liftE r s = (r, s)"
  by (simp_all add: ret_def throw_def getM_def modifyM_def liftE_def)

lemma bindM_app: "bindM m f s = (case m s of (Inl e, s') \<Rightarrow> (Inl e, s') | (Inr x, s') \<Rightarrow> f x s')"
  by (simp add: bindM_def)

lemma catchM_app: "catchM m h s = (case m s of (Inl e, s') \<Rightarrow> h e s' | (Inr x, s') \<Rightarrow> (Inr x, s'))"
  by (simp add: catchM_def)

lemma bindM_ret [simp]: "bindM (ret x) f = f x"
  and bindM_throw [simp]: "bindM (throw e) f = throw e"
  by (simp_all add: bindM_def fun_eq_iff)

lemma bindM_assoc: "bindM (bindM m f) g = bindM m (\<lambda>x. bindM (f x) g)"
  by (auto simp: bindM_def fun_eq_iff split: prod.splits sum.splits)

lemma bindM_InrE:
  assumes "bindM m f s = (Inr y, t)"
  obtains x s' where "m s = (Inr x, s')" and "f x s' = (Inr y, t)"
  using assms by (auto simp: bindM_def split: prod.splits sum.splits)

lemma bindM_cases:
  assumes "bindM m f s = (r, t)"
  obtains (fail) e where "m s = (Inl e, t)" and "r = Inl e"
    | (step) x s' where "m s = (Inr x, s')" and "f x s' = (r, t)"
  using assms by (auto simp: bindM_def split: prod.splits sum.splits)

text \<open>A property of the state that every step of a computation keeps.\<close>

definition keeps :: "('s \<Rightarrow> bool) \<Rightarrow> ('s, 'a) prog \<Rightarrow> bool" where
  "keeps P m \<longleftrightarrow> (\<forall>s. P s \<longrightarrow> P (snd (m s)))"

lemma keepsI: "(\<And>s. P s \<Longrightarrow> P (snd (m s))) \<Longrightarrow> keeps P m"
  by (simp add: keeps_def)

lemma keepsD: "keeps P m \<Longrightarrow> P s \<Longrightarrow> P (snd (m s))"
  by (simp add: keeps_def)

lemma keeps_ret [intro, simp]: "keeps P (ret x)"
  and keeps_throw [intro, simp]: "keeps P (throw e)"
  and keeps_getM [intro, simp]: "keeps P (getM f)"
  and keeps_liftE [intro, simp]: "keeps P (liftE r)"
  by (simp_all add: keeps_def)

lemma keeps_bindM [intro]: "keeps P m \<Longrightarrow> (\<And>x. keeps P (f x)) \<Longrightarrow> keeps P (bindM m f)"
  by (auto simp: keeps_def bindM_def split: prod.splits sum.splits)

lemma keeps_catchM [intro]: "keeps P m \<Longrightarrow> (\<And>e. keeps P (h e)) \<Longrightarrow> keeps P (catchM m h)"
  by (auto simp: keeps_def catchM_def split: prod.splits sum.splits)

lemma keeps_modifyM [intro]: "(\<And>s. P s \<Longrightarrow> P (g s)) \<Longrightarrow> keeps P (modifyM g)"
  by (simp add: keeps_def)

lemma keeps_for_each [intro]: "(\<And>x. x \<in> set xs \<Longrightarrow> keeps P (f x)) \<Longrightarrow> keeps P (for_each f xs)"
  by (induction xs) auto

lemma keeps_if [intro]: "(b \<Longrightarrow> keeps P m) \<Longrightarrow> (\<not> b \<Longrightarrow> keeps P k) \<Longrightarrow> keeps P (if b then m else k)"
  by simp

text \<open>A property of the values a computation returns.\<close>

definition yields :: "('a \<Rightarrow> bool) \<Rightarrow> ('s, 'a) prog \<Rightarrow> bool" where
  "yields Q m \<longleftrightarrow> (\<forall>s x t. m s = (Inr x, t) \<longrightarrow> Q x)"

lemma yieldsD: "yields Q m \<Longrightarrow> m s = (Inr x, t) \<Longrightarrow> Q x"
  by (auto simp: yields_def)

lemma yields_ret [intro]: "Q x \<Longrightarrow> yields Q (ret x)" and yields_throw [intro]: "yields Q (throw e)"
  by (simp_all add: yields_def)

lemma yields_Pair [simp]: "yields Q (Pair (Inr x)) = Q x" "yields Q (Pair (Inl e))"
  by (simp_all add: yields_def)

lemma yields_bindM:
  assumes "yields P m" and "\<And>x. P x \<Longrightarrow> yields Q (f x)"
  shows "yields Q (bindM m f)"
  unfolding yields_def by (metis assms bindM_InrE yields_def)

lemma yields_seqM: "(\<And>x. yields Q (f x)) \<Longrightarrow> yields Q (bindM m f)"
  unfolding yields_def bindM_def by (auto split: prod.splits sum.splits)

lemma yields_catchM: "yields Q m \<Longrightarrow> (\<And>e. yields Q (h e)) \<Longrightarrow> yields Q (catchM m h)"
  unfolding yields_def catchM_def by (fastforce split: prod.splits sum.splits)

lemma keeps_Pair [simp]: "keeps P (Pair r)"
  by (simp add: keeps_def)

section \<open>What a client learns from an error response\<close>

lemma status_code_range: "400 \<le> status_code c \<and> status_code c < 600"
  by (cases c) simp_all

lemma unhandled_is_opaque: "unhandled_handler e = unhandled_handler e'"
  by (simp add: unhandled_handler_def)

text \<open>Every response of the handler table is an error status with a JSON object under \<open>error\<close>.\<close>

lemma dispatch_handler_envelope:
  "400 \<le> rs_status (dispatch_handler e) \<and> rs_status (dispatch_handler e) < 600 \<and>
   (\<exists>fields. rs_body (dispatch_handler e) = JObj [(''error'', JObj fields)])"
  using status_code_range
  by (auto simp: dispatch_handler_def domain_handler_def validation_handler_def unhandled_handler_def
      err_payload_def split: exc_class.splits)

end
