(* ===== verification/Credentials.thy ===== *)
theory Credentials
  imports Errors
begin

text \<open>
  \<open>shared/credentials.py\<close>: the optional SMTP login and SMTP secret. A blank string and the
  serialisation sentinels \<open>none\<close>, \<open>null\<close>, \<open>undefined\<close> (in any letter case) mean absence.
\<close>

definition ABSENCE_SENTINELS :: "pystr list" where
  "ABSENCE_SENTINELS = map u [''none'', ''null'', ''undefined'']"

definition is_absent :: "pystr \<Rightarrow> bool" where
  "is_absent value =
     (let stripped = py_strip value in stripped = [] \<or> py_lower stripped \<in> set ABSENCE_SENTINELS)"

definition normalize_optional_login :: "pystr option \<Rightarrow> pystr option" where
  "normalize_optional_login value = (case value of None \<Rightarrow> None
     | Some v \<Rightarrow> if is_absent v then None else Some (py_strip v))"

definition normalize_optional_secret :: "pystr option \<Rightarrow> pystr option" where
  "normalize_optional_secret value = (case value of None \<Rightarrow> None
     | Some v \<Rightarrow> if is_absent v then None else Some v)"

definition or_else :: "pystr option \<Rightarrow> pystr \<Rightarrow> pystr" where
  \<comment> \<open>Python's \<open>value or default\<close> on an optional string\<close>
  "or_else v d = (case v of None \<Rightarrow> d | Some t \<Rightarrow> if t = [] then d else t)"

lemma normalize_login_None [simp]: "normalize_optional_login None = None"
  and normalize_secret_None [simp]: "normalize_optional_secret None = None"
  by (simp_all add: normalize_optional_login_def normalize_optional_secret_def)

lemma is_absent_strip [simp]: "is_absent (py_strip v) = is_absent v"
  by (simp add: is_absent_def)

lemma is_absent_Nil [simp]: "is_absent []"
  by (simp add: is_absent_def)

lemma normalize_login_present:
  "normalize_optional_login v = Some t \<Longrightarrow> t \<noteq> [] \<and> py_strip t = t \<and> \<not> is_absent t"
  by (auto simp: normalize_optional_login_def is_absent_def Let_def split: option.splits if_splits)

lemma normalize_secret_present:
  "normalize_optional_secret v = Some t \<Longrightarrow> t \<noteq> [] \<and> \<not> is_absent t \<and> v = Some t"
  by (auto simp: normalize_optional_secret_def split: option.splits if_splits)

lemma normalize_login_idem:
  "normalize_optional_login (normalize_optional_login v) = normalize_optional_login v"
  by (auto simp: normalize_optional_login_def split: option.splits)

lemma normalize_secret_idem:
  "normalize_optional_secret (normalize_optional_secret v) = normalize_optional_secret v"
  by (auto simp: normalize_optional_secret_def split: option.splits)

lemma normalize_same_absence:
  "normalize_optional_login v = None \<longleftrightarrow> normalize_optional_secret v = None"
  by (auto simp: normalize_optional_login_def normalize_optional_secret_def split: option.splits)

text \<open>
  The login put on the wire by the send and probe paths (\<open>normalize(...) or email\<close>) is never
  an absence sentinel, is trimmed, and normalising twice (schema boundary, then point of use) is the same
  as normalising once; a surviving secret is passed on verbatim.
\<close>

theorem effective_smtp_login_usable:
  assumes "\<not> is_absent email"
  shows "\<not> is_absent (or_else (normalize_optional_login v) email) \<and>
         or_else (normalize_optional_login (normalize_optional_login v)) email
           = or_else (normalize_optional_login v) email \<and>
         (normalize_optional_login v = None \<longrightarrow> or_else (normalize_optional_login v) email = email) \<and>
         (\<forall>s. normalize_optional_secret v = Some s \<longrightarrow> v = Some s)"
  using assms normalize_login_present [of v] normalize_secret_present [of v]
  by (auto simp: or_else_def normalize_login_idem split: option.splits)

theorem effective_smtp_login_usable_witness:
  "or_else (normalize_optional_login (Some (u ''None''))) (u ''a@b.co'') = u ''a@b.co'' \<and>
   \<not> is_absent (or_else (normalize_optional_login (Some (u ''None''))) (u ''a@b.co''))"
proof -
  have e: "\<not> is_absent (u ''a@b.co'')" by code_simp
  have n: "normalize_optional_login (Some (u ''None'')) = None" by code_simp
  show ?thesis using effective_smtp_login_usable [OF e, of "Some (u ''None'')"] n by blast
qed

end
