(* ===== verification/Account_Schemas.thy ===== *)
theory Account_Schemas
  imports Credentials
begin

text \<open>
  The request bodies of the mailbox endpoints: \<open>backend/app/accounts/schemas.py\<close>, the mailbox part of
  \<open>backend/app/external/schemas.py\<close>, and the table of provider defaults \<open>backend/app/accounts/providers.py\<close>.
  A pydantic model is a record and its validation a function to \<open>pyexc + record\<close>: length and range constraints, then the
  field validators (which rewrite a field), then the model validator. The fields several bodies share are parent records.
\<close>

section \<open>Records\<close>

record login_fields =
  lf_email :: pystr
  lf_password :: pystr
  lf_imap_host :: pystr
  lf_imap_port :: int
  lf_imap_ssl :: bool
  lf_smtp_host :: pystr
  lf_smtp_port :: int
  lf_smtp_ssl :: bool
  lf_smtp_starttls :: bool
  lf_smtp_username :: "pystr option"
  lf_smtp_password :: "pystr option"

record create_request = login_fields +
  cr_display_name :: "pystr option"
  cr_target_user_id :: "int option"

record ext_create_request = login_fields +
  xc_display_name :: "pystr option"

record test_request =
  tr_account_id :: "int option"
  tr_email :: "pystr option"
  tr_password :: "pystr option"
  tr_imap_host :: "pystr option"
  tr_imap_port :: int
  tr_imap_ssl :: bool
  tr_smtp_host :: "pystr option"
  tr_smtp_port :: int
  tr_smtp_ssl :: bool
  tr_smtp_starttls :: bool
  tr_smtp_username :: "pystr option"
  tr_smtp_password :: "pystr option"

record patch_fields =
  pf_email :: "pystr option"
  pf_password :: "pystr option"
  pf_display_name :: "pystr option"
  pf_imap_host :: "pystr option"
  pf_imap_port :: "int option"
  pf_imap_ssl :: "bool option"
  pf_smtp_host :: "pystr option"
  pf_smtp_port :: "int option"
  pf_smtp_ssl :: "bool option"
  pf_smtp_starttls :: "bool option"
  pf_smtp_username :: "pystr option"
  pf_smtp_password :: "pystr option"

record update_request = patch_fields +
  ur_clear_display_name :: bool

record ext_update_request = patch_fields +
  xu_is_active :: "bool option"
  xu_set_is_active :: bool

record ext_update_body = patch_fields +
  xb_is_active :: "bool option option" \<comment> \<open>key absent, null, or a value\<close>
  xb_set_is_active :: "bool option"

definition no_patch :: patch_fields where
  "no_patch = \<lparr>pf_email = None, pf_password = None, pf_display_name = None, pf_imap_host = None, pf_imap_port = None,
     pf_imap_ssl = None, pf_smtp_host = None, pf_smtp_port = None, pf_smtp_ssl = None, pf_smtp_starttls = None,
     pf_smtp_username = None, pf_smtp_password = None\<rparr>"

section \<open>Constraints\<close>

definition pydantic_error :: pyexc where
  "pydantic_error = mk_exc EPydanticValidationError (u ''validation error'')"

definition len_in :: "nat \<Rightarrow> nat \<Rightarrow> pystr \<Rightarrow> bool" where
  "len_in lo hi t \<longleftrightarrow> lo \<le> length t \<and> length t \<le> hi"

definition opt_ok :: "('a \<Rightarrow> bool) \<Rightarrow> 'a option \<Rightarrow> bool" where
  "opt_ok P v = (case v of None \<Rightarrow> True | Some x \<Rightarrow> P x)"

definition port_ok :: "int \<Rightarrow> bool" where
  "port_ok n \<longleftrightarrow> 1 \<le> n \<and> n \<le> 65535"

definition email_shape :: "pystr \<Rightarrow> bool" where
  "email_shape e = (case split_once 64 e of None \<Rightarrow> False
     | Some (local, domain) \<Rightarrow> 46 \<in> set domain \<and> local \<noteq> [] \<and> \<not> py_startswith [46] domain \<and>
         \<not> py_startswith [46] (rev domain) \<and> \<not> py_contains [46, 46] domain)"

definition trim_dn :: "pystr option \<Rightarrow> pystr option" where
  "trim_dn v = (case v of None \<Rightarrow> None | Some t \<Rightarrow> if py_strip t = [] then None else Some (py_strip t))"

definition scrub_login_fields :: "('m) login_fields_scheme \<Rightarrow> ('m) login_fields_scheme" where
  \<comment> \<open>the field validators of \<open>OptionalSmtpCredsMixin\<close>\<close>
  "scrub_login_fields r = r\<lparr>lf_smtp_username := normalize_optional_login (lf_smtp_username r),
     lf_smtp_password := normalize_optional_secret (lf_smtp_password r)\<rparr>"

definition login_fields_ok :: "('m) login_fields_scheme \<Rightarrow> bool" where
  "login_fields_ok r \<longleftrightarrow> len_in 3 254 (lf_email r) \<and> len_in 1 256 (lf_password r) \<and> len_in 1 253 (lf_imap_host r) \<and>
     port_ok (lf_imap_port r) \<and> len_in 1 253 (lf_smtp_host r) \<and> port_ok (lf_smtp_port r) \<and>
     opt_ok (len_in 0 254) (lf_smtp_username r) \<and> opt_ok (len_in 0 256) (lf_smtp_password r)"

definition login_model_ok :: "('m) login_fields_scheme \<Rightarrow> bool" where
  "login_model_ok r \<longleftrightarrow> \<not> (lf_smtp_ssl r \<and> lf_smtp_starttls r) \<and> email_shape (lf_email r)"

definition validate_create_request :: "create_request \<Rightarrow> pyexc + create_request" where
  "validate_create_request r =
     (if login_fields_ok r \<and> opt_ok (len_in 0 100) (cr_display_name r) \<and> opt_ok (\<lambda>n. 1 \<le> n) (cr_target_user_id r) \<and>
        login_model_ok r
      then Inr ((scrub_login_fields r)\<lparr>cr_display_name := trim_dn (cr_display_name r)\<rparr>) else Inl pydantic_error)"

definition validate_ext_test_request :: "login_fields \<Rightarrow> pyexc + login_fields" where
  "validate_ext_test_request r = (if login_fields_ok r \<and> login_model_ok r then Inr (scrub_login_fields r) else Inl pydantic_error)"

definition validate_ext_create_request :: "ext_create_request \<Rightarrow> pyexc + ext_create_request" where
  "validate_ext_create_request r = (if login_fields_ok r \<and> opt_ok (len_in 0 100) (xc_display_name r) \<and> login_model_ok r
     then Inr (scrub_login_fields r) else Inl pydantic_error)"

definition given :: "pystr option \<Rightarrow> bool" where
  \<comment> \<open>the truth value of an optional string\<close>
  "given v \<longleftrightarrow> v \<noteq> None \<and> v \<noteq> Some []"

definition validate_test_request :: "test_request \<Rightarrow> pyexc + test_request" where
  "validate_test_request r =
     (if opt_ok (\<lambda>n. 1 \<le> n) (tr_account_id r) \<and> opt_ok (len_in 3 254) (tr_email r) \<and> opt_ok (len_in 1 256) (tr_password r) \<and>
        opt_ok (len_in 1 253) (tr_imap_host r) \<and> port_ok (tr_imap_port r) \<and> opt_ok (len_in 1 253) (tr_smtp_host r) \<and>
        port_ok (tr_smtp_port r) \<and> opt_ok (len_in 0 254) (tr_smtp_username r) \<and> opt_ok (len_in 0 256) (tr_smtp_password r) \<and>
        \<not> (tr_smtp_ssl r \<and> tr_smtp_starttls r) \<and>
        (tr_account_id r \<noteq> None \<or> given (tr_email r) \<and> given (tr_password r) \<and> given (tr_imap_host r) \<and> given (tr_smtp_host r) \<and>
           opt_ok email_shape (tr_email r))
      then Inr (r\<lparr>tr_smtp_username := normalize_optional_login (tr_smtp_username r),
             tr_smtp_password := normalize_optional_secret (tr_smtp_password r)\<rparr>)
      else Inl pydantic_error)"

definition as_test_request :: "('m) login_fields_scheme \<Rightarrow> pyexc + test_request" where
  "as_test_request r = validate_test_request \<lparr>tr_account_id = None, tr_email = Some (lf_email r), tr_password = Some (lf_password r),
     tr_imap_host = Some (lf_imap_host r), tr_imap_port = lf_imap_port r, tr_imap_ssl = lf_imap_ssl r,
     tr_smtp_host = Some (lf_smtp_host r), tr_smtp_port = lf_smtp_port r, tr_smtp_ssl = lf_smtp_ssl r,
     tr_smtp_starttls = lf_smtp_starttls r, tr_smtp_username = lf_smtp_username r, tr_smtp_password = lf_smtp_password r\<rparr>"

definition patch_ok :: "('m) patch_fields_scheme \<Rightarrow> bool" where
  "patch_ok r \<longleftrightarrow> opt_ok (len_in 0 254) (pf_email r) \<and> opt_ok (len_in 0 256) (pf_password r) \<and>
     opt_ok (len_in 0 100) (pf_display_name r) \<and> opt_ok (len_in 0 253) (pf_imap_host r) \<and> opt_ok port_ok (pf_imap_port r) \<and>
     opt_ok (len_in 0 253) (pf_smtp_host r) \<and> opt_ok port_ok (pf_smtp_port r) \<and>
     opt_ok (len_in 0 254) (pf_smtp_username r) \<and> opt_ok (len_in 0 256) (pf_smtp_password r)"

definition scrub_patch :: "('m) patch_fields_scheme \<Rightarrow> ('m) patch_fields_scheme" where
  "scrub_patch r = r\<lparr>pf_smtp_username := normalize_optional_login (pf_smtp_username r),
     pf_smtp_password := normalize_optional_secret (pf_smtp_password r)\<rparr>"

definition validate_update_request :: "update_request \<Rightarrow> pyexc + update_request" where
  "validate_update_request r = (if patch_ok r
     then Inr ((scrub_patch r)\<lparr>pf_display_name := trim_dn (pf_display_name r)\<rparr>) else Inl pydantic_error)"

definition presence :: "ext_update_body \<Rightarrow> ext_update_request" where
  \<comment> \<open>\<open>_presence\<close>: \<open>set_is_active\<close> is inferred from the key \<open>is_active\<close>\<close>
  "presence b = patch_fields.extend (patch_fields.truncate b)
     \<lparr>xu_is_active = (case xb_is_active b of None \<Rightarrow> None | Some v \<Rightarrow> v),
      xu_set_is_active = (case xb_set_is_active b of Some v \<Rightarrow> v | None \<Rightarrow> xb_is_active b \<noteq> None)\<rparr>"

definition validate_ext_update_request :: "ext_update_body \<Rightarrow> pyexc + ext_update_request" where
  "validate_ext_update_request b = (if patch_ok b then Inr (scrub_patch (presence b)) else Inl pydantic_error)"

definition has_account_fields :: "ext_update_request \<Rightarrow> bool" where
  "has_account_fields r \<longleftrightarrow> pf_email r \<noteq> None \<or> pf_password r \<noteq> None \<or> pf_display_name r \<noteq> None \<or> pf_imap_host r \<noteq> None \<or>
     pf_imap_port r \<noteq> None \<or> pf_imap_ssl r \<noteq> None \<or> pf_smtp_host r \<noteq> None \<or> pf_smtp_port r \<noteq> None \<or> pf_smtp_ssl r \<noteq> None \<or>
     pf_smtp_starttls r \<noteq> None \<or> pf_smtp_username r \<noteq> None \<or> pf_smtp_password r \<noteq> None"

section \<open>Provider defaults\<close>

record provider_hint =
  ph_imap_host :: pystr
  ph_imap_port :: int
  ph_imap_ssl :: bool
  ph_smtp_host :: pystr
  ph_smtp_port :: int
  ph_smtp_ssl :: bool
  ph_smtp_starttls :: bool

definition hint :: "string \<Rightarrow> string \<Rightarrow> provider_hint" where
  \<comment> \<open>every row of the table: IMAP on 993 with TLS, SMTP on 587 with STARTTLS\<close>
  "hint imap smtp = \<lparr>ph_imap_host = u imap, ph_imap_port = 993, ph_imap_ssl = True, ph_smtp_host = u smtp, ph_smtp_port = 587,
     ph_smtp_ssl = False, ph_smtp_starttls = True\<rparr>"

definition PROVIDERS :: "(pystr \<times> provider_hint) list" where
  "PROVIDERS =
     [(u ''gmail.com'', hint ''imap.gmail.com'' ''smtp.gmail.com''),
      (u ''googlemail.com'', hint ''imap.gmail.com'' ''smtp.gmail.com''),
      (u ''yandex.ru'', hint ''imap.yandex.ru'' ''smtp.yandex.ru''),
      (u ''yandex.com'', hint ''imap.yandex.com'' ''smtp.yandex.com''),
      (u ''mail.ru'', hint ''imap.mail.ru'' ''smtp.mail.ru''),
      (u ''inbox.ru'', hint ''imap.mail.ru'' ''smtp.mail.ru''),
      (u ''bk.ru'', hint ''imap.mail.ru'' ''smtp.mail.ru''),
      (u ''list.ru'', hint ''imap.mail.ru'' ''smtp.mail.ru''),
      (u ''aol.com'', hint ''imap.aol.com'' ''smtp.aol.com''),
      (u ''yahoo.com'', hint ''imap.mail.yahoo.com'' ''smtp.mail.yahoo.com''),
      (u ''outlook.com'', hint ''outlook.office365.com'' ''smtp.office365.com''),
      (u ''hotmail.com'', hint ''outlook.office365.com'' ''smtp.office365.com''),
      (u ''live.com'', hint ''outlook.office365.com'' ''smtp.office365.com'')]"

definition suggest_provider_defaults :: "pystr \<Rightarrow> provider_hint option" where
  "suggest_provider_defaults e = (if e = [] \<or> 64 \<notin> set e then None
     else map_of PROVIDERS (py_lower (List.last (split_all 64 e))))"

section \<open>Facts\<close>

lemma opt_ok_simps [simp]: "opt_ok P None" "opt_ok P (Some x) = P x"
  by (simp_all add: opt_ok_def)

lemma pydantic_error_cls [simp]: "isinstance pydantic_error EValueError" "\<not> isinstance pydantic_error (EDomain c)"
  "isinstance pydantic_error EPydanticValidationError" "isinstance pydantic_error EException"
  by (simp_all add: pydantic_error_def)

lemma scrub_login_idem [simp]: "scrub_login_fields (scrub_login_fields r) = scrub_login_fields r"
  by (simp add: scrub_login_fields_def normalize_login_idem normalize_secret_idem)

lemma opt_ok_login: "opt_ok (len_in 0 n) v \<Longrightarrow> opt_ok (len_in 0 n) (normalize_optional_login v)"
  by (auto simp: normalize_optional_login_def opt_ok_def len_in_def split: option.splits if_splits)
     (use length_py_strip in \<open>meson le_trans\<close>)

lemma opt_ok_secret: "opt_ok (len_in 0 n) v \<Longrightarrow> opt_ok (len_in 0 n) (normalize_optional_secret v)"
  by (auto simp: normalize_optional_secret_def opt_ok_def split: option.splits if_splits)

lemma login_fields_ok_scrub: "login_fields_ok r \<Longrightarrow> login_fields_ok (scrub_login_fields r)"
  by (simp add: login_fields_ok_def scrub_login_fields_def opt_ok_login opt_ok_secret)

text \<open>A validated body is accepted again by the stricter internal models: the re-validation inside a handler cannot fail.\<close>

lemma as_test_request_accepts:
  assumes "login_fields_ok r" and "login_model_ok r"
  shows "\<exists>t. as_test_request r = Inr t \<and> tr_account_id t = None \<and> tr_email t = Some (lf_email r) \<and> tr_password t = Some (lf_password r) \<and>
    tr_imap_host t = Some (lf_imap_host r) \<and> tr_imap_port t = lf_imap_port r \<and> tr_imap_ssl t = lf_imap_ssl r \<and>
    tr_smtp_host t = Some (lf_smtp_host r) \<and> tr_smtp_port t = lf_smtp_port r \<and> tr_smtp_ssl t = lf_smtp_ssl r \<and>
    tr_smtp_starttls t = lf_smtp_starttls r \<and> tr_smtp_username t = normalize_optional_login (lf_smtp_username r) \<and>
    tr_smtp_password t = normalize_optional_secret (lf_smtp_password r)"
  using assms by (auto simp: as_test_request_def validate_test_request_def login_fields_ok_def login_model_ok_def given_def len_in_def)

text \<open>A provider hint never asks for implicit TLS and STARTTLS at once, and its ports are ports.\<close>

lemma provider_hint_valid:
  "suggest_provider_defaults e = Some h \<Longrightarrow> \<not> (ph_smtp_ssl h \<and> ph_smtp_starttls h) \<and> port_ok (ph_imap_port h) \<and> port_ok (ph_smtp_port h)"
  by (auto simp: suggest_provider_defaults_def PROVIDERS_def hint_def port_ok_def split: if_splits)

lemma provider_hint_case: "suggest_provider_defaults (u ''x@GMail.com'') = Some (hint ''imap.gmail.com'' ''smtp.gmail.com'')"
  by code_simp

lemma presence_fields [simp]: "pf_email (presence b) = pf_email b" "pf_password (presence b) = pf_password b"
  "pf_display_name (presence b) = pf_display_name b" "pf_imap_host (presence b) = pf_imap_host b" "pf_imap_port (presence b) = pf_imap_port b"
  "pf_imap_ssl (presence b) = pf_imap_ssl b" "pf_smtp_host (presence b) = pf_smtp_host b" "pf_smtp_port (presence b) = pf_smtp_port b"
  "pf_smtp_ssl (presence b) = pf_smtp_ssl b" "pf_smtp_starttls (presence b) = pf_smtp_starttls b"
  "pf_smtp_username (presence b) = pf_smtp_username b" "pf_smtp_password (presence b) = pf_smtp_password b"
  by (simp_all add: presence_def patch_fields.defs)

text \<open>An explicit \<open>null\<close> counts as present, and its truth value is false: it deactivates the mailbox.\<close>

lemma presence_null: "xb_is_active b = Some None \<Longrightarrow> xb_set_is_active b = None \<Longrightarrow>
    xu_set_is_active (presence b) \<and> xu_is_active (presence b) = None"
  by (simp add: presence_def patch_fields.defs)

text \<open>
  C40. Every body the create endpoint accepts is well typed and stays valid inside: address, password and hosts have their
  lengths and the address its shape, the ports are ports, implicit TLS and STARTTLS exclude each other, and the two
  re-validations on the way to the probe (the internal create request and the test request) accept it.
\<close>

theorem accepted_body_revalidates:
  assumes "validate_ext_create_request b = Inr p" and "1 \<le> target"
  shows "len_in 3 254 (lf_email p) \<and> email_shape (lf_email p) \<and> len_in 1 256 (lf_password p) \<and> len_in 1 253 (lf_imap_host p) \<and>
    len_in 1 253 (lf_smtp_host p) \<and> port_ok (lf_imap_port p) \<and> port_ok (lf_smtp_port p) \<and> \<not> (lf_smtp_ssl p \<and> lf_smtp_starttls p) \<and>
    normalize_optional_login (lf_smtp_username p) = lf_smtp_username p \<and>
    (\<exists>q t. validate_create_request (login_fields.extend (login_fields.truncate p)
        \<lparr>cr_display_name = xc_display_name p, cr_target_user_id = Some target\<rparr>) = Inr q \<and>
      as_test_request q = Inr t \<and> tr_account_id t = None \<and> tr_email t = Some (lf_email p))"
proof -
  have p: "p = scrub_login_fields b" "login_fields_ok b" "login_model_ok b" "opt_ok (len_in 0 100) (xc_display_name b)"
    using assms(1) by (auto simp: validate_ext_create_request_def split: if_splits)
  have ok: "login_fields_ok p" "login_model_ok p" using login_fields_ok_scrub [OF p(2)] p(1,3) by (simp_all add: login_model_ok_def scrub_login_fields_def)
  let ?c = "login_fields.extend (login_fields.truncate p) \<lparr>cr_display_name = xc_display_name p, cr_target_user_id = Some target\<rparr>"
  let ?q = "(scrub_login_fields ?c)\<lparr>cr_display_name := trim_dn (cr_display_name ?c)\<rparr>"
  have c: "login_fields_ok ?c" "login_model_ok ?c"
    using ok by (simp_all add: login_fields_ok_def login_model_ok_def login_fields.defs)
  then have q: "validate_create_request ?c = Inr ?q"
    using p(1,4) assms(2) by (simp add: validate_create_request_def login_fields.defs scrub_login_fields_def)
  have "login_fields_ok ?q" "login_model_ok ?q"
    using login_fields_ok_scrub [OF c(1)] c(2) by (simp_all add: login_fields_ok_def login_model_ok_def scrub_login_fields_def)
  from as_test_request_accepts [OF this] obtain t where t: "as_test_request ?q = Inr t" "tr_account_id t = None" "tr_email t = Some (lf_email ?q)" by blast
  have "lf_email ?q = lf_email p" by (simp add: scrub_login_fields_def login_fields.defs)
  then show ?thesis
    using ok q t by (auto simp: login_fields_ok_def login_model_ok_def p(1) scrub_login_fields_def normalize_login_idem)
qed

theorem accepted_body_revalidates_witness:
  "\<exists>p. validate_ext_create_request \<lparr>lf_email = u ''me@b.co'', lf_password = u ''pw'', lf_imap_host = u ''imap.b.co'', lf_imap_port = 993,
     lf_imap_ssl = True, lf_smtp_host = u ''smtp.b.co'', lf_smtp_port = 465, lf_smtp_ssl = True, lf_smtp_starttls = False,
     lf_smtp_username = Some (u '' me ''), lf_smtp_password = None, xc_display_name = None\<rparr> = Inr p \<and>
     email_shape (lf_email p) \<and> lf_smtp_username p = Some (u ''me'')"
proof -
  let ?b = "\<lparr>lf_email = u ''me@b.co'', lf_password = u ''pw'', lf_imap_host = u ''imap.b.co'', lf_imap_port = 993,
     lf_imap_ssl = True, lf_smtp_host = u ''smtp.b.co'', lf_smtp_port = 465, lf_smtp_ssl = True, lf_smtp_starttls = False,
     lf_smtp_username = Some (u '' me ''), lf_smtp_password = None, xc_display_name = None\<rparr> :: ext_create_request"
  have v: "validate_ext_create_request ?b = Inr (?b\<lparr>lf_smtp_username := Some (u ''me'')\<rparr>)" by code_simp
  from accepted_body_revalidates [OF v, of 1] v show ?thesis by auto
qed

end
