(* ===== verification/Utf8.thy ===== *)
theory Utf8
  imports Errors
begin

text \<open>
  The UTF-8 codec of \<open>str.encode\<close> and \<open>bytes.decode\<close>, strict and with \<open>errors="ignore"\<close>, over
  byte lists (\<open>bytes\<close>, values 0 to 255). The facts exported: the strict round trip, and what decoding a
  cut encoding with \<open>ignore\<close> returns (\<open>decode_ignore_take\<close>), used by the body truncation.
\<close>

type_synonym bytes = "int list"

definition valid_cp :: "int \<Rightarrow> bool" where
  "valid_cp c \<longleftrightarrow> 0 \<le> c \<and> c < 1114112 \<and> \<not> (55296 \<le> c \<and> c \<le> 57343)"

definition enc_cp :: "int \<Rightarrow> bytes" where
  "enc_cp c =
     (if c < 128 then [c]
      else if c < 2048 then [192 + c div 64, 128 + c mod 64]
      else if c < 65536 then [224 + c div 4096, 128 + (c div 64) mod 64, 128 + c mod 64]
      else [240 + c div 262144, 128 + (c div 4096) mod 64, 128 + (c div 64) mod 64, 128 + c mod 64])"

definition enc_str :: "pystr \<Rightarrow> bytes" where
  "enc_str s = concat (map enc_cp s)"

definition utf8_encode :: "pystr \<Rightarrow> pyexc + bytes" where
  \<comment> \<open>a lone surrogate raises \<open>UnicodeEncodeError\<close>, a subclass of \<open>ValueError\<close>\<close>
  "utf8_encode s = (if list_all valid_cp s then Inr (enc_str s)
     else Inl (mk_exc (ESub (u ''UnicodeEncodeError'') EValueError) []))"

definition cont :: "int \<Rightarrow> bool" where
  "cont b \<longleftrightarrow> 128 \<le> b \<and> b < 192"

fun dec_one :: "bytes \<Rightarrow> (int \<times> bytes) option" where
  "dec_one [] = None"
| "dec_one (a # r) =
     (if 0 \<le> a \<and> a < 128 then Some (a, r)
      else if 194 \<le> a \<and> a < 224 then
        (case r of b # r1 \<Rightarrow> if cont b then Some ((a - 192) * 64 + (b - 128), r1) else None | _ \<Rightarrow> None)
      else if 224 \<le> a \<and> a < 240 then
        (case r of b # c # r2 \<Rightarrow>
           (let v = (a - 224) * 4096 + (b - 128) * 64 + (c - 128) in
            if cont b \<and> cont c \<and> 2048 \<le> v \<and> valid_cp v then Some (v, r2) else None)
         | _ \<Rightarrow> None)
      else if 240 \<le> a \<and> a < 245 then
        (case r of b # c # d # r3 \<Rightarrow>
           (let v = (a - 240) * 262144 + (b - 128) * 4096 + (c - 128) * 64 + (d - 128) in
            if cont b \<and> cont c \<and> cont d \<and> 65536 \<le> v \<and> valid_cp v then Some (v, r3) else None)
         | _ \<Rightarrow> None)
      else None)"

lemma dec_one_shorter: "dec_one bs = Some (c, r) \<Longrightarrow> length r < length bs"
  by (cases bs) (auto simp: Let_def split: if_splits list.splits)

function utf8_decode :: "bytes \<Rightarrow> pystr option" where
  "utf8_decode bs = (if bs = [] then Some [] else
     (case dec_one bs of None \<Rightarrow> None | Some (c, r) \<Rightarrow> map_option ((#) c) (utf8_decode r)))"
  by pat_completeness auto
termination
  by (relation "measure length") (auto dest: dec_one_shorter)

function decode_ignore :: "bytes \<Rightarrow> pystr" where
  \<comment> \<open>an undecodable byte is skipped; skipping byte by byte drops exactly the maximal invalid
      subparts, since their continuation bytes cannot start a character\<close>
  "decode_ignore bs = (if bs = [] then [] else
     (case dec_one bs of None \<Rightarrow> decode_ignore (tl bs) | Some (c, r) \<Rightarrow> c # decode_ignore r))"
  by pat_completeness auto
termination
  by (relation "measure length") (auto dest: dec_one_shorter)

declare utf8_decode.simps [simp del] decode_ignore.simps [simp del]

lemma utf8_decode_Nil [simp]: "utf8_decode [] = Some []"
  by (simp add: utf8_decode.simps)

lemma decode_ignore_Nil [simp]: "decode_ignore [] = []"
  by (simp add: decode_ignore.simps)

lemma enc_str_simps [simp]: "enc_str [] = []" "enc_str (c # s) = enc_cp c @ enc_str s"
  "enc_str (s @ t) = enc_str s @ enc_str t"
  by (simp_all add: enc_str_def)

lemma enc_cp_nonempty [simp]: "enc_cp c \<noteq> []"
  by (simp add: enc_cp_def)

lemma enc_cp_ascii [simp]: "c < 128 \<Longrightarrow> enc_cp c = [c]"
  by (simp add: enc_cp_def)

lemma enc_cp_bytes: "valid_cp c \<Longrightarrow> b \<in> set (enc_cp c) \<Longrightarrow> 0 \<le> b \<and> b < 256"
  by (auto simp: enc_cp_def valid_cp_def split: if_splits)

section \<open>The round trip\<close>

lemma dec_one_enc_cp: 
  assumes "valid_cp c"
  shows "dec_one (enc_cp c @ r) = Some (c, r)"
proof -
  have two: "(c div 64) * 64 + c mod 64 = c" by simp
  have d4096: "c div 4096 = c div 64 div 64" using zdiv_zmult2_eq [of 64 c 64] by simp
  have d262144: "c div 262144 = c div 4096 div 64" using zdiv_zmult2_eq [of 64 c 4096] by simp
  have three': "(c div 4096) * 64 + (c div 64) mod 64 = c div 64" unfolding d4096 by simp
  have four': "(c div 262144) * 64 + (c div 4096) mod 64 = c div 4096" unfolding d262144 by simp
  have three: "(c div 4096) * 4096 + ((c div 64) mod 64) * 64 + c mod 64 = c"
    using two three' by linarith
  have four: "(c div 262144) * 262144 + ((c div 4096) mod 64) * 4096 + ((c div 64) mod 64) * 64 + c mod 64 = c"
    using three four' by linarith
  have m: "0 \<le> x mod 64" "x mod 64 < 64" for x :: int by simp_all
  consider "c < 128" | "128 \<le> c" "c < 2048" | "2048 \<le> c" "c < 65536" | "65536 \<le> c"
    by linarith
  then show ?thesis
  proof cases
    case 1
    then show ?thesis using assms by (simp add: valid_cp_def)
  next
    case 2
    define a where "a = c div 64"
    define b where "b = c mod 64"
    have "2 \<le> a" "a < 32" "0 \<le> b" "b < 64" "a * 64 + b = c" using 2 two by (auto simp: a_def b_def)
    then show ?thesis using 2
      by (simp add: enc_cp_def cont_def a_def [symmetric] b_def [symmetric] split: list.splits)
  next
    case 3
    define a where "a = c div 4096"
    define b where "b = (c div 64) mod 64"
    define d where "d = c mod 64"
    have "0 \<le> a" "a < 16" "0 \<le> b" "b < 64" "0 \<le> d" "d < 64" "a * 4096 + b * 64 + d = c"
      using 3 three by (auto simp: a_def b_def d_def)
    then show ?thesis using 3 assms
      by (simp add: enc_cp_def cont_def Let_def a_def [symmetric] b_def [symmetric] d_def [symmetric])
  next
    case 4
    define a where "a = c div 262144"
    define b where "b = (c div 4096) mod 64"
    define d where "d = (c div 64) mod 64"
    define e where "e = c mod 64"
    have "0 \<le> a" "a < 5" using 4 assms by (auto simp: a_def valid_cp_def)
    moreover have "0 \<le> b" "b < 64" "0 \<le> d" "d < 64" "0 \<le> e" "e < 64"
      by (simp_all add: b_def d_def e_def)
    moreover have "a * 262144 + (b * 4096 + (d * 64 + e)) = c"
      unfolding a_def b_def d_def e_def using four by (simp only: add.assoc)
    ultimately show ?thesis using 4 assms
      by (simp add: enc_cp_def cont_def Let_def a_def [symmetric] b_def [symmetric] d_def [symmetric]
          e_def [symmetric])
  qed
qed

lemma utf8_decode_enc_cp [simp]:
  "valid_cp c \<Longrightarrow> utf8_decode (enc_cp c @ r) = map_option ((#) c) (utf8_decode r)"
  by (subst utf8_decode.simps) (simp add: dec_one_enc_cp)

lemma decode_ignore_enc_cp [simp]:
  "valid_cp c \<Longrightarrow> decode_ignore (enc_cp c @ r) = c # decode_ignore r"
  by (subst decode_ignore.simps) (simp add: dec_one_enc_cp)

lemma utf8_decode_enc: "list_all valid_cp s \<Longrightarrow> utf8_decode (enc_str s) = Some s"
  by (induction s) simp_all

lemma utf8_roundtrip: "utf8_encode s = Inr b \<Longrightarrow> utf8_decode b = Some s"
  by (auto simp: utf8_encode_def utf8_decode_enc split: if_splits)

section \<open>Decoding a cut encoding\<close>

lemma dec_one_cont: "cont a \<Longrightarrow> dec_one (a # r) = None"
  by (simp add: cont_def)

lemma decode_ignore_cont [simp]: "cont a \<Longrightarrow> decode_ignore (a # r) = decode_ignore r"
  by (subst decode_ignore.simps) (simp add: dec_one_cont del: dec_one.simps)

lemma decode_ignore_lead:
  "128 \<le> a \<Longrightarrow> decode_ignore [a] = []"
  "224 \<le> a \<Longrightarrow> cont b \<Longrightarrow> decode_ignore [a, b] = []"
  "240 \<le> a \<Longrightarrow> cont b \<Longrightarrow> cont c \<Longrightarrow> decode_ignore [a, b, c] = []"
  by (subst decode_ignore.simps, simp)+

lemma cont_mod [simp]: "cont (128 + x mod 64)"
  by (simp add: cont_def)

lemma enc_cp_shape:
  assumes "valid_cp c"
  obtains "enc_cp c = [c]"
    | a b where "enc_cp c = [a, b]" "128 \<le> a" "cont b"
    | a b d where "enc_cp c = [a, b, d]" "224 \<le> a" "cont b" "cont d"
    | a b d e where "enc_cp c = [a, b, d, e]" "240 \<le> a" "cont b" "cont d" "cont e"
proof -
  have pos: "0 \<le> c div 64" "0 \<le> c div 4096" "0 \<le> c div 262144"
    using assms by (simp_all add: valid_cp_def pos_imp_zdiv_nonneg_iff)
  consider "c < 128" | "128 \<le> c" "c < 2048" | "2048 \<le> c" "c < 65536" | "65536 \<le> c"
    by linarith
  then show thesis
  proof cases
    case 1
    then show thesis by (intro that(1)) simp
  next
    case 2
    then show thesis using pos by (intro that(2) [of "192 + c div 64" "128 + c mod 64"]) (simp_all add: enc_cp_def)
  next
    case 3
    then show thesis using pos
      by (intro that(3) [of "224 + c div 4096" "128 + (c div 64) mod 64" "128 + c mod 64"])
        (simp_all add: enc_cp_def)
  next
    case 4
    then show thesis using pos
      by (intro that(4) [of "240 + c div 262144" "128 + (c div 4096) mod 64" "128 + (c div 64) mod 64"
            "128 + c mod 64"]) (simp_all add: enc_cp_def)
  qed
qed

lemma decode_ignore_cut:
  assumes "valid_cp c" and "k < length (enc_cp c)"
  shows "decode_ignore (take k (enc_cp c)) = []"
  using assms(1)
proof (cases rule: enc_cp_shape)
  case 1
  then show ?thesis using assms(2) by simp
next
  case (2 a b)
  then show ?thesis using assms(2) by (auto simp: less_Suc_eq decode_ignore_lead)
next
  case (3 a b d)
  then show ?thesis using assms(2) by (auto simp: less_Suc_eq numeral_2_eq_2 decode_ignore_lead)
next
  case (4 a b d e)
  then show ?thesis using assms(2)
    by (auto simp: less_Suc_eq numeral_2_eq_2 numeral_3_eq_3 decode_ignore_lead)
qed

lemma decode_ignore_take:
  assumes "list_all valid_cp s"
  shows "\<exists>p q. s = p @ q \<and> decode_ignore (take n (enc_str s)) = p
     \<and> length (enc_str p) \<le> n
     \<and> (q = [] \<or> n < length (enc_str (p @ [hd q])))"
  using assms
proof (induction s arbitrary: n)
  case Nil
  then show ?case by simp
next
  case (Cons c s)
  show ?case
  proof (cases "length (enc_cp c) \<le> n")
    case True
    let ?m = "n - length (enc_cp c)"
    have "list_all valid_cp s" using Cons.prems by simp
    from Cons.IH [OF this, of ?m] obtain p q where pq: "s = p @ q" "decode_ignore (take ?m (enc_str s)) = p"
      "length (enc_str p) \<le> ?m" "q = [] \<or> ?m < length (enc_str (p @ [hd q]))"
      by blast
    have "decode_ignore (take n (enc_str (c # s))) = c # p"
      using True Cons.prems pq(2)
      by (simp add: take_append)
    then show ?thesis using True pq
      by (intro exI [of _ "c # p"] exI [of _ q]) auto
  next
    case False
    then have "decode_ignore (take n (enc_str (c # s))) = []"
      using Cons.prems by (simp add: decode_ignore_cut)
    then show ?thesis using False
      by (intro exI [of _ "[]"] exI [of _ "c # s"]) simp
  qed
qed

end
