(* ===== verification/Settings.thy ===== *)
theory Settings
  imports Base64 Credentials Complex_Main
begin

text \<open>
  \<open>shared/config.py\<close>: the settings record (the fields the modelled code reads), the range
  constraints of its numeric fields, its validators, its derived feature flags and the key accessors.
  A fractional setting is a rational.
\<close>

datatype app_env = Dev | Prod

record settings =
  APP_ENV :: app_env
  LOG_LEVEL :: pystr
  ENABLE_DOCS :: bool
  MAIL_ENCRYPTION_KEY :: pystr
  MAIL_ENCRYPTION_KEY_PREV :: "pystr option"
  MAX_CONCURRENT_IMAP :: int
  SYNC_INTERVAL_MINUTES :: int
  RETENTION_DAYS :: int
  IMAP_TIMEOUT_SECONDS :: int
  INITIAL_SYNC_DAYS :: int
  MAX_BODY_BYTES :: int
  SYNC_MAX_CONSECUTIVE_FAILURES :: int
  SYNC_MASS_FAILURE_RATIO :: rat
  SYNC_MASS_FAILURE_MIN :: int
  SYNC_CONNECT_RETRIES :: int
  SYNC_TRANSIENT_SUPPRESS_MINUTES :: int
  SYNC_OAUTH_LOGIN_FAILED_TRANSIENT :: bool
  MAILBOX_TEST_DEADLINE_SECONDS :: int
  EXTERNAL_API_KEY :: pystr
  EXTERNAL_API_RATE_LIMIT_PER_MINUTE :: int
  EXTERNAL_WRITE_ENABLED :: bool
  EXTERNAL_WRITE_RATE_LIMIT_PER_MINUTE :: int
  OUTLOOK_CLIENT_ID :: pystr
  OUTLOOK_CLIENT_SECRET :: pystr
  OUTLOOK_REDIRECT_URI :: pystr
  OUTLOOK_TENANT :: pystr
  OUTLOOK_OAUTH_STATE_TTL_SECONDS :: int
  CRM_INGEST_URL :: pystr
  CRM_MAILBOX_STATUS_URL :: pystr
  CRM_PUSH_SECRET :: pystr
  CRM_PUSH_BATCH_SIZE :: int
  CRM_PUSH_DISPATCH_INTERVAL_SECONDS :: int
  CRM_PUSH_RECOVERY_INTERVAL_SECONDS :: int
  CRM_PUSH_RECOVERY_WINDOW_HOURS :: int
  CRM_PUSH_RECOVERY_BATCH_SIZE :: int
  CRM_STATUS_DISPATCH_INTERVAL_SECONDS :: int
  CRM_STATUS_BATCH_SIZE :: int
  CRM_OAUTH_INGEST_URL :: pystr

definition default_settings :: settings where
  "default_settings = \<lparr>
     APP_ENV = Prod, LOG_LEVEL = u ''INFO'', ENABLE_DOCS = False, MAIL_ENCRYPTION_KEY = [], MAIL_ENCRYPTION_KEY_PREV = None,
     MAX_CONCURRENT_IMAP = 10, SYNC_INTERVAL_MINUTES = 5, RETENTION_DAYS = 30, IMAP_TIMEOUT_SECONDS = 60,
     INITIAL_SYNC_DAYS = 30, MAX_BODY_BYTES = 1048576, SYNC_MAX_CONSECUTIVE_FAILURES = 3,
     SYNC_MASS_FAILURE_RATIO = 1 / 2, SYNC_MASS_FAILURE_MIN = 5, SYNC_CONNECT_RETRIES = 3,
     SYNC_TRANSIENT_SUPPRESS_MINUTES = 60, SYNC_OAUTH_LOGIN_FAILED_TRANSIENT = True,
     MAILBOX_TEST_DEADLINE_SECONDS = 45, EXTERNAL_API_KEY = [], EXTERNAL_API_RATE_LIMIT_PER_MINUTE = 120,
     EXTERNAL_WRITE_ENABLED = False, EXTERNAL_WRITE_RATE_LIMIT_PER_MINUTE = 60,
     OUTLOOK_CLIENT_ID = [], OUTLOOK_CLIENT_SECRET = [], OUTLOOK_REDIRECT_URI = [],
     OUTLOOK_TENANT = u ''consumers'', OUTLOOK_OAUTH_STATE_TTL_SECONDS = 600,
     CRM_INGEST_URL = [], CRM_MAILBOX_STATUS_URL = [], CRM_PUSH_SECRET = [], CRM_PUSH_BATCH_SIZE = 100,
     CRM_PUSH_DISPATCH_INTERVAL_SECONDS = 5, CRM_PUSH_RECOVERY_INTERVAL_SECONDS = 3600,
     CRM_PUSH_RECOVERY_WINDOW_HOURS = 720, CRM_PUSH_RECOVERY_BATCH_SIZE = 500,
     CRM_STATUS_DISPATCH_INTERVAL_SECONDS = 5, CRM_STATUS_BATCH_SIZE = 30, CRM_OAUTH_INGEST_URL = []\<rparr>"

definition in_bounds :: "int \<Rightarrow> int \<Rightarrow> int \<Rightarrow> bool" where
  "in_bounds lo v hi \<longleftrightarrow> lo \<le> v \<and> v \<le> hi"

definition field_bounds :: "settings \<Rightarrow> bool" where
  "field_bounds s \<longleftrightarrow>
     in_bounds 1 (MAX_CONCURRENT_IMAP s) 100 \<and> in_bounds 1 (SYNC_INTERVAL_MINUTES s) 60
   \<and> in_bounds 1 (RETENTION_DAYS s) 3650 \<and> in_bounds 5 (IMAP_TIMEOUT_SECONDS s) 600
   \<and> in_bounds 1 (INITIAL_SYNC_DAYS s) 365 \<and> in_bounds 1024 (MAX_BODY_BYTES s) 10485760
   \<and> in_bounds 1 (SYNC_MAX_CONSECUTIVE_FAILURES s) 20
   \<and> 0 \<le> SYNC_MASS_FAILURE_RATIO s \<and> SYNC_MASS_FAILURE_RATIO s \<le> 1
   \<and> in_bounds 1 (SYNC_MASS_FAILURE_MIN s) 10000 \<and> in_bounds 0 (SYNC_CONNECT_RETRIES s) 10
   \<and> in_bounds 0 (SYNC_TRANSIENT_SUPPRESS_MINUTES s) 10080
   \<and> in_bounds 10 (MAILBOX_TEST_DEADLINE_SECONDS s) 45
   \<and> in_bounds 1 (EXTERNAL_API_RATE_LIMIT_PER_MINUTE s) 10000
   \<and> in_bounds 1 (EXTERNAL_WRITE_RATE_LIMIT_PER_MINUTE s) 10000
   \<and> in_bounds 60 (OUTLOOK_OAUTH_STATE_TTL_SECONDS s) 3600
   \<and> in_bounds 1 (CRM_PUSH_BATCH_SIZE s) 100
   \<and> in_bounds 1 (CRM_PUSH_DISPATCH_INTERVAL_SECONDS s) 600
   \<and> in_bounds 60 (CRM_PUSH_RECOVERY_INTERVAL_SECONDS s) 86400
   \<and> in_bounds 1 (CRM_PUSH_RECOVERY_WINDOW_HOURS s) 8760
   \<and> in_bounds 1 (CRM_PUSH_RECOVERY_BATCH_SIZE s) 10000
   \<and> in_bounds 1 (CRM_STATUS_DISPATCH_INTERVAL_SECONDS s) 600
   \<and> in_bounds 1 (CRM_STATUS_BATCH_SIZE s) 500"

definition validate_master_key :: "pystr \<Rightarrow> string + pystr" where
  "validate_master_key v =
     (if v = [] then Inr v
      else (case b64decode v of
          None \<Rightarrow> Inl ''MAIL_ENCRYPTION_KEY: not valid base64''
        | Some raw \<Rightarrow> if length raw \<noteq> 32 then Inl ''MAIL_ENCRYPTION_KEY: must decode to 32 bytes'' else Inr v))"

definition validate_master_key_prev :: "pystr option \<Rightarrow> string + pystr option" where
  "validate_master_key_prev v =
     (if v = None \<or> v = Some [] then Inr None
      else (case b64decode (the v) of
          None \<Rightarrow> Inl ''MAIL_ENCRYPTION_KEY_PREV: not valid base64''
        | Some raw \<Rightarrow> if length raw \<noteq> 32 then Inl ''MAIL_ENCRYPTION_KEY_PREV: must decode to 32 bytes'' else Inr v))"

definition enforce_required :: "settings \<Rightarrow> string + settings" where
  "enforce_required s =
     (if MAIL_ENCRYPTION_KEY s = [] then Inl ''Missing required env: MAIL_ENCRYPTION_KEY''
      else if APP_ENV s = Prod then Inr (s\<lparr>ENABLE_DOCS := False\<rparr>) else Inr s)"

definition load_settings :: "settings \<Rightarrow> string + settings" where
  \<comment> \<open>the construction of \<open>Settings\<close> from typed environment values: field constraints, field
      validators, then the model validator\<close>
  "load_settings raw =
     (if \<not> field_bounds raw then Inl ''field constraint''
      else (case validate_master_key (MAIL_ENCRYPTION_KEY raw) of
          Inl e \<Rightarrow> Inl e
        | Inr k \<Rightarrow> (case validate_master_key_prev (MAIL_ENCRYPTION_KEY_PREV raw) of
              Inl e \<Rightarrow> Inl e
            | Inr p \<Rightarrow> enforce_required (raw\<lparr>MAIL_ENCRYPTION_KEY := k, MAIL_ENCRYPTION_KEY_PREV := p\<rparr>))))"

definition is_prod :: "settings \<Rightarrow> bool" where
  "is_prod s \<longleftrightarrow> APP_ENV s = Prod"

definition external_api_enabled :: "settings \<Rightarrow> bool" where
  "external_api_enabled s \<longleftrightarrow> EXTERNAL_API_KEY s \<noteq> []"

definition outlook_oauth_enabled :: "settings \<Rightarrow> bool" where
  "outlook_oauth_enabled s \<longleftrightarrow> OUTLOOK_CLIENT_ID s \<noteq> [] \<and> OUTLOOK_CLIENT_SECRET s \<noteq> []"

definition crm_push_enabled :: "settings \<Rightarrow> bool" where
  "crm_push_enabled s \<longleftrightarrow> CRM_INGEST_URL s \<noteq> [] \<and> CRM_PUSH_SECRET s \<noteq> []"

definition crm_status_enabled :: "settings \<Rightarrow> bool" where
  "crm_status_enabled s \<longleftrightarrow> CRM_MAILBOX_STATUS_URL s \<noteq> [] \<and> CRM_PUSH_SECRET s \<noteq> []"

definition crm_oauth_ingest_enabled :: "settings \<Rightarrow> bool" where
  "crm_oauth_ingest_enabled s \<longleftrightarrow> CRM_OAUTH_INGEST_URL s \<noteq> [] \<and> CRM_PUSH_SECRET s \<noteq> []"

definition outlook_authorize_endpoint :: "settings \<Rightarrow> pystr" where
  "outlook_authorize_endpoint s = u ''https://login.microsoftonline.com/'' @ OUTLOOK_TENANT s @ u ''/oauth2/v2.0/authorize''"

definition outlook_token_endpoint :: "settings \<Rightarrow> pystr" where
  "outlook_token_endpoint s = u ''https://login.microsoftonline.com/'' @ OUTLOOK_TENANT s @ u ''/oauth2/v2.0/token''"

definition master_key_bytes :: "settings \<Rightarrow> bytes option" where
  "master_key_bytes s = b64decode (MAIL_ENCRYPTION_KEY s)"

definition master_key_prev_bytes :: "settings \<Rightarrow> bytes option" where
  "master_key_prev_bytes s = (case MAIL_ENCRYPTION_KEY_PREV s of None \<Rightarrow> None
     | Some v \<Rightarrow> if v = [] then None else b64decode v)"

subsection \<open>What a loaded configuration guarantees\<close>

lemma field_bounds_default: "field_bounds default_settings"
  by (simp add: field_bounds_def default_settings_def in_bounds_def)

lemma load_settings_shape:
  assumes "load_settings raw = Inr s"
  obtains k p where "validate_master_key (MAIL_ENCRYPTION_KEY raw) = Inr k" "k \<noteq> []"
    "validate_master_key_prev (MAIL_ENCRYPTION_KEY_PREV raw) = Inr p" "field_bounds raw"
    "s = raw\<lparr>MAIL_ENCRYPTION_KEY := k, MAIL_ENCRYPTION_KEY_PREV := p,
             ENABLE_DOCS := (if APP_ENV raw = Prod then False else ENABLE_DOCS raw)\<rparr>"
  using assms
  by (auto simp: load_settings_def enforce_required_def split: if_splits sum.splits)

lemma load_settings_bounds: "load_settings raw = Inr s \<Longrightarrow> field_bounds s"
  by (erule load_settings_shape) (simp add: field_bounds_def)

lemma load_settings_key:
  assumes "load_settings raw = Inr s"
  obtains k where "master_key_bytes s = Some k" and "length k = 32"
  using assms
  by (elim load_settings_shape)
     (auto simp: validate_master_key_def master_key_bytes_def split: if_splits option.splits)

lemma load_settings_prev:
  assumes "load_settings raw = Inr s"
  shows "case master_key_prev_bytes s of None \<Rightarrow> True | Some k \<Rightarrow> length k = 32"
  using assms
  by (elim load_settings_shape)
     (auto simp: validate_master_key_prev_def master_key_prev_bytes_def split: if_splits option.splits)

lemma load_settings_docs: "load_settings raw = Inr s \<Longrightarrow> is_prod s \<Longrightarrow> \<not> ENABLE_DOCS s"
  by (erule load_settings_shape) (simp add: is_prod_def)

end
