(* ===== verification/Ssrf.thy ===== *)
theory Ssrf
  imports Settings "HOL-Library.Word"
begin

text \<open>
  \<open>backend/app/security.py\<close>: the guard that refuses mail hosts resolving to internal addresses. An
  address is a machine word of its width; a network is a base address with a prefix length, tested with
  its netmask as \<open>ipaddress\<close> does. The parser of textual addresses follows \<open>ipaddress.ip_address\<close>.
  The resolver \<open>socket.getaddrinfo\<close> is a parameter: it raises or returns the address strings in order.
\<close>

unbundle bit_operations_syntax

datatype ip = V4 "32 word" | V6 "128 word"

definition netmask :: "nat \<Rightarrow> 'a::len word" where
  "netmask p = (-1) XOR drop_bit p (-1)"

definition in_net :: "'a::len word \<Rightarrow> 'a word \<times> nat \<Rightarrow> bool" where
  "in_net w net = (w AND netmask (snd net) = fst net)"

definition v4 :: "int \<Rightarrow> int \<Rightarrow> int \<Rightarrow> int \<Rightarrow> 32 word" where
  "v4 a b c d = word_of_int (((a * 256 + b) * 256 + c) * 256 + d)"

definition PRIVATE_NETS_V4 :: "(32 word \<times> nat) list" where
  "PRIVATE_NETS_V4 = [(v4 10 0 0 0, 8), (v4 172 16 0 0, 12), (v4 192 168 0 0, 16), (v4 127 0 0 0, 8),
     (v4 169 254 0 0, 16), (v4 0 0 0 0, 8), (v4 100 64 0 0, 10)]"

definition PRIVATE_NETS_V6 :: "(128 word \<times> nat) list" where
  "PRIVATE_NETS_V6 = [(1, 128), (push_bit 112 0xfc00, 7), (push_bit 112 0xfe80, 10)]"

definition is_private :: "ip \<Rightarrow> bool" where
  "is_private a = (case a of V4 w \<Rightarrow> list_ex (in_net w) PRIVATE_NETS_V4 | V6 w \<Rightarrow> list_ex (in_net w) PRIVATE_NETS_V6)"

section \<open>Textual addresses\<close>

definition parse_octet :: "pystr \<Rightarrow> int option" where
  "parse_octet s = (if s = [] \<or> \<not> list_all (\<lambda>c. 48 \<le> c \<and> c \<le> 57) s \<or> length s > 3
       \<or> (length s > 1 \<and> hd s = 48) \<or> digits_value s > 255 then None else Some (digits_value s))"

definition parse_v4 :: "pystr \<Rightarrow> (32 word) option" where
  "parse_v4 s = (case map parse_octet (split_all 46 s) of
     [Some a, Some b, Some c, Some d] \<Rightarrow> Some (v4 a b c d) | _ \<Rightarrow> None)"

definition hex_value :: "int \<Rightarrow> int option" where
  "hex_value c = (if 48 \<le> c \<and> c \<le> 57 then Some (c - 48) else if 97 \<le> c \<and> c \<le> 102 then Some (c - 87)
     else if 65 \<le> c \<and> c \<le> 70 then Some (c - 55) else None)"

definition parse_hextet :: "pystr \<Rightarrow> int option" where
  "parse_hextet s = (if s = [] \<or> length s > 4 \<or> \<not> list_all (\<lambda>c. hex_value c \<noteq> None) s then None
     else Some (foldl (\<lambda>acc c. acc * 16 + the (hex_value c)) 0 s))"

fun hextets_value :: "int \<Rightarrow> pystr list \<Rightarrow> int option" where
  "hextets_value acc [] = Some acc"
| "hextets_value acc (h # hs) = (case parse_hextet h of None \<Rightarrow> None
     | Some v \<Rightarrow> hextets_value (acc * 65536 + v) hs)"

definition hexdigit :: "int \<Rightarrow> int" where
  "hexdigit n = (if n < 10 then 48 + n else 87 + n)"

definition hextet_text :: "int \<Rightarrow> pystr" where
  "hextet_text n = map hexdigit [n div 4096 mod 16, n div 256 mod 16, n div 16 mod 16, n mod 16]"

definition expand_v4_tail :: "pystr list \<Rightarrow> pystr list option" where
  \<comment> \<open>a dotted last part stands for two hextets\<close>
  "expand_v4_tail parts = (if 46 \<in> set (last parts) then
       (case parse_v4 (last parts) of None \<Rightarrow> None
        | Some w \<Rightarrow> Some (butlast parts @ [hextet_text (uint w div 65536), hextet_text (uint w mod 65536)]))
     else Some parts)"

definition skip_positions :: "pystr list \<Rightarrow> nat list" where
  "skip_positions parts = filter (\<lambda>i. parts ! i = []) [1 ..< length parts - 1]"

definition v6_of_parts :: "pystr list \<Rightarrow> (128 word) option" where
  "v6_of_parts parts =
     (if length parts > 9 then None
      else (case skip_positions parts of
        [] \<Rightarrow> if length parts \<noteq> 8 then None else map_option word_of_int (hextets_value 0 parts)
      | [k] \<Rightarrow>
          (let n = length parts;
               hi = (if hd parts = [] then k - 1 else k);
               lo = (if last parts = [] then n - k - 2 else n - k - 1)
           in if hd parts = [] \<and> hi \<noteq> 0 \<or> last parts = [] \<and> lo \<noteq> 0 \<or> hi + lo > 7 then None
              else (case hextets_value 0 (take hi parts) of None \<Rightarrow> None
                | Some h \<Rightarrow> map_option word_of_int
                    (hextets_value (h * 65536 ^ (8 - (hi + lo))) (drop (n - lo) parts))))
      | _ \<Rightarrow> None))"

definition parse_v6 :: "pystr \<Rightarrow> (128 word) option" where
  "parse_v6 s =
     (case (case split_once 37 s of None \<Rightarrow> Some s
            | Some (a, scope) \<Rightarrow> if scope = [] \<or> 37 \<in> set scope then None else Some a) of
        None \<Rightarrow> None
      | Some a \<Rightarrow> if length (split_all 58 a) < 3 then None
          else Option.bind (expand_v4_tail (split_all 58 a)) v6_of_parts)"

definition ip_address :: "pystr \<Rightarrow> ip option" where
  \<comment> \<open>\<open>None\<close> is the \<open>ValueError\<close> of \<open>ipaddress.ip_address\<close>\<close>
  "ip_address s = (case parse_v4 s of Some w \<Rightarrow> Some (V4 w) | None \<Rightarrow> map_option V6 (parse_v6 s))"

section \<open>The guard\<close>

type_synonym resolver = "pystr \<Rightarrow> pyexc + pystr list"

definition resolved_entry :: "pystr \<Rightarrow> pyexc + ip option" where
  \<comment> \<open>the body of the loop of \<open>_resolve\<close>: \<open>Inr None\<close> is \<open>continue\<close>\<close>
  "resolved_entry s = (case ip_address s of
       Some a \<Rightarrow> Inr (Some a)
     | None \<Rightarrow> (case split_once 37 s of
           None \<Rightarrow> Inr None
         | Some (b, _) \<Rightarrow> (case ip_address b of
               Some a \<Rightarrow> Inr (Some a)
             | None \<Rightarrow> Inl (mk_exc EValueError b))))"

definition ssrf_error :: pyexc where
  "ssrf_error = raise_domain InvalidHostError ''Host resolves to a private/internal address''"

fun scan_addresses :: "pystr list \<Rightarrow> pystr list \<Rightarrow> pyexc + unit" where
  \<comment> \<open>the generator \<open>_resolve\<close> consumed by the loop of \<open>assert_public_host\<close>\<close>
  "scan_addresses seen [] = Inr ()"
| "scan_addresses seen (s # rest) =
     (if s \<in> set seen then scan_addresses seen rest
      else (case resolved_entry s of
          Inl e \<Rightarrow> Inl e
        | Inr None \<Rightarrow> scan_addresses (s # seen) rest
        | Inr (Some a) \<Rightarrow> if is_private a then Inl ssrf_error else scan_addresses (s # seen) rest))"

definition assert_public_host :: "settings \<Rightarrow> resolver \<Rightarrow> pystr \<Rightarrow> int \<Rightarrow> pyexc + unit" where
  "assert_public_host s getaddrinfo host port =
     (if host = [] then Inl (raise_domain InvalidHostError ''host must be a non-empty string'')
      else if \<not> (1 \<le> port \<and> port \<le> 65535) then Inl (raise_domain InvalidHostError ''port must be in 1..65535'')
      else if \<not> is_prod s then Inr ()
      else (case getaddrinfo host of
          Inl e \<Rightarrow> if isinstance e EGaiError
            then Inl ((raise_domain InvalidHostError ''Could not resolve host'')
                   \<lparr>edetails := [(''host'', host), (''reason'', emsg e)]\<rparr>)
            else Inl e
        | Inr infos \<Rightarrow> scan_addresses [] infos))"

section \<open>Netmasks are address ranges\<close>

lemma uint_and_netmask:
  fixes w :: "'a::len word"
  assumes "p \<le> LENGTH('a)"
  shows "uint (w AND netmask p) = uint w div 2 ^ (LENGTH('a) - p) * 2 ^ (LENGTH('a) - p)"
proof -
  let ?k = "LENGTH('a) - p"
  have "bit (uint (w AND netmask p)) n = bit (push_bit ?k (drop_bit ?k (uint w))) n" for n
    using assms by (auto simp: netmask_def bit_simps dest: bit_imp_le_length)
  then have "uint (w AND netmask p) = push_bit ?k (drop_bit ?k (uint w))"
    by (rule bit_eqI)
  then show ?thesis by (simp add: push_bit_eq_mult drop_bit_eq_div)
qed

text \<open>Membership in a network whose base is aligned compares the leading bits.\<close>

lemma in_net_leading_bits:
  fixes w b :: "'a::len word"
  assumes "p \<le> LENGTH('a)" and "uint b mod 2 ^ (LENGTH('a) - p) = 0"
  shows "in_net w (b, p) \<longleftrightarrow> uint w div 2 ^ (LENGTH('a) - p) = uint b div 2 ^ (LENGTH('a) - p)"
proof -
  let ?K = "2 ^ (LENGTH('a) - p) :: int"
  have "uint b = uint b div ?K * ?K"
    using assms(2) div_mult_mod_eq [of "uint b" ?K] by simp
  moreover have "in_net w (b, p) \<longleftrightarrow> uint w div ?K * ?K = uint b"
    by (simp add: in_net_def word_uint_eq_iff uint_and_netmask [OF assms(1)])
  ultimately show ?thesis
    by (metis mult_cancel_right power_not_zero zero_neq_numeral)
qed

definition internal_v4 :: "int \<Rightarrow> bool" where
  "internal_v4 n \<longleftrightarrow> n div 2 ^ 24 \<in> {0, 10, 127} \<or> n div 2 ^ 16 \<in> {192 * 256 + 168, 169 * 256 + 254}
     \<or> n div 2 ^ 20 = 172 * 16 + 1 \<or> n div 2 ^ 22 = 100 * 4 + 1"

definition internal_v6 :: "int \<Rightarrow> bool" where
  "internal_v6 n \<longleftrightarrow> n = 1 \<or> n div 2 ^ 121 = 0xfc div 2 \<or> n div 2 ^ 118 = 0xfe80 div 64"

lemma is_private_V4: "is_private (V4 w) \<longleftrightarrow> internal_v4 (uint w)"
  by (simp add: is_private_def PRIVATE_NETS_V4_def in_net_leading_bits v4_def internal_v4_def) blast

lemma is_private_V6: "is_private (V6 w) \<longleftrightarrow> internal_v6 (uint w)"
proof -
  have "uint w = 1 \<longleftrightarrow> w = 1" by (metis uint_1 word_uint_eqI)
  moreover have "in_net w (1, 128) \<longleftrightarrow> w = 1"
    by (simp add: in_net_leading_bits word_uint_eq_iff)
  moreover have "uint (push_bit 112 0xfc00 :: 128 word) = 0xfc00 * 2 ^ 112"
    and "uint (push_bit 112 0xfe80 :: 128 word) = 0xfe80 * 2 ^ 112"
    by simp_all
  ultimately show ?thesis
    by (simp add: is_private_def PRIVATE_NETS_V6_def in_net_leading_bits internal_v6_def)
qed

section \<open>What a passed check says\<close>

lemma scan_addresses_Inr:
  assumes "scan_addresses seen infos = Inr ()" and "t \<in> set infos" and "t \<notin> set seen" and "ip_address t = Some a"
  shows "\<not> is_private a"
  using assms(1,2,3)
proof (induction infos arbitrary: seen)
  case (Cons s rest)
  show ?case
  proof (cases "t = s")
    case True
    then show ?thesis using Cons.prems assms(4)
      by (auto simp: resolved_entry_def split: if_splits)
  next
    case False
    then have t: "t \<in> set rest" using Cons.prems by simp
    show ?thesis
      using Cons.prems False Cons.IH [OF _ t, of seen] Cons.IH [OF _ t, of "s # seen"]
      by (auto split: if_splits sum.splits option.splits)
  qed
qed simp

lemma scan_addresses_ok:
  assumes "\<And>t. t \<in> set infos \<Longrightarrow> \<exists>a. ip_address t = Some a \<and> \<not> is_private a"
  shows "scan_addresses seen infos = Inr ()"
  using assms
proof (induction infos arbitrary: seen)
  case (Cons s rest)
  then obtain a where "ip_address s = Some a" "\<not> is_private a" by (meson list.set_intros(1))
  then show ?case using Cons by (simp add: resolved_entry_def)
qed simp

text \<open>
  C18. In production a host is accepted only if the resolver answered and no resolved address lies in
  one of the ten internal networks, stated on the leading bits of the address value (10/8, 172.16/12,
  192.168/16, 127/8, 169.254/16, 0/8, 100.64/10, \<open>::1\<close>, \<open>fc00::/7\<close>, \<open>fe80::/10\<close>); and a host all of
  whose addresses are outside them is accepted.
\<close>

theorem ssrf_guard_exact:
  assumes "is_prod s"
  shows "(assert_public_host s ga host port = Inr () \<longrightarrow>
            host \<noteq> [] \<and> 1 \<le> port \<and> port \<le> 65535 \<and>
            (\<exists>infos. ga host = Inr infos \<and> (\<forall>t \<in> set infos.
               (\<forall>w. ip_address t = Some (V4 w) \<longrightarrow> \<not> internal_v4 (uint w)) \<and>
               (\<forall>w. ip_address t = Some (V6 w) \<longrightarrow> \<not> internal_v6 (uint w))))) \<and>
         (host \<noteq> [] \<and> 1 \<le> port \<and> port \<le> 65535 \<and>
            (\<exists>infos. ga host = Inr infos \<and> (\<forall>t \<in> set infos.
               (\<exists>w. ip_address t = Some (V4 w) \<and> \<not> internal_v4 (uint w)) \<or>
               (\<exists>w. ip_address t = Some (V6 w) \<and> \<not> internal_v6 (uint w)))) \<longrightarrow>
          assert_public_host s ga host port = Inr ())"
proof (intro conjI impI)
  assume ok: "assert_public_host s ga host port = Inr ()"
  then show "host \<noteq> []" "1 \<le> port" "port \<le> 65535" by (auto simp: assert_public_host_def split: if_splits)
  with ok assms obtain infos where "ga host = Inr infos" "scan_addresses [] infos = Inr ()"
    by (auto simp: assert_public_host_def split: if_splits sum.splits)
  then show "\<exists>infos. ga host = Inr infos \<and> (\<forall>t \<in> set infos.
               (\<forall>w. ip_address t = Some (V4 w) \<longrightarrow> \<not> internal_v4 (uint w)) \<and>
               (\<forall>w. ip_address t = Some (V6 w) \<longrightarrow> \<not> internal_v6 (uint w)))"
    using scan_addresses_Inr [of "[]" infos] is_private_V4 is_private_V6 by (metis list.set(1) empty_iff)
next
  assume h: "host \<noteq> [] \<and> 1 \<le> port \<and> port \<le> 65535 \<and>
            (\<exists>infos. ga host = Inr infos \<and> (\<forall>t \<in> set infos.
               (\<exists>w. ip_address t = Some (V4 w) \<and> \<not> internal_v4 (uint w)) \<or>
               (\<exists>w. ip_address t = Some (V6 w) \<and> \<not> internal_v6 (uint w))))"
  then obtain infos where i: "ga host = Inr infos"
      and all: "\<And>t. t \<in> set infos \<Longrightarrow> (\<exists>w. ip_address t = Some (V4 w) \<and> \<not> internal_v4 (uint w)) \<or>
               (\<exists>w. ip_address t = Some (V6 w) \<and> \<not> internal_v6 (uint w))" by blast
  have "scan_addresses [] infos = Inr ()"
    by (rule scan_addresses_ok) (use all is_private_V4 is_private_V6 in blast)
  then show "assert_public_host s ga host port = Inr ()"
    using h i assms by (simp add: assert_public_host_def)
qed

theorem ssrf_guard_exact_witness:
  "assert_public_host default_settings (\<lambda>_. Inr [u ''93.184.216.34'']) (u ''example.com'') 993 = Inr () \<and>
   \<not> internal_v4 (uint (v4 93 184 216 34))"
proof -
  have prod: "is_prod default_settings" by (simp add: is_prod_def default_settings_def)
  have pub: "\<not> internal_v4 (uint (v4 93 184 216 34))" by code_simp
  have a: "ip_address (u ''93.184.216.34'') = Some (V4 (v4 93 184 216 34))" by code_simp
  have ne: "u ''example.com'' \<noteq> []" by simp
  from ssrf_guard_exact [OF prod, of "\<lambda>_. Inr [u ''93.184.216.34'']" "u ''example.com''" 993, THEN conjunct2]
  show ?thesis using pub a ne by auto
qed

section \<open>The addresses the list misses\<close>

definition mapped_v6 :: "32 word \<Rightarrow> 128 word" where
  \<comment> \<open>\<open>::ffff:a.b.c.d\<close>\<close>
  "mapped_v6 w = word_of_int (0xffff * 2 ^ 32 + uint w)"

lemma uint_mapped_v6: "uint (mapped_v6 w) = 0xffff * 2 ^ 32 + uint w"
proof -
  have b: "0 \<le> uint w" "uint w < 4294967296" using unsigned_less [of w, where ?'a = int] by simp_all
  have "uint (mapped_v6 w) = (0xffff * 2 ^ 32 + uint w) mod 2 ^ 128"
    unfolding mapped_v6_def uint_word_of_int by simp
  also have "\<dots> = 0xffff * 2 ^ 32 + uint w" by (rule mod_pos_pos_trivial) (use b in simp_all)
  finally show ?thesis .
qed

lemma mapped_not_internal: "\<not> internal_v6 (uint (mapped_v6 w))"
proof -
  have b: "0 \<le> uint w" "uint w < 4294967296" using unsigned_less [of w, where ?'a = int] by simp_all
  have "uint (mapped_v6 w) div 2 ^ 121 = 0" "uint (mapped_v6 w) div 2 ^ 118 = 0"
    using b by (simp_all add: uint_mapped_v6)
  moreover have "uint (mapped_v6 w) = 281470681743360 + uint w" by (simp add: uint_mapped_v6)
  with b have "uint (mapped_v6 w) \<noteq> 1" by linarith
  ultimately show ?thesis by (simp add: internal_v6_def)
qed

text \<open>
  The list of internal networks has no entry for IPv4-mapped IPv6 addresses: whatever IPv4
  address \<open>w\<close> is, a loopback or private one included, a host that resolves to \<open>::ffff:w\<close> is accepted in
  production, while the same host resolving to \<open>w\<close> itself is refused when \<open>w\<close> is internal.
\<close>

theorem mapped_v4_bypasses_guard:
  assumes "ip_address t = Some (V6 (mapped_v6 w))" and "ip_address t4 = Some (V4 w)" and "internal_v4 (uint w)"
    and "is_prod s" and "host \<noteq> []" and "1 \<le> port" and "port \<le> 65535"
  shows "assert_public_host s (\<lambda>_. Inr [t]) host port = Inr () \<and>
         assert_public_host s (\<lambda>_. Inr [t4]) host port = Inl ssrf_error"
  using assms
  by (simp add: assert_public_host_def resolved_entry_def is_private_V4 is_private_V6 mapped_not_internal)

theorem mapped_v4_bypasses_guard_witness:
  "assert_public_host default_settings (\<lambda>_. Inr [u ''::ffff:127.0.0.1'']) (u ''evil.example'') 993 = Inr () \<and>
   assert_public_host default_settings (\<lambda>_. Inr [u ''127.0.0.1'']) (u ''evil.example'') 993 = Inl ssrf_error"
proof -
  have a: "ip_address (u ''::ffff:127.0.0.1'') = Some (V6 (mapped_v6 (v4 127 0 0 1)))" by code_simp
  have b: "ip_address (u ''127.0.0.1'') = Some (V4 (v4 127 0 0 1))" by code_simp
  have c: "internal_v4 (uint (v4 127 0 0 1))" by code_simp
  show ?thesis
    using mapped_v4_bypasses_guard [OF a b c, of default_settings "u ''evil.example''" 993]
    by (simp add: is_prod_def default_settings_def)
qed

end
