(* ===== verification/World.thy ===== *)
theory World
  imports Utf8 "HOL-Library.Option_ord"
begin

text \<open>
  The persistent state. The tables of \<open>shared/models/\<close> are lists of rows in a record \<open>db\<close>, together with
  the \<open>BIGSERIAL\<close> sequences, which PostgreSQL does not roll back. Database constraints
  (primary key, foreign key, unique, CHECK) are the predicates a write is tested against; a violation is
  an \<open>IntegrityError\<close>, text PostgreSQL cannot store (the NUL character) a \<open>DBAPIError\<close>. Instants are microseconds.
\<close>

section \<open>Rows\<close>

record user =
  usr_id :: int
  usr_username :: pystr
  usr_email :: "pystr option"
  usr_display_name :: "pystr option"
  usr_password_hash :: "pystr option"
  usr_password_encrypted :: "bytes option"
  usr_role :: string
  usr_password_reset_required :: bool

record account =
  acc_id :: int
  acc_user_id :: int
  email :: pystr
  display_name :: "pystr option"
  encrypted_password :: "bytes option"
  auth_type :: string
  oauth_provider :: "string option"
  oauth_refresh_token_encrypted :: "bytes option"
  oauth_access_token_encrypted :: "bytes option"
  oauth_access_token_expires_at :: "int option"
  oauth_needs_consent :: bool
  oauth_scopes :: "pystr option"
  imap_host :: pystr
  imap_port :: int
  imap_ssl :: bool
  smtp_host :: pystr
  smtp_port :: int
  smtp_ssl :: bool
  smtp_starttls :: bool
  smtp_username :: "pystr option"
  smtp_encrypted_password :: "bytes option"
  is_active :: bool
  last_synced_uidnext :: "int option"
  last_uidvalidity :: "int option"
  last_synced_at :: "int option"
  last_sync_error :: "pystr option"
  consecutive_failures :: int
  disabled_alert_sent_at :: "int option"
  created_at :: int
  updated_at :: int

record message =
  msg_id :: int
  msg_account_id :: int
  msg_uid :: int
  msg_uidvalidity :: int
  message_id_header :: "pystr option"
  from_addr :: pystr
  from_name :: "pystr option"
  to_addrs :: pystr
  cc_addrs :: "pystr option"
  msg_subject :: "pystr option"
  internal_date :: int
  body_text :: pystr
  body_html :: "pystr option"
  body_truncated :: bool
  body_present :: bool
  msg_is_read :: bool
  in_reply_to :: "pystr option"
  refs_header :: "pystr option"
  fetched_at :: int
  pushed_at :: "int option"

record db =
  users :: "user list"
  accounts :: "account list"
  msgs :: "message list"
  acc_seq :: int
  msg_seq :: int
  usr_seq :: int

definition empty_db :: db where
  "empty_db = \<lparr>users = [], accounts = [], msgs = [], acc_seq = 1, msg_seq = 1, usr_seq = 1\<rparr>"

definition blank_account :: account where
  \<comment> \<open>the server defaults of \<open>mail_accounts\<close>\<close>
  "blank_account = \<lparr>acc_id = 0, acc_user_id = 0, email = [], display_name = None, encrypted_password = None,
     auth_type = ''password'', oauth_provider = None, oauth_refresh_token_encrypted = None,
     oauth_access_token_encrypted = None, oauth_access_token_expires_at = None, oauth_needs_consent = False,
     oauth_scopes = None, imap_host = [], imap_port = 993, imap_ssl = True, smtp_host = [], smtp_port = 465,
     smtp_ssl = True, smtp_starttls = False, smtp_username = None, smtp_encrypted_password = None,
     is_active = True, last_synced_uidnext = None, last_uidvalidity = None, last_synced_at = None,
     last_sync_error = None, consecutive_failures = 0, disabled_alert_sent_at = None, created_at = 0, updated_at = 0\<rparr>"

section \<open>Constraints\<close>

definition opt_len_ok :: "pystr option \<Rightarrow> bool" where
  "opt_len_ok v = (case v of None \<Rightarrow> True | Some t \<Rightarrow> 1 \<le> length t \<and> length t \<le> 100)"

definition account_checks :: "account \<Rightarrow> bool" where
  "account_checks a \<longleftrightarrow>
     1 \<le> imap_port a \<and> imap_port a \<le> 65535 \<and> 1 \<le> smtp_port a \<and> smtp_port a \<le> 65535 \<and>
     \<not> (smtp_ssl a \<and> smtp_starttls a) \<and> opt_len_ok (display_name a) \<and>
     (auth_type a = ''password'' \<or> auth_type a = ''oauth_outlook'') \<and>
     (auth_type a \<noteq> ''password'' \<or> encrypted_password a \<noteq> None) \<and>
     (auth_type a \<noteq> ''oauth_outlook'' \<or>
        oauth_refresh_token_encrypted a \<noteq> None \<and> oauth_provider a \<in> {None, Some ''outlook''})"
  \<comment> \<open>\<open>NULL = 'outlook'\<close> is NULL, which a CHECK lets pass\<close>

definition user_checks :: "user \<Rightarrow> bool" where
  "user_checks x \<longleftrightarrow> usr_username x = py_lower (usr_username x) \<and>
     (usr_role x = ''super_admin'' \<or> usr_role x = ''group_leader'' \<or> usr_role x = ''group_member'') \<and>
     opt_len_ok (usr_display_name x)"

definition accounts_ok :: "db \<Rightarrow> bool" where
  "accounts_ok d \<longleftrightarrow> distinct (map acc_id (accounts d)) \<and>
     distinct (map (\<lambda>a. (acc_user_id a, email a)) (accounts d)) \<and>
     (\<forall>a \<in> set (accounts d). account_checks a \<and> acc_user_id a \<in> usr_id ` set (users d))"

definition msg_key :: "message \<Rightarrow> int \<times> int \<times> int" where
  "msg_key m = (msg_account_id m, msg_uidvalidity m, msg_uid m)"

definition msgs_ok :: "db \<Rightarrow> bool" where
  "msgs_ok d \<longleftrightarrow> distinct (map msg_id (msgs d)) \<and> distinct (map msg_key (msgs d)) \<and>
     (\<forall>m \<in> set (msgs d). msg_id m < msg_seq d \<and> msg_account_id m \<in> acc_id ` set (accounts d))"

definition users_ok :: "db \<Rightarrow> bool" where
  "users_ok d \<longleftrightarrow> distinct (map usr_id (users d)) \<and> distinct (map usr_username (users d)) \<and>
     (\<forall>x \<in> set (users d). user_checks x \<and> usr_id x < usr_seq d)"

definition db_ok :: "db \<Rightarrow> bool" where
  "db_ok d \<longleftrightarrow> users_ok d \<and> accounts_ok d \<and> msgs_ok d"

definition integrity_error :: pyexc where
  "integrity_error = mk_exc EIntegrityError (u ''constraint violation'')"

definition db_error :: pyexc where
  "db_error = mk_exc (ESub (u ''DBAPIError'') EException) (u ''invalid byte sequence for encoding UTF8: 0x00'')"

definition multiple_rows :: pyexc where
  "multiple_rows = mk_exc EMultipleResultsFound (u ''Multiple rows were found when one or none was required'')"

definition scalar_one_or_none :: "'a list \<Rightarrow> pyexc + 'a option" where
  "scalar_one_or_none rows = (case rows of [] \<Rightarrow> Inr None | [r] \<Rightarrow> Inr (Some r) | _ \<Rightarrow> Inl multiple_rows)"

section \<open>Statements and transactions\<close>

definition write_accounts :: "(account list \<Rightarrow> account list) \<Rightarrow> (db, unit) prog" where
  \<comment> \<open>a statement on \<open>mail_accounts\<close>: all constraints are tested on its result\<close>
  "write_accounts f d = (let d' = d\<lparr>accounts := f (accounts d)\<rparr>
     in if accounts_ok d' then (Inr (), d') else (Inl integrity_error, d))"

definition update_where :: "('a \<Rightarrow> bool) \<Rightarrow> ('a \<Rightarrow> 'a) \<Rightarrow> 'a list \<Rightarrow> 'a list" where
  "update_where P f = map (\<lambda>r. if P r then f r else r)"

definition rollback :: "db \<Rightarrow> db \<Rightarrow> db" where
  "rollback d d' = d\<lparr>acc_seq := acc_seq d', msg_seq := msg_seq d', usr_seq := usr_seq d'\<rparr>"

definition transaction :: "(db, 'a) prog \<Rightarrow> (db, 'a) prog" where
  \<comment> \<open>\<open>make_session() as s, s.begin()\<close>: commit on normal exit, rollback on an exception\<close>
  "transaction m d = (case m d of (Inr x, d') \<Rightarrow> (Inr x, d') | (Inl e, d') \<Rightarrow> (Inl e, rollback d d'))"

lemma update_where_simps [simp]: "update_where P f [] = []"
  "update_where P f (x # xs) = (if P x then f x else x) # update_where P f xs"
  by (simp_all add: update_where_def)

lemma set_update_where: "set (update_where P f xs) = (\<lambda>r. if P r then f r else r) ` set xs"
  by (simp add: update_where_def)

lemma length_update_where [simp]: "length (update_where P f xs) = length xs"
  by (simp add: update_where_def)

lemma map_update_where: "(\<And>x. P x \<Longrightarrow> k (f x) = k x) \<Longrightarrow> map k (update_where P f xs) = map k xs"
  by (induction xs) auto

lemma update_where_none: "(\<And>x. x \<in> set xs \<Longrightarrow> \<not> P x) \<Longrightarrow> update_where P f xs = xs"
  by (induction xs) auto

text \<open>Rows are found by key; a keyed update changes that row only.\<close>

lemma find_update_same:
  assumes "\<And>x. k (f x) = k x" and "find (\<lambda>x. k x = i) xs = Some r"
  shows "find (\<lambda>x. k x = i) (update_where (\<lambda>x. k x = i) f xs) = Some (f r)"
  using assms(2) by (induction xs) (auto simp: assms(1) split: if_splits)

lemma find_update_other:
  assumes "\<And>x. k (f x) = k x" and "i \<noteq> j"
  shows "find (\<lambda>x. k x = j) (update_where (\<lambda>x. k x = i) f xs) = find (\<lambda>x. k x = j) xs"
  using assms(2) by (induction xs) (auto simp: assms(1))

lemma find_update_None:
  assumes "\<And>x. k (f x) = k x" and "find (\<lambda>x. k x = i) xs = None"
  shows "find (\<lambda>x. k x = i) (update_where (\<lambda>x. k x = i) f xs) = None"
  using assms(2) by (induction xs) (auto simp: assms(1) split: if_splits)

lemma find_key: "find (\<lambda>x. k x = i) xs = Some r \<Longrightarrow> r \<in> set xs \<and> k r = i"
  by (auto simp: find_Some_iff)

lemma find_key_None: "find (\<lambda>x. k x = i) xs = None \<longleftrightarrow> i \<notin> k ` set xs"
  by (auto simp: find_None_iff)

lemma find_distinct: "distinct (map k xs) \<Longrightarrow> r \<in> set xs \<Longrightarrow> find (\<lambda>x. k x = k r) xs = Some r"
  by (induction xs) (auto simp: image_iff)

lemma filter_key_none: "y \<notin> k ` set xs \<Longrightarrow> filter (\<lambda>x. k x = y) xs = []"
  by (induction xs) auto

lemma filter_key_one:
  "distinct (map k xs) \<Longrightarrow> y \<in> k ` set xs \<Longrightarrow> length (filter (\<lambda>x. k x = y) xs) = 1"
  by (induction xs) (auto simp: filter_key_none)

lemma write_accounts_InrD: "write_accounts f d = (Inr (), d') \<Longrightarrow> d' = d\<lparr>accounts := f (accounts d)\<rparr> \<and> accounts_ok d'"
  by (auto simp: write_accounts_def Let_def split: if_splits)

lemma write_accounts_InlD: "write_accounts f d = (Inl e, d') \<Longrightarrow> d' = d \<and> e = integrity_error"
  by (auto simp: write_accounts_def Let_def split: if_splits)

lemma rollback_tables [simp]: "accounts (rollback d d') = accounts d" "msgs (rollback d d') = msgs d"
  "users (rollback d d') = users d"
  by (simp_all add: rollback_def)

lemma transaction_cases:
  assumes "transaction m d = (r, d')"
  obtains (commit) x where "r = Inr x" "m d = (Inr x, d')"
    | (abort) e d1 where "r = Inl e" "m d = (Inl e, d1)" "d' = rollback d d1"
  using assms by (auto simp: transaction_def split: prod.splits sum.splits)

section \<open>Sequences only grow\<close>

definition seq_le :: "db \<Rightarrow> db \<Rightarrow> bool" where
  "seq_le d d' \<longleftrightarrow> acc_seq d \<le> acc_seq d' \<and> msg_seq d \<le> msg_seq d' \<and> usr_seq d \<le> usr_seq d'"

lemma rollback_ok: "db_ok d \<Longrightarrow> seq_le d d' \<Longrightarrow> db_ok (rollback d d')"
  by (fastforce simp: db_ok_def users_ok_def accounts_ok_def msgs_ok_def rollback_def seq_le_def)

end
