(* ===== verification/Account_Probe.thy ===== *)
theory Account_Probe
  imports Account_Schemas Ssrf World
begin

text \<open>
  The connection test: \<open>backend/app/accounts/testers.py\<close> and the probe methods of \<open>backend/app/accounts/service.py\<close>.
  What matters here is time and cancellation, so a coroutine is a \<^emph>\<open>task\<close>: from the clock (milliseconds) and the
  cancellation requests still to come it yields an outcome, the new clock and the requests left. \<open>await_op\<close> is one
  network operation with a duration (\<open>None\<close> for a peer that never answers) and a result, \<open>wait_for\<close> is
  \<open>asyncio.wait_for\<close>: it adds a request at its timeout and turns the cancellation it caused into a \<open>TimeoutError\<close>.
  The servers are the parameter \<open>net_env\<close>. Every task of this theory is \<^emph>\<open>prompt\<close>: it ends at most five seconds after a
  cancellation request.
\<close>

section \<open>Tasks\<close>

datatype 'a outcome = Done "pyexc + 'a" | Cancelled | Hangs

type_synonym 'a task = "nat \<times> nat list \<Rightarrow> 'a outcome \<times> nat \<times> nat list"

definition timeout_error :: pyexc where
  "timeout_error = mk_exc ETimeoutError []"

fun await_op :: "nat option \<Rightarrow> pyexc + 'a \<Rightarrow> 'a task" where
  "await_op d r (t, []) = (case d of None \<Rightarrow> (Hangs, t, []) | Some n \<Rightarrow> (Done r, t + n, []))"
| "await_op d r (t, c # cs) = (case d of
      None \<Rightarrow> (Cancelled, max t c, cs)
    | Some n \<Rightarrow> if t + n \<le> c then (Done r, t + n, c # cs) else (Cancelled, max t c, cs))"

definition and_then :: "'a task \<Rightarrow> ('a \<Rightarrow> 'b task) \<Rightarrow> 'b task" where
  "and_then m f s = (case m s of
      (Done (Inr x), s') \<Rightarrow> f x s' | (Done (Inl e), s') \<Rightarrow> (Done (Inl e), s') | (Cancelled, s') \<Rightarrow> (Cancelled, s') | (Hangs, s') \<Rightarrow> (Hangs, s'))"

definition map_done :: "(pyexc + 'a \<Rightarrow> pyexc + 'b) \<Rightarrow> 'a task \<Rightarrow> 'b task" where
  \<comment> \<open>handlers that only look at the result\<close>
  "map_done g m s = (case m s of (Done r, s') \<Rightarrow> (Done (g r), s') | (Cancelled, s') \<Rightarrow> (Cancelled, s') | (Hangs, s') \<Rightarrow> (Hangs, s'))"

definition finally_task :: "'a task \<Rightarrow> unit task \<Rightarrow> 'a task" where
  "finally_task m fin s = (case m s of (Hangs, s') \<Rightarrow> (Hangs, s')
     | (out, s') \<Rightarrow> (case fin s' of (Done (Inr _), s'') \<Rightarrow> (out, s'') | (Done (Inl e), s'') \<Rightarrow> (Done (Inl e), s'')
          | (Cancelled, s'') \<Rightarrow> (Cancelled, s'') | (Hangs, s'') \<Rightarrow> (Hangs, s'')))"

definition wait_for :: "nat \<Rightarrow> 'a task \<Rightarrow> 'a task" where
  "wait_for ms m = (\<lambda>(t, cs). let full = insort (t + ms) cs in (case m (t, full) of
       (Done r, t', _) \<Rightarrow> (Done r, t', cs)
     | (Hangs, t', cs') \<Rightarrow> (Hangs, t', cs')
     | (Cancelled, t', cs') \<Rightarrow> (let k = length full - length cs' in
          if t + ms \<in> set (take k full)
          then (if k = 1 then (Done (Inl timeout_error), t', cs) else (Cancelled, t', drop (k - 1) cs))
          else (Cancelled, t', drop k cs))))"

section \<open>The servers\<close>

record net_env =
  ne_resolver :: resolver
  ne_resolve_ms :: "pystr \<Rightarrow> nat option"
  ne_imap :: "pystr \<Rightarrow> int \<Rightarrow> bool \<Rightarrow> pystr \<Rightarrow> pystr \<Rightarrow> nat option \<times> (pyexc + unit)"
    \<comment> \<open>host, port, TLS, user, password: connect, LOGIN, SELECT INBOX and LOGOUT\<close>
  ne_imap_oauth :: "pystr \<Rightarrow> int \<Rightarrow> pystr \<Rightarrow> pystr \<Rightarrow> nat option \<times> (pyexc + unit)"
  ne_smtp :: "pystr \<Rightarrow> int \<Rightarrow> bool \<Rightarrow> bool \<Rightarrow> pystr \<Rightarrow> pystr \<Rightarrow> nat option \<times> (pyexc + unit)"
    \<comment> \<open>host, port, TLS, STARTTLS, user, password: connect, STARTTLS and LOGIN\<close>
  ne_smtp_oauth :: "pystr \<Rightarrow> int \<Rightarrow> bool \<Rightarrow> pystr \<Rightarrow> pystr \<Rightarrow> nat option \<times> (pyexc + int)"
    \<comment> \<open>the reply code of AUTH XOAUTH2\<close>
  ne_quit_ms :: "pystr \<Rightarrow> nat option"

definition assert_public_host_async :: "settings \<Rightarrow> net_env \<Rightarrow> pystr \<Rightarrow> int \<Rightarrow> unit task" where
  "assert_public_host_async s env host port = await_op (ne_resolve_ms env host) (assert_public_host s (ne_resolver env) host port)"

section \<open>IMAP\<close>

definition IMAP_TIMEOUT :: nat where
  "IMAP_TIMEOUT = 20"

definition SMTP_TIMEOUT :: nat where
  "SMTP_TIMEOUT = 20"

definition SMTP_QUIT_TIMEOUT :: nat where
  "SMTP_QUIT_TIMEOUT = 5"

definition build_xoauth2_string :: "pystr \<Rightarrow> pystr \<Rightarrow> pyexc + pystr" where
  "build_xoauth2_string e token = (case utf8_encode (u ''user='' @ e @ [1] @ u ''auth=Bearer '' @ token @ [1, 1]) of
       Inl x \<Rightarrow> Inl x | Inr b \<Rightarrow> Inr (b64encode b))"

definition safe_error_text :: "pyexc \<Rightarrow> pystr" where
  "safe_error_text e = take 200 (one_line (emsg e))"

definition domain_with :: "err_class \<Rightarrow> string \<Rightarrow> (string \<times> pystr) list \<Rightarrow> pyexc" where
  "domain_with c msg ds = (raise_domain c msg)\<lparr>edetails := ds\<rparr>"

definition translate_imap :: "string \<Rightarrow> pyexc + unit \<Rightarrow> pyexc + unit" where
  \<comment> \<open>the except clauses of \<open>_imap_login_blocking\<close> and \<open>_imap_oauth_login_blocking\<close>\<close>
  "translate_imap login_msg r = (case r of Inr x \<Rightarrow> Inr x | Inl e \<Rightarrow>
     if isinstance e EMailboxLoginError then Inl (domain_with IMAPLoginFailedError login_msg [(''detail'', safe_error_text e)])
     else if isinstance e EMailboxFolderSelectError
       then Inl (domain_with IMAPLoginFailedError ''Cannot select INBOX'' [(''detail'', u ''cannot_select_inbox'')])
     else if isinstance e ETimeoutError \<or> isinstance e EOSError
       then Inl (domain_with IMAPLoginFailedError ''Could not connect to IMAP server'' [(''detail'', safe_error_text e)])
     else Inl e)"

definition guarded :: "nat \<Rightarrow> pyexc \<Rightarrow> 'a task \<Rightarrow> 'a task" where
  \<comment> \<open>\<open>try: wait_for(..., timeout + 5) except TimeoutError: raise ...\<close>\<close>
  "guarded seconds err m = map_done (\<lambda>r. case r of Inl e \<Rightarrow> if isinstance e ETimeoutError then Inl err else Inl e | Inr x \<Rightarrow> Inr x)
     (wait_for (1000 * (seconds + 5)) m)"

definition imap_timed_out :: "string \<Rightarrow> pyexc" where
  "imap_timed_out msg = domain_with IMAPLoginFailedError msg [(''detail'', u ''timeout'')]"

definition smtp_timed_out :: "string \<Rightarrow> pyexc" where
  "smtp_timed_out msg = domain_with SMTPLoginFailedError msg [(''detail'', u ''timeout'')]"

definition imap_test_login :: "settings \<Rightarrow> net_env \<Rightarrow> pystr \<Rightarrow> int \<Rightarrow> bool \<Rightarrow> pystr \<Rightarrow> pystr \<Rightarrow> unit task" where
  "imap_test_login s env host port ssl user pass =
     and_then (assert_public_host_async s env host port) (\<lambda>_.
       (case ne_imap env host port ssl user pass of (d, r) \<Rightarrow>
         guarded IMAP_TIMEOUT (imap_timed_out ''IMAP login timed out'') (await_op d (translate_imap ''IMAP login failed'' r))))"

definition imap_test_oauth :: "settings \<Rightarrow> net_env \<Rightarrow> pystr \<Rightarrow> int \<Rightarrow> pystr \<Rightarrow> pystr \<Rightarrow> unit task" where
  "imap_test_oauth s env host port e token =
     and_then (assert_public_host_async s env host port) (\<lambda>_.
       (case ne_imap_oauth env host port e token of (d, r) \<Rightarrow>
         guarded IMAP_TIMEOUT (imap_timed_out ''IMAP XOAUTH2 login timed out'') (await_op d (translate_imap ''IMAP XOAUTH2 login failed'' r))))"

section \<open>SMTP\<close>

definition close_smtp_client :: "net_env \<Rightarrow> pystr \<Rightarrow> unit task" where
  \<comment> \<open>QUIT for at most \<open>SMTP_QUIT_TIMEOUT\<close> seconds; every \<open>Exception\<close> is suppressed\<close>
  "close_smtp_client env host = map_done (\<lambda>_. Inr ()) (wait_for (1000 * SMTP_QUIT_TIMEOUT) (await_op (ne_quit_ms env host) (Inr ())))"

definition translate_smtp :: "string \<Rightarrow> pyexc + 'a \<Rightarrow> pyexc + 'a" where
  "translate_smtp auth_msg r = (case r of Inr x \<Rightarrow> Inr x | Inl e \<Rightarrow>
     if isinstance e ESMTPAuthenticationError then Inl (domain_with SMTPLoginFailedError auth_msg [(''detail'', safe_error_text e)])
     else if isinstance e ESMTPException \<or> isinstance e ETimeoutError \<or> isinstance e EOSError
       then Inl (domain_with SMTPLoginFailedError ''Could not connect to SMTP server'' [(''detail'', safe_error_text e)])
     else Inl e)"

definition smtp_login_probe :: "net_env \<Rightarrow> pystr \<Rightarrow> int \<Rightarrow> bool \<Rightarrow> bool \<Rightarrow> pystr \<Rightarrow> pystr \<Rightarrow> unit task" where
  "smtp_login_probe env host port ssl starttls user pass = (case ne_smtp env host port ssl starttls user pass of (d, r) \<Rightarrow>
     finally_task (await_op d (translate_smtp ''SMTP authentication failed'' r)) (close_smtp_client env host))"

definition smtp_test_login :: "settings \<Rightarrow> net_env \<Rightarrow> pystr \<Rightarrow> int \<Rightarrow> bool \<Rightarrow> bool \<Rightarrow> pystr \<Rightarrow> pystr \<Rightarrow> unit task" where
  "smtp_test_login s env host port ssl starttls user pass =
     and_then (assert_public_host_async s env host port) (\<lambda>_.
       if ssl \<and> starttls
       then await_op (Some 0) (Inl (domain_with SMTPLoginFailedError ''smtp_ssl and smtp_starttls are mutually exclusive''
              [(''detail'', u ''ssl_and_starttls_set'')]))
       else guarded SMTP_TIMEOUT (smtp_timed_out ''SMTP login timed out'') (smtp_login_probe env host port ssl starttls user pass))"

definition check_xoauth2_code :: "pyexc + int \<Rightarrow> pyexc + unit" where
  "check_xoauth2_code r = (case r of Inl e \<Rightarrow> Inl e | Inr code \<Rightarrow> if code \<noteq> 235
     then Inl (domain_with SMTPLoginFailedError ''SMTP XOAUTH2 authentication failed'' [(''detail'', u ''smtp_code_'' @ str_of_int code)])
     else Inr ())"

definition smtp_oauth_probe :: "net_env \<Rightarrow> pystr \<Rightarrow> int \<Rightarrow> bool \<Rightarrow> pystr \<Rightarrow> pystr \<Rightarrow> unit task" where
  "smtp_oauth_probe env host port starttls e token = (case build_xoauth2_string e token of
       Inl x \<Rightarrow> await_op (Some 0) (Inl x)
     | Inr auth \<Rightarrow> (case ne_smtp_oauth env host port starttls e auth of (d, r) \<Rightarrow>
         finally_task (await_op d (check_xoauth2_code (translate_smtp ''SMTP XOAUTH2 authentication failed'' r))) (close_smtp_client env host)))"

definition smtp_test_oauth :: "settings \<Rightarrow> net_env \<Rightarrow> pystr \<Rightarrow> int \<Rightarrow> bool \<Rightarrow> pystr \<Rightarrow> pystr \<Rightarrow> unit task" where
  "smtp_test_oauth s env host port starttls e token =
     and_then (assert_public_host_async s env host port) (\<lambda>_.
       guarded SMTP_TIMEOUT (smtp_timed_out ''SMTP XOAUTH2 login timed out'') (smtp_oauth_probe env host port starttls e token))"

section \<open>The probe under its deadline\<close>

datatype probe_stage = StageImap | StageSmtp | StageOauthToken

primrec stage_name :: "probe_stage \<Rightarrow> pystr" where
  "stage_name StageImap = u ''imap''"
| "stage_name StageSmtp = u ''smtp''"
| "stage_name StageOauthToken = u ''oauth_token''"

definition deadline_error :: "probe_stage \<Rightarrow> pyexc" where
  "deadline_error st = (if st = StageSmtp
     then domain_with SMTPLoginFailedError ''SMTP connection test timed out'' [(''detail'', u ''timeout''), (''stage'', stage_name st)]
     else domain_with IMAPLoginFailedError ''IMAP connection test timed out'' [(''detail'', u ''timeout''), (''stage'', stage_name st)])"

record test_result =
  imap_ok :: bool
  smtp_ok :: bool

definition both_ok :: test_result where
  "both_ok = \<lparr>imap_ok = True, smtp_ok = True\<rparr>"

definition done_inr :: "'a outcome \<times> nat \<times> nat list \<Rightarrow> bool" where
  "done_inr r = (case r of (Done (Inr _), _) \<Rightarrow> True | _ \<Rightarrow> False)"

definition under_deadline :: "settings \<Rightarrow> (nat \<times> nat list \<Rightarrow> probe_stage) \<Rightarrow> 'a task \<Rightarrow> 'a task" where
  \<comment> \<open>the hard deadline; the stage is the one the body has reached when it is cancelled\<close>
  "under_deadline s stage m = (\<lambda>(t, cs). let dl = 1000 * nat (MAILBOX_TEST_DEADLINE_SECONDS s) in
     map_done (\<lambda>r. case r of Inl e \<Rightarrow> if isinstance e ETimeoutError then Inl (deadline_error (stage (t, insort (t + dl) cs))) else Inl e
       | Inr x \<Rightarrow> Inr x) (wait_for dl m) (t, cs))"

definition imap_leg :: "settings \<Rightarrow> net_env \<Rightarrow> test_request \<Rightarrow> unit task" where
  "imap_leg s env q = imap_test_login s env (the (tr_imap_host q)) (tr_imap_port q) (tr_imap_ssl q) (the (tr_email q)) (the (tr_password q))"

definition smtp_leg :: "settings \<Rightarrow> net_env \<Rightarrow> test_request \<Rightarrow> unit task" where
  "smtp_leg s env q = smtp_test_login s env (the (tr_smtp_host q)) (tr_smtp_port q) (tr_smtp_ssl q) (tr_smtp_starttls q)
     (or_else (normalize_optional_login (tr_smtp_username q)) (the (tr_email q)))
     (or_else (normalize_optional_secret (tr_smtp_password q)) (the (tr_password q)))"

definition test_credentials_inner :: "settings \<Rightarrow> net_env \<Rightarrow> test_request \<Rightarrow> test_result task" where
  "test_credentials_inner s env q = and_then (imap_leg s env q) (\<lambda>_. map_done (\<lambda>r. case r of Inl e \<Rightarrow> Inl e | Inr _ \<Rightarrow> Inr both_ok) (smtp_leg s env q))"

definition test_credentials :: "settings \<Rightarrow> net_env \<Rightarrow> test_request \<Rightarrow> test_result task" where
  "test_credentials s env q = under_deadline s (\<lambda>st. if done_inr (imap_leg s env q st) then StageSmtp else StageImap) (test_credentials_inner s env q)"

definition test_oauth_account_inner :: "pystr task \<Rightarrow> settings \<Rightarrow> net_env \<Rightarrow> account \<Rightarrow> test_result task" where
  \<comment> \<open>the first argument is the token service, of which only time and result matter here\<close>
  "test_oauth_account_inner token s env a =
     and_then (map_done (\<lambda>r. case r of Inr t \<Rightarrow> Inr t | Inl e \<Rightarrow> if isinstance e EOAuthRefreshInvalidError
         then Inl (raise_domain OAuthReconsentRequiredError ''Reconnect Outlook to test this account'') else Inl e) token) (\<lambda>t.
       and_then (imap_test_oauth s env (imap_host a) (imap_port a) (email a) t) (\<lambda>_.
         map_done (\<lambda>r. case r of Inl e \<Rightarrow> Inl e | Inr _ \<Rightarrow> Inr both_ok)
           (smtp_test_oauth s env (smtp_host a) (smtp_port a) (smtp_starttls a) (email a) t)))"

definition oauth_stage :: "pystr task \<Rightarrow> settings \<Rightarrow> net_env \<Rightarrow> account \<Rightarrow> nat \<times> nat list \<Rightarrow> probe_stage" where
  "oauth_stage token s env a st = (case token st of
       (Done (Inr t), st') \<Rightarrow> if done_inr (imap_test_oauth s env (imap_host a) (imap_port a) (email a) t st') then StageSmtp else StageImap
     | _ \<Rightarrow> StageOauthToken)"

definition test_oauth_account :: "pystr task \<Rightarrow> settings \<Rightarrow> net_env \<Rightarrow> account \<Rightarrow> test_result task" where
  "test_oauth_account token s env a =
     (if oauth_needs_consent a then await_op (Some 0) (Inl (raise_domain OAuthReconsentRequiredError ''Reconnect Outlook to test this account''))
      else under_deadline s (oauth_stage token s env a) (test_oauth_account_inner token s env a))"

section \<open>Promptness\<close>

definition obeys :: "nat \<Rightarrow> nat \<Rightarrow> nat list \<Rightarrow> 'a outcome \<times> nat \<times> nat list \<Rightarrow> bool" where
  \<comment> \<open>a result consumes no request, a cancellation at least one, and the first request is obeyed within \<open>g\<close>\<close>
  "obeys g t cs r = (case r of (o1, t', cs') \<Rightarrow> t \<le> t' \<and>
     (cs \<noteq> [] \<longrightarrow> o1 \<noteq> Hangs \<and> t' \<le> max t (hd cs) + g) \<and>
     (if o1 = Cancelled then \<exists>k. 0 < k \<and> k \<le> length cs \<and> cs' = drop k cs else cs' = cs))"

definition prompt :: "nat \<Rightarrow> 'a task \<Rightarrow> bool" where
  "prompt g m \<longleftrightarrow> (\<forall>t cs. obeys g t cs (m (t, cs)))"

lemma obeys_Pair: "obeys g t cs (o1, t', cs') \<longleftrightarrow> t \<le> t' \<and> (cs \<noteq> [] \<longrightarrow> o1 \<noteq> Hangs \<and> t' \<le> max t (hd cs) + g) \<and>
     (if o1 = Cancelled then \<exists>k. 0 < k \<and> k \<le> length cs \<and> cs' = drop k cs else cs' = cs)"
  by (simp add: obeys_def)

lemma promptI: "(\<And>t cs. obeys g t cs (m (t, cs))) \<Longrightarrow> prompt g m"
  by (simp add: prompt_def)

lemma promptD: "prompt g m \<Longrightarrow> m (t, cs) = (o1, t', cs') \<Longrightarrow> obeys g t cs (o1, t', cs')"
  by (metis prompt_def)

lemma prompt_await [intro]: "prompt 0 (await_op d r)"
proof (rule promptI)
  fix t and cs :: "nat list"
  have one: "\<exists>k. 0 < k \<and> k \<le> length (c # l) \<and> l = drop k (c # l)" for c :: nat and l by (rule exI [of _ 1]) simp
  show "obeys 0 t cs (await_op d r (t, cs))"
    by (cases cs; cases d) (use one in \<open>auto simp: obeys_Pair\<close>)
qed

lemma prompt_mono: "prompt g m \<Longrightarrow> g \<le> h \<Longrightarrow> prompt h m"
  unfolding prompt_def obeys_def by (fastforce split: prod.splits)

lemma prompt_map_done [intro]:
  assumes "prompt g m"
  shows "prompt g (map_done f m)"
proof (rule promptI)
  fix t cs
  obtain o1 t' cs' where m: "m (t, cs) = (o1, t', cs')" by (rule prod_cases3)
  from promptD [OF assms m] show "obeys g t cs (map_done f m (t, cs))" unfolding map_done_def m by (cases o1) (auto simp: obeys_Pair)
qed

lemma prompt_and_then [intro]:
  assumes "prompt 0 m" and "\<And>x. prompt g (f x)"
  shows "prompt g (and_then m f)"
proof (rule promptI)
  fix t cs
  obtain o1 t1 cs1 where m: "m (t, cs) = (o1, t1, cs1)" by (rule prod_cases3)
  note mm = promptD [OF assms(1) m]
  show "obeys g t cs (and_then m f (t, cs))"
  proof (cases "\<exists>x. o1 = Done (Inr x)")
    case True
    then obtain x where x: "o1 = Done (Inr x)" by blast
    obtain o2 t2 cs2 where f: "f x (t1, cs1) = (o2, t2, cs2)" by (rule prod_cases3)
    from mm have t1: "cs1 = cs" "t \<le> t1" "cs \<noteq> [] \<Longrightarrow> t1 \<le> max t (hd cs)" by (auto simp: obeys_Pair x)
    have e: "and_then m f (t, cs) = (o2, t2, cs2)" using f by (simp add: and_then_def m x t1(1))
    show ?thesis unfolding e using promptD [OF assms(2) f] t1 by (auto simp: obeys_Pair)
  next
    case False
    then show ?thesis using mm unfolding and_then_def m by (auto simp: obeys_Pair split: outcome.splits sum.splits)
  qed
qed

text \<open>A closing step that ends within \<open>b\<close> whatever happens.\<close>

definition swift :: "nat \<Rightarrow> unit task \<Rightarrow> bool" where
  "swift b fin \<longleftrightarrow> prompt 0 fin \<and> (\<forall>t cs. case fin (t, cs) of (o1, t', _) \<Rightarrow> t' \<le> t + b \<and> o1 \<noteq> Hangs \<and> (\<forall>e. o1 \<noteq> Done (Inl e)))"

lemma prompt_finally [intro]:
  assumes "prompt 0 m" and "swift b fin"
  shows "prompt b (finally_task m fin)"
proof (rule promptI)
  fix t cs
  obtain o1 t1 cs1 where m: "m (t, cs) = (o1, t1, cs1)" by (rule prod_cases3)
  obtain o2 t2 cs2 where f: "fin (t1, cs1) = (o2, t2, cs2)" by (rule prod_cases3)
  have quick: "t2 \<le> t1 + b" "o2 \<noteq> Hangs" "\<And>e. o2 \<noteq> Done (Inl e)" using assms(2) f by (auto simp: swift_def dest!: spec [of _ t1] spec [of _ cs1])
  have ff: "obeys 0 t1 cs1 (o2, t2, cs2)" using assms(2) f by (auto simp: swift_def intro: promptD)
  note mm = promptD [OF assms(1) m]
  show "obeys b t cs (finally_task m fin (t, cs))"
  proof (cases o1)
    case Hangs
    then show ?thesis using mm unfolding finally_task_def m by (simp add: obeys_Pair)
  next
    case Cancelled
    then obtain k where k: "0 < k" "k \<le> length cs" "cs1 = drop k cs" using mm by (auto simp: obeys_Pair)
    have "\<exists>j. 0 < j \<and> j \<le> length cs \<and> cs2 = drop j cs"
    proof (cases "o2 = Cancelled")
      case True
      then obtain j where "j \<le> length cs1" "cs2 = drop j cs1" using ff by (auto simp: obeys_Pair)
      then show ?thesis using k by (intro exI [of _ "k + j"]) (simp add: add.commute)
    qed (use k ff in \<open>auto simp: obeys_Pair\<close>)
    then show ?thesis using mm quick ff Cancelled unfolding finally_task_def m prod.case outcome.case f
      by (cases o2) (auto simp: obeys_Pair split: sum.splits)
  next
    case (Done r)
    then have "cs1 = cs" using mm by (simp add: obeys_Pair)
    then show ?thesis using mm quick ff unfolding finally_task_def m prod.case Done outcome.case f
      by (cases o2) (auto simp: obeys_Pair split: sum.splits)
  qed
qed

lemma hd_insort:
  fixes x :: nat
  shows "hd (insort x cs) \<le> x" and "cs \<noteq> [] \<Longrightarrow> hd (insort x cs) \<le> hd cs" and "insort x cs \<noteq> []"
proof -
  show "hd (insort x cs) \<le> x" by (cases cs) simp_all
  show "hd (insort x cs) \<le> hd cs" if "cs \<noteq> []" using that by (cases cs) simp_all
qed simp

text \<open>A \<open>wait_for\<close> ends at its timeout, give or take the grace of its body, and is itself prompt.\<close>

lemma wait_for_bounded:
  assumes "prompt g m" and "wait_for ms m (t, cs) = (o1, t', cs')"
  shows "t' \<le> t + ms + g" and "o1 \<noteq> Hangs" and "cs = [] \<Longrightarrow> o1 \<noteq> Cancelled"
proof -
  let ?full = "insort (t + ms) cs"
  obtain o2 t2 cs2 where m: "m (t, ?full) = (o2, t2, cs2)" by (rule prod_cases3)
  from promptD [OF assms(1) m] hd_insort(1) [of "t + ms" cs] hd_insort(3) [of "t + ms" cs]
  have mm: "t2 \<le> t + ms + g" "o2 \<noteq> Hangs" "o2 = Cancelled \<Longrightarrow> \<exists>k. 0 < k \<and> k \<le> length ?full \<and> cs2 = drop k ?full"
    by (auto simp: obeys_Pair)
  show "t' \<le> t + ms + g" "o1 \<noteq> Hangs" using assms(2) mm(1,2) by (auto simp: wait_for_def m Let_def split: outcome.splits if_splits)
  show "o1 \<noteq> Cancelled" if "cs = []"
  proof (cases "o2 = Cancelled")
    case True
    then have "cs2 = []" using mm(3) that by auto
    then show ?thesis using assms(2) True m that by (auto simp: wait_for_def Let_def)
  qed (use assms(2) mm(2) in \<open>auto simp: wait_for_def m Let_def split: outcome.splits\<close>)
qed

lemma prompt_wait_for [intro]:
  assumes "prompt g m"
  shows "prompt g (wait_for ms m)"
proof (rule promptI)
  fix t cs
  let ?full = "insort (t + ms) cs"
  obtain o2 t2 cs2 where m: "m (t, ?full) = (o2, t2, cs2)" by (rule prod_cases3)
  note mm = promptD [OF assms(1) m]
  have early: "t \<le> t2" "o2 \<noteq> Hangs" "cs \<noteq> [] \<Longrightarrow> t2 \<le> max t (hd cs) + g"
    using mm hd_insort(2) [of cs "t + ms"] hd_insort(3) [of "t + ms" cs] by (auto simp: obeys_Pair)
  show "obeys g t cs (wait_for ms m (t, cs))"
  proof (cases o2)
    case (Done r)
    then show ?thesis using early by (simp add: wait_for_def m obeys_Pair Let_def)
  next
    case Hangs
    then show ?thesis using early by simp
  next
    case Cancelled
    then obtain k where k: "0 < k" "k \<le> length ?full" "cs2 = drop k ?full" using mm by (auto simp: obeys_Pair)
    have e: "wait_for ms m (t, cs) = (if t + ms \<in> set (take k ?full)
        then (if k = 1 then (Done (Inl timeout_error), t2, cs) else (Cancelled, t2, drop (k - 1) cs)) else (Cancelled, t2, drop k cs))"
    proof -
      have len: "length ?full - length cs2 = k" using k by simp
      show ?thesis unfolding wait_for_def prod.case Let_def m Cancelled outcome.case len ..
    qed
    consider "t + ms \<in> set (take k ?full)" "k = 1" | "t + ms \<in> set (take k ?full)" "k \<noteq> 1" | "t + ms \<notin> set (take k ?full)" by blast
    then show ?thesis
    proof cases
      case 1
      then show ?thesis using early unfolding e by (simp add: obeys_Pair)
    next
      case 2
      then have "0 < k - 1" "k - 1 \<le> length cs" using k by auto
      then show ?thesis using early 2 unfolding e by (auto simp: obeys_Pair intro!: exI [of _ "k - 1"])
    next
      case 3
      then have "k \<noteq> length ?full" by (auto simp: set_insort_key)
      then have "k \<le> length cs" using k by auto
      then show ?thesis using early 3 k unfolding e by (auto simp: obeys_Pair intro!: exI [of _ k])
    qed
  qed
qed

lemma swift_close [intro]: "swift (1000 * SMTP_QUIT_TIMEOUT) (close_smtp_client env host)"
proof -
  have "case close_smtp_client env host (t, cs) of (o1, t', _) \<Rightarrow> t' \<le> t + 1000 * SMTP_QUIT_TIMEOUT \<and> o1 \<noteq> Hangs \<and> (\<forall>e. o1 \<noteq> Done (Inl e))" for t cs
  proof -
    let ?w = "wait_for (1000 * SMTP_QUIT_TIMEOUT) (await_op (ne_quit_ms env host) (Inr ()))"
    obtain o1 t' cs' where w: "?w (t, cs) = (o1, t', cs')" by (rule prod_cases3)
    from wait_for_bounded [OF prompt_await w] show ?thesis by (auto simp: close_smtp_client_def map_done_def w split: outcome.splits)
  qed
  moreover have "prompt 0 (close_smtp_client env host)" unfolding close_smtp_client_def by (intro prompt_map_done prompt_wait_for prompt_await)
  ultimately show ?thesis by (simp add: swift_def)
qed

section \<open>The probe answers\<close>

lemma prompt_guarded [intro]: "prompt g m \<Longrightarrow> prompt g (guarded n err m)"
  unfolding guarded_def by (intro prompt_map_done prompt_wait_for)

lemma prompt_host [intro]: "prompt 0 (assert_public_host_async s env host port)"
  unfolding assert_public_host_async_def by (rule prompt_await)

lemma prompt_imap [intro]: "prompt 0 (imap_test_login s env host port ssl user pass)"
  unfolding imap_test_login_def by (auto split: prod.split intro!: prompt_and_then prompt_guarded)

lemma prompt_imap_oauth [intro]: "prompt 0 (imap_test_oauth s env host port e token)"
  unfolding imap_test_oauth_def by (auto split: prod.split intro!: prompt_and_then prompt_guarded)

lemma prompt_smtp_probe: "prompt (1000 * SMTP_QUIT_TIMEOUT) (smtp_login_probe env host port ssl starttls user pass)"
  unfolding smtp_login_probe_def by (auto split: prod.split intro!: prompt_finally)

lemma prompt_smtp [intro]: "prompt (1000 * SMTP_QUIT_TIMEOUT) (smtp_test_login s env host port ssl starttls user pass)"
  unfolding smtp_test_login_def
  by (auto intro!: prompt_and_then prompt_guarded prompt_smtp_probe prompt_mono [OF prompt_await])

lemma prompt_smtp_oauth [intro]: "prompt (1000 * SMTP_QUIT_TIMEOUT) (smtp_test_oauth s env host port starttls e token)"
  unfolding smtp_test_oauth_def smtp_oauth_probe_def
  by (auto intro!: prompt_and_then prompt_guarded prompt_finally prompt_mono [OF prompt_await] split: prod.split sum.split)

lemma prompt_inner: "prompt (1000 * SMTP_QUIT_TIMEOUT) (test_credentials_inner s env q)"
  unfolding test_credentials_inner_def imap_leg_def smtp_leg_def by (intro prompt_and_then prompt_map_done prompt_imap prompt_smtp)

lemma prompt_oauth_inner: "prompt 0 token \<Longrightarrow> prompt (1000 * SMTP_QUIT_TIMEOUT) (test_oauth_account_inner token s env a)"
  unfolding test_oauth_account_inner_def by (intro prompt_and_then prompt_map_done prompt_imap_oauth prompt_smtp_oauth)

lemma under_deadline_answers:
  assumes "prompt g m"
  shows "\<exists>r t'. under_deadline s stage m (t, []) = (Done r, t', []) \<and> t' \<le> t + 1000 * nat (MAILBOX_TEST_DEADLINE_SECONDS s) + g \<and>
    (\<forall>x. r = Inr x \<longrightarrow> (\<exists>t1 cs1. m (t, [t + 1000 * nat (MAILBOX_TEST_DEADLINE_SECONDS s)]) = (Done (Inr x), t1, cs1))) \<and>
    (\<forall>e. r = Inl e \<longrightarrow> \<not> isinstance e ETimeoutError)"
proof -
  let ?dl = "1000 * nat (MAILBOX_TEST_DEADLINE_SECONDS s)"
  obtain o1 t' cs' where w: "wait_for ?dl m (t, []) = (o1, t', cs')" by (rule prod_cases3)
  from wait_for_bounded [OF assms w] have b: "t' \<le> t + ?dl + g" "o1 \<noteq> Hangs" "o1 \<noteq> Cancelled" by simp_all
  then obtain r where r: "o1 = Done r" by (cases o1) auto
  have "obeys g t [] (o1, t', cs')" using promptD [OF prompt_wait_for [OF assms] w] .
  then have cs': "cs' = []" using r by (simp add: obeys_Pair)
  have src: "\<exists>t1 cs1. m (t, [t + ?dl]) = (Done (Inr x), t1, cs1)" if "r = Inr x" for x
    using w that r by (auto simp: wait_for_def Let_def split: prod.splits outcome.splits if_splits)
  show ?thesis using w b r cs' src
    by (auto simp: under_deadline_def map_done_def deadline_error_def domain_with_def raise_domain_def domain_error_def isinstance_def split: sum.split)
qed

text \<open>What a success says about the steps behind it.\<close>

lemma await_op_Done: "await_op d r s = (Done x, s') \<Longrightarrow> x = r"
  by (cases "(d, r, s)" rule: await_op.cases) (auto split: option.splits if_splits)

lemma and_then_Done: "and_then m f s = (Done (Inr y), s') \<Longrightarrow> \<exists>x s1. m s = (Done (Inr x), s1) \<and> f x s1 = (Done (Inr y), s')"
  by (auto simp: and_then_def split: prod.splits outcome.splits sum.splits)

lemma map_done_Done: "map_done g m s = (Done r, s') \<Longrightarrow> \<exists>r0. m s = (Done r0, s') \<and> r = g r0"
  by (auto simp: map_done_def split: prod.splits outcome.splits)

lemma guarded_Done: "guarded n err m (t, cs) = (Done (Inr x), s') \<Longrightarrow> \<exists>s1 s2. m s1 = (Done (Inr x), s2)"
  by (auto simp: guarded_def wait_for_def Let_def split: prod.splits outcome.splits if_splits sum.splits dest!: map_done_Done) blast

lemma finally_Done: "finally_task m fin s = (Done (Inr x), s') \<Longrightarrow> \<exists>s1. m s = (Done (Inr x), s1)"
  by (auto simp: finally_task_def split: prod.splits outcome.splits sum.splits)

lemma translate_Inr: "translate_imap msg r = Inr () \<Longrightarrow> r = Inr ()" "translate_smtp msg r1 = Inr x \<Longrightarrow> r1 = Inr x"
  by (auto simp: translate_imap_def translate_smtp_def split: sum.splits if_splits)

lemma imap_login_Done:
  assumes "imap_test_login s env host port ssl user pass st = (Done (Inr ()), st')"
  shows "assert_public_host s (ne_resolver env) host port = Inr () \<and> snd (ne_imap env host port ssl user pass) = Inr ()"
proof -
  obtain d r where ne: "ne_imap env host port ssl user pass = (d, r)" by (rule prod.exhaust)
  from and_then_Done [OF assms [unfolded imap_test_login_def]] obtain s1 where h: "assert_public_host_async s env host port st = (Done (Inr ()), s1)"
    and g: "guarded IMAP_TIMEOUT (imap_timed_out ''IMAP login timed out'') (await_op d (translate_imap ''IMAP login failed'' r)) s1 = (Done (Inr ()), st')"
    by (auto simp: ne)
  obtain t cs where s1: "s1 = (t, cs)" by (rule prod.exhaust)
  from guarded_Done [OF g [unfolded s1]] have "translate_imap ''IMAP login failed'' r = Inr ()" by (auto dest!: await_op_Done)
  then show ?thesis using await_op_Done [OF h [unfolded assert_public_host_async_def]] translate_Inr(1) ne by auto
qed

lemma smtp_login_Done:
  assumes "smtp_test_login s env host port ssl starttls user pass st = (Done (Inr ()), st')"
  shows "assert_public_host s (ne_resolver env) host port = Inr () \<and> \<not> (ssl \<and> starttls) \<and>
    snd (ne_smtp env host port ssl starttls user pass) = Inr ()"
proof -
  obtain d r where ne: "ne_smtp env host port ssl starttls user pass = (d, r)" by (rule prod.exhaust)
  from and_then_Done [OF assms [unfolded smtp_test_login_def]] obtain s1 where h: "assert_public_host_async s env host port st = (Done (Inr ()), s1)"
    and g: "(if ssl \<and> starttls then await_op (Some 0) (Inl (domain_with SMTPLoginFailedError ''smtp_ssl and smtp_starttls are mutually exclusive''
              [(''detail'', u ''ssl_and_starttls_set'')])) else guarded SMTP_TIMEOUT (smtp_timed_out ''SMTP login timed out'')
                (smtp_login_probe env host port ssl starttls user pass)) s1 = (Done (Inr ()), st')"
    by auto
  have no: "\<not> (ssl \<and> starttls)" using g by (auto dest!: await_op_Done)
  obtain t cs where s1: "s1 = (t, cs)" by (rule prod.exhaust)
  have "guarded SMTP_TIMEOUT (smtp_timed_out ''SMTP login timed out'') (smtp_login_probe env host port ssl starttls user pass) (t, cs) = (Done (Inr ()), st')"
    using g no s1 by auto
  from guarded_Done [OF this] have "translate_smtp ''SMTP authentication failed'' r = Inr ()"
    by (auto simp: smtp_login_probe_def ne dest!: finally_Done await_op_Done)
  then have "r = Inr ()" by (rule translate_Inr(2))
  then show ?thesis using await_op_Done [OF h [unfolded assert_public_host_async_def]] ne no by auto
qed

definition probe_passed :: "settings \<Rightarrow> net_env \<Rightarrow> test_request \<Rightarrow> bool" where
  \<comment> \<open>both hosts pass the guard and both servers accept the login\<close>
  "probe_passed s env q \<longleftrightarrow>
     assert_public_host s (ne_resolver env) (the (tr_imap_host q)) (tr_imap_port q) = Inr () \<and>
     assert_public_host s (ne_resolver env) (the (tr_smtp_host q)) (tr_smtp_port q) = Inr () \<and>
     snd (ne_imap env (the (tr_imap_host q)) (tr_imap_port q) (tr_imap_ssl q) (the (tr_email q)) (the (tr_password q))) = Inr () \<and>
     snd (ne_smtp env (the (tr_smtp_host q)) (tr_smtp_port q) (tr_smtp_ssl q) (tr_smtp_starttls q)
       (or_else (normalize_optional_login (tr_smtp_username q)) (the (tr_email q)))
       (or_else (normalize_optional_secret (tr_smtp_password q)) (the (tr_password q)))) = Inr ()"

lemma inner_Done:
  assumes "test_credentials_inner s env q st = (Done (Inr x), st')"
  shows "x = both_ok \<and> probe_passed s env q"
proof -
  from and_then_Done [OF assms [unfolded test_credentials_inner_def]] obtain v a where i: "imap_leg s env q st = (Done (Inr v), a)"
    and m: "map_done (\<lambda>r. case r of Inl e \<Rightarrow> Inl e | Inr _ \<Rightarrow> Inr both_ok) (smtp_leg s env q) a = (Done (Inr x), st')" by blast
  from map_done_Done [OF m] obtain r0 where "smtp_leg s env q a = (Done r0, st')" "Inr x = (case r0 of Inl e \<Rightarrow> Inl e | Inr _ \<Rightarrow> Inr both_ok)" by blast
  then have "x = both_ok" "smtp_leg s env q a = (Done (Inr ()), st')" by (cases r0; simp)+
  then show ?thesis using i imap_login_Done smtp_login_Done unfolding imap_leg_def smtp_leg_def probe_passed_def by (metis old.unit.exhaust)
qed

lemma probe_run:
  "\<exists>r t'. test_credentials s env q (t, []) = (Done r, t', []) \<and> t' \<le> t + 1000 * nat (MAILBOX_TEST_DEADLINE_SECONDS s) + 5000 \<and>
    (case r of Inl e \<Rightarrow> \<not> isinstance e ETimeoutError | Inr x \<Rightarrow> x = both_ok \<and> probe_passed s env q)"
proof -
  from under_deadline_answers [OF prompt_inner, of s _ s env q t] obtain r t' where
    r: "test_credentials s env q (t, []) = (Done r, t', [])" "t' \<le> t + 1000 * nat (MAILBOX_TEST_DEADLINE_SECONDS s) + 1000 * SMTP_QUIT_TIMEOUT"
    and ok: "\<forall>x. r = Inr x \<longrightarrow> (\<exists>t1 cs1. test_credentials_inner s env q (t, [t + 1000 * nat (MAILBOX_TEST_DEADLINE_SECONDS s)]) = (Done (Inr x), t1, cs1))"
    and no: "\<forall>e. r = Inl e \<longrightarrow> \<not> isinstance e ETimeoutError"
    unfolding test_credentials_def by blast
  have "case r of Inl e \<Rightarrow> \<not> isinstance e ETimeoutError | Inr x \<Rightarrow> x = both_ok \<and> probe_passed s env q"
    using ok no inner_Done by (auto split: sum.split)
  then show ?thesis using r by (intro exI [of _ r] exI [of _ t']) (simp add: SMTP_QUIT_TIMEOUT_def)
qed


text \<open>
  The probe does not translate every failure of the IMAP dialogue: an exception that is none of
  \<open>MailboxLoginError\<close>, \<open>MailboxFolderSelectError\<close> and \<open>OSError\<close>, such as the \<open>imaplib\<close> errors for a refused
  greeting or a dropped connection or the \<open>UnicodeEncodeError\<close> of a password outside ASCII, leaves the probe as it is,
  and the client reads an opaque 500 instead of \<open>imap_login_failed\<close>.
\<close>

theorem imap_failure_escapes_as_500:
  assumes "assert_public_host s (ne_resolver env) (the (tr_imap_host q)) (tr_imap_port q) = Inr ()"
    and "ne_resolve_ms env (the (tr_imap_host q)) = Some a"
    and "ne_imap env (the (tr_imap_host q)) (tr_imap_port q) (tr_imap_ssl q) (the (tr_email q)) (the (tr_password q)) = (Some b, Inl e)"
    and "a + b \<le> 1000 * nat (MAILBOX_TEST_DEADLINE_SECONDS s)" and "b \<le> 25000"
    and "\<not> isinstance e EMailboxLoginError" and "\<not> isinstance e EMailboxFolderSelectError" and "\<not> isinstance e EOSError"
    and "\<not> isinstance e ETimeoutError" and "\<forall>c. ecls e \<noteq> EDomain c" and "ecls e \<noteq> ERequestValidationError"
  shows "test_credentials s env q (0, []) = (Done (Inl e), a + b, []) \<and> rs_status (dispatch_handler e) = 500"
proof -
  let ?dl = "1000 * nat (MAILBOX_TEST_DEADLINE_SECONDS s)"
  have tr: "translate_imap m (Inl e) = Inl e" for m using assms(6-9) by (simp add: translate_imap_def)
  have leg: "imap_leg s env q (0, [?dl]) = (Done (Inl e), a + b, [?dl])"
    using assms(1-5,9) by (simp add: imap_leg_def imap_test_login_def and_then_def assert_public_host_async_def guarded_def map_done_def
        wait_for_def Let_def tr IMAP_TIMEOUT_def)
  have "test_credentials_inner s env q (0, [?dl]) = (Done (Inl e), a + b, [?dl])"
    by (simp add: test_credentials_inner_def and_then_def leg)
  then have "test_credentials s env q (0, []) = (Done (Inl e), a + b, [])"
    using assms(9) by (simp add: test_credentials_def under_deadline_def Let_def map_done_def wait_for_def)
  moreover have "rs_status (dispatch_handler e) = 500"
    using assms(10,11) by (cases "ecls e") (simp_all add: dispatch_handler_def unhandled_handler_def)
  ultimately show ?thesis by blast
qed

section \<open>Example servers\<close>

definition slow_env :: "(pyexc + unit) \<Rightarrow> nat option \<Rightarrow> nat option \<Rightarrow> nat option \<Rightarrow> net_env" where
  \<comment> \<open>IMAP answers after 100 ms, SMTP and its QUIT as given, names resolve after 10 ms to a public address\<close>
  "slow_env imap smtp quit resolve = \<lparr>ne_resolver = (\<lambda>_. Inr [u ''8.8.8.8'']), ne_resolve_ms = (\<lambda>_. resolve),
     ne_imap = (\<lambda>_ _ _ _ _. (Some 100, imap)), ne_imap_oauth = (\<lambda>_ _ _ _. (Some 100, imap)),
     ne_smtp = (\<lambda>_ _ _ _ _ _. (smtp, Inr ())), ne_smtp_oauth = (\<lambda>_ _ _ _ _. (smtp, Inr 235)), ne_quit_ms = (\<lambda>_. quit)\<rparr>"

definition sample_request :: test_request where
  "sample_request = \<lparr>tr_account_id = None, tr_email = Some (u ''a@b.co''), tr_password = Some (u ''pw''),
     tr_imap_host = Some (u ''imap.b.co''), tr_imap_port = 993, tr_imap_ssl = True, tr_smtp_host = Some (u ''smtp.b.co''),
     tr_smtp_port = 465, tr_smtp_ssl = True, tr_smtp_starttls = False, tr_smtp_username = None, tr_smtp_password = None\<rparr>"

definition probe_settings :: settings where
  "probe_settings = default_settings\<lparr>APP_ENV := Dev, MAILBOX_TEST_DEADLINE_SECONDS := 30\<rparr>"

definition mute :: "nat option" where
  "mute = None"

theorem imap_failure_escapes_as_500_witness:
  "test_credentials probe_settings (slow_env (Inl (mk_exc EImapAbort (u ''socket error: EOF''))) (Some 5) (Some 5) (Some 10)) sample_request (0, [])
     = (Done (Inl (mk_exc EImapAbort (u ''socket error: EOF''))), 110, []) \<and>
   rs_status (dispatch_handler (mk_exc EImapAbort (u ''socket error: EOF''))) = 500"
proof -
  let ?e = "mk_exc EImapAbort (u ''socket error: EOF'')"
  have h: "assert_public_host probe_settings (ne_resolver (slow_env (Inl ?e) (Some 5) (Some 5) (Some 10))) (the (tr_imap_host sample_request))
      (tr_imap_port sample_request) = Inr ()" by code_simp
  show ?thesis
    using imap_failure_escapes_as_500 [OF h, of 10 100 ?e]
    by (simp add: slow_env_def probe_settings_def default_settings_def)
qed

text \<open>The boundaries, evaluated: success, a silent SMTP server (the guard of the leg), a silent QUIT.\<close>

lemma probe_examples:
  "test_credentials probe_settings (slow_env (Inr ()) (Some 300) (Some 50) (Some 10)) sample_request (0, []) = (Done (Inr both_ok), 470, [])"
  "snd (test_credentials probe_settings (slow_env (Inr ()) mute mute (Some 10)) sample_request (0, [])) = (30000, [])"
  "snd (test_credentials probe_settings (slow_env (Inr ()) (Some 300) mute (Some 10)) sample_request (0, [])) = (5420, [])"
  by (simp_all add: test_credentials_def under_deadline_def test_credentials_inner_def imap_leg_def smtp_leg_def imap_test_login_def
      smtp_test_login_def smtp_login_probe_def assert_public_host_async_def assert_public_host_def guarded_def map_done_def and_then_def
      finally_task_def close_smtp_client_def wait_for_def Let_def slow_env_def sample_request_def probe_settings_def default_settings_def
      is_prod_def mute_def translate_imap_def translate_smtp_def IMAP_TIMEOUT_def SMTP_TIMEOUT_def SMTP_QUIT_TIMEOUT_def timeout_error_def)

end
