(* ===== verification/Accounts_Repo.thy ===== *)
theory Accounts_Repo
  imports World
begin

text \<open>
  \<open>backend/app/repositories/mail_accounts.py\<close> and \<open>repositories/users.py\<close>: queries on the tables and the
  statements that change them. A set of keyword fields is a list of column setters. \<open>now\<close> is the
  \<open>datetime.now(UTC)\<close> of the call. The locale \<open>account_store\<close> is the contract the sync state machine relies on:
  a keyed write changes the row it names, and only by the function it states.
\<close>

section \<open>Reads\<close>

definition get_by_id :: "int \<Rightarrow> db \<Rightarrow> account option" where
  "get_by_id i d = find (\<lambda>a. acc_id a = i) (accounts d)"

definition get_for_user_ids :: "int list option \<Rightarrow> int \<Rightarrow> db \<Rightarrow> account option" where
  "get_for_user_ids scope i d = (case scope of
       None \<Rightarrow> get_by_id i d
     | Some ids \<Rightarrow> if ids = [] then None else find (\<lambda>a. acc_id a = i \<and> acc_id a \<in> set ids) (accounts d))"

definition by_user_and_id :: "account list \<Rightarrow> account list" where
  "by_user_and_id xs = sort_key acc_user_id (sort_key acc_id xs)"

definition list_by_ids :: "int list \<Rightarrow> db \<Rightarrow> account list" where
  "list_by_ids ids d = by_user_and_id (filter (\<lambda>a. acc_id a \<in> set ids) (accounts d))"

definition list_canonical_account_ids :: "db \<Rightarrow> int list" where
  \<comment> \<open>\<open>SELECT min(id) GROUP BY lower(email)\<close>, in first-row order\<close>
  "list_canonical_account_ids d =
     map (\<lambda>e. Min (acc_id ` set (filter (\<lambda>a. py_lower (email a) = e) (accounts d))))
         (remdups (map (\<lambda>a. py_lower (email a)) (accounts d)))"

definition list_for_users :: "int list \<Rightarrow> db \<Rightarrow> (int \<times> account list) list" where
  "list_for_users ids d = map (\<lambda>x. (x, sort_key acc_id (filter (\<lambda>a. acc_user_id a = x) (accounts d)))) (remdups ids)"

definition list_active :: "db \<Rightarrow> account list" where
  "list_active d = sort_key last_synced_at (sort_key acc_id (filter is_active (accounts d)))"

definition list_active_by_ids :: "int list \<Rightarrow> db \<Rightarrow> account list" where
  "list_active_by_ids ids d = sort_key acc_id (filter (\<lambda>a. is_active a \<and> acc_id a \<in> set ids) (accounts d))"

definition find_by_user_email :: "int \<Rightarrow> pystr \<Rightarrow> db \<Rightarrow> pyexc + account option" where
  "find_by_user_email x e d =
     scalar_one_or_none (filter (\<lambda>a. acc_user_id a = x \<and> py_lower (email a) = py_lower e) (accounts d))"

definition find_any_by_email :: "pystr \<Rightarrow> db \<Rightarrow> pyexc + account option" where
  "find_any_by_email e d = scalar_one_or_none (filter (\<lambda>a. py_lower (email a) = py_lower e) (accounts d))"

section \<open>Writes\<close>

definition next_account_id :: "(db, int) prog" where
  "next_account_id d = (Inr (acc_seq d), d\<lparr>acc_seq := acc_seq d + 1\<rparr>)"

definition insert_account :: "account \<Rightarrow> (db, account) prog" where
  \<comment> \<open>\<open>session.add; flush; refresh\<close>\<close>
  "insert_account a = bindM (write_accounts (\<lambda>xs. xs @ [a])) (\<lambda>_. ret a)"

definition insert_with_id :: "int \<Rightarrow> account \<Rightarrow> (db, account) prog" where
  \<comment> \<open>the columns the caller passes are read from the argument, the others take their defaults\<close>
  "insert_with_id now v = insert_account (blank_account\<lparr>
     acc_id := acc_id v, acc_user_id := acc_user_id v, email := email v, display_name := display_name v,
     encrypted_password := encrypted_password v, imap_host := imap_host v, imap_port := imap_port v,
     imap_ssl := imap_ssl v, smtp_host := smtp_host v, smtp_port := smtp_port v, smtp_ssl := smtp_ssl v,
     smtp_starttls := smtp_starttls v, smtp_username := smtp_username v,
     smtp_encrypted_password := smtp_encrypted_password v, is_active := True, consecutive_failures := 0,
     created_at := now, updated_at := now\<rparr>)"

definition insert_oauth_account_with_id :: "int \<Rightarrow> account \<Rightarrow> (db, account) prog" where
  "insert_oauth_account_with_id now v = insert_account (blank_account\<lparr>
     acc_id := acc_id v, acc_user_id := acc_user_id v, email := email v, display_name := display_name v,
     encrypted_password := None, auth_type := ''oauth_outlook'', oauth_provider := oauth_provider v,
     oauth_refresh_token_encrypted := oauth_refresh_token_encrypted v,
     oauth_access_token_encrypted := oauth_access_token_encrypted v,
     oauth_access_token_expires_at := oauth_access_token_expires_at v,
     oauth_needs_consent := False, oauth_scopes := oauth_scopes v, imap_host := imap_host v,
     imap_port := imap_port v, imap_ssl := imap_ssl v, smtp_host := smtp_host v, smtp_port := smtp_port v,
     smtp_ssl := smtp_ssl v, smtp_starttls := smtp_starttls v, smtp_username := None,
     smtp_encrypted_password := None, is_active := True, consecutive_failures := 0,
     created_at := now, updated_at := now\<rparr>)"

definition update_row :: "int \<Rightarrow> (account \<Rightarrow> account) \<Rightarrow> (db, unit) prog" where
  \<comment> \<open>\<open>UPDATE mail_accounts SET ... WHERE id = i\<close>\<close>
  "update_row i f = write_accounts (update_where (\<lambda>a. acc_id a = i) f)"

definition opt_set :: "'v option \<Rightarrow> ('v \<Rightarrow> account \<Rightarrow> account) \<Rightarrow> account \<Rightarrow> account" where
  "opt_set v f a = (case v of None \<Rightarrow> a | Some x \<Rightarrow> f x a)"

definition update_oauth_tokens ::
    "int \<Rightarrow> int \<Rightarrow> bytes option \<Rightarrow> bytes option \<Rightarrow> int option \<Rightarrow> pystr option \<Rightarrow> bool option \<Rightarrow> (db, unit) prog" where
  "update_oauth_tokens now i refresh access expires scopes needs = update_row i (\<lambda>a.
     opt_set refresh (\<lambda>v x. x\<lparr>oauth_refresh_token_encrypted := Some v\<rparr>)
    (opt_set access (\<lambda>v x. x\<lparr>oauth_access_token_encrypted := Some v\<rparr>)
    (opt_set expires (\<lambda>v x. x\<lparr>oauth_access_token_expires_at := Some v\<rparr>)
    (opt_set scopes (\<lambda>v x. x\<lparr>oauth_scopes := Some v\<rparr>)
    (opt_set needs (\<lambda>v x. x\<lparr>oauth_needs_consent := v\<rparr>)
       (a\<lparr>updated_at := now\<rparr>))))))"

definition OAUTH_NEEDS_CONSENT_SYNC_ERROR :: pystr where
  "OAUTH_NEEDS_CONSENT_SYNC_ERROR = u ''oauth_needs_consent: '' @
     [1090, 1088, 1077, 1073, 1091, 1077, 1090, 1089, 1103, 32,
      1087, 1077, 1088, 1077, 1087, 1086, 1076, 1082, 1083, 1102, 1095, 1077, 1085, 1080, 1077] @ u '' Outlook''"

definition mark_oauth_needs_consent :: "int \<Rightarrow> int \<Rightarrow> (db, unit) prog" where
  "mark_oauth_needs_consent now i = update_row i (\<lambda>a. a\<lparr>oauth_needs_consent := True,
     last_sync_error := Some OAUTH_NEEDS_CONSENT_SYNC_ERROR, updated_at := now\<rparr>)"

definition mark_oauth_needs_consent_error :: "int \<Rightarrow> int \<Rightarrow> (db, bool) prog" where
  "mark_oauth_needs_consent_error now i d =
     (let hit = (\<lambda>a. acc_id a = i \<and> last_sync_error a \<noteq> Some OAUTH_NEEDS_CONSENT_SYNC_ERROR)
      in bindM (write_accounts (update_where hit (\<lambda>a. a\<lparr>last_sync_error := Some OAUTH_NEEDS_CONSENT_SYNC_ERROR, updated_at := now\<rparr>)))
           (\<lambda>_. ret (list_ex hit (accounts d))) d)"

definition update_fields :: "int \<Rightarrow> int \<Rightarrow> (account \<Rightarrow> account) list \<Rightarrow> (db, unit) prog" where
  "update_fields now i kws = (if kws = [] then ret ()
     else update_row i (\<lambda>a. (foldl (\<lambda>x f. f x) a kws)\<lparr>updated_at := now\<rparr>))"

definition delete_account :: "int \<Rightarrow> (db, unit) prog" where
  \<comment> \<open>\<open>messages.mail_account_id\<close> is \<open>ON DELETE CASCADE\<close>\<close>
  "delete_account i = modifyM (\<lambda>d. d\<lparr>accounts := filter (\<lambda>a. acc_id a \<noteq> i) (accounts d),
     msgs := filter (\<lambda>m. \<not> (msg_account_id m = i \<and> i \<in> acc_id ` set (accounts d))) (msgs d)\<rparr>)"

definition mark_sync_success :: "int \<Rightarrow> int \<Rightarrow> int option \<Rightarrow> int option \<Rightarrow> (db, unit) prog" where
  "mark_sync_success now i uidnext uidvalidity = update_row i (\<lambda>a. a\<lparr>last_synced_uidnext := uidnext,
     last_uidvalidity := uidvalidity, last_synced_at := Some now, last_sync_error := None,
     consecutive_failures := 0, updated_at := now\<rparr>)"

definition disable_and_stamp_alert :: "int \<Rightarrow> int \<Rightarrow> (db, bool) prog" where
  "disable_and_stamp_alert now i d =
     (let hit = (\<lambda>a. acc_id a = i \<and> disabled_alert_sent_at a = None)
      in bindM (write_accounts (update_where hit (\<lambda>a. a\<lparr>is_active := False, disabled_alert_sent_at := Some now, updated_at := now\<rparr>)))
           (\<lambda>_. ret (list_ex hit (accounts d))) d)"

definition mark_transient_error :: "int \<Rightarrow> int \<Rightarrow> pystr \<Rightarrow> (db, unit) prog" where
  "mark_transient_error now i err = update_row i (\<lambda>a. a\<lparr>last_sync_error := Some (take 500 err), updated_at := now\<rparr>)"

definition mark_sync_failure :: "int \<Rightarrow> int \<Rightarrow> pystr \<Rightarrow> bool \<Rightarrow> (db, int) prog" where
  "mark_sync_failure now i err disable = bindM
     (update_row i (\<lambda>a. a\<lparr>consecutive_failures := consecutive_failures a + 1, last_sync_error := Some (take 500 err),
        updated_at := now, is_active := (if disable then False else is_active a)\<rparr>))
     (\<lambda>_. getM (\<lambda>d. case get_by_id i d of None \<Rightarrow> 0 | Some a \<Rightarrow> consecutive_failures a))"

section \<open>Users\<close>

definition user_by_id :: "int \<Rightarrow> db \<Rightarrow> user option" where
  "user_by_id i d = find (\<lambda>x. usr_id x = i) (users d)"

definition user_by_username :: "pystr \<Rightarrow> db \<Rightarrow> pyexc + user option" where
  "user_by_username name d = scalar_one_or_none (filter (\<lambda>x. usr_username x = py_lower name) (users d))"

definition users_by_ids :: "int list \<Rightarrow> db \<Rightarrow> (int \<times> user) list" where
  "users_by_ids ids d = map (\<lambda>x. (usr_id x, x)) (filter (\<lambda>x. usr_id x \<in> set ids) (users d))"

definition create_user :: "user \<Rightarrow> (db, user) prog" where
  \<comment> \<open>the id is the next of the sequence, which an aborted insert consumes too\<close>
  "create_user v d =
     (let row = v\<lparr>usr_id := usr_seq d, usr_username := py_lower (usr_username v)\<rparr>;
          d1 = d\<lparr>usr_seq := usr_seq d + 1\<rparr>; d2 = d1\<lparr>users := users d @ [row]\<rparr>
      in if users_ok d2 then (Inr row, d2) else (Inl integrity_error, d1))"

section \<open>The contract of a keyed write\<close>

locale account_store =
  fixes inv :: "'s \<Rightarrow> bool"
    and row :: "int \<Rightarrow> 's \<Rightarrow> account option"
    and upd :: "int \<Rightarrow> (account \<Rightarrow> account) \<Rightarrow> ('s, unit) prog"
    and harmless :: "(account \<Rightarrow> account) \<Rightarrow> bool"  \<comment> \<open>changes no key and keeps the row's constraints\<close>
  assumes upd_ok: "inv s \<Longrightarrow> harmless f \<Longrightarrow> fst (upd i f s) = Inr ()"
    and upd_inv: "inv s \<Longrightarrow> inv (snd (upd i f s))"
    and upd_row: "inv s \<Longrightarrow> harmless f \<Longrightarrow> row j (snd (upd i f s)) = (if j = i then map_option f (row j s) else row j s)"
begin

text \<open>Programs over the store made of harmless keyed writes: each row changes by the writes that name it.\<close>

fun run :: "(int \<times> (account \<Rightarrow> account)) list \<Rightarrow> ('s, unit) prog" where
  "run [] = ret ()"
| "run ((i, f) # ws) = seqM (upd i f) (run ws)"

definition effect :: "int \<Rightarrow> (int \<times> (account \<Rightarrow> account)) list \<Rightarrow> account \<Rightarrow> account" where
  "effect j ws a = foldl (\<lambda>x (i, f). if i = j then f x else x) a ws"

lemma run_total:
  assumes "inv s" and "\<forall>(i, f) \<in> set ws. harmless f"
  shows "fst (run ws s) = Inr () \<and> inv (snd (run ws s)) \<and> row j (snd (run ws s)) = map_option (effect j ws) (row j s)"
  using assms
proof (induction ws arbitrary: s)
  case Nil
  then show ?case by (cases "row j s") (simp_all add: effect_def)
next
  case (Cons w ws)
  obtain i f where w: "w = (i, f)" by (cases w)
  obtain s1 where s1: "upd i f s = (Inr (), s1)"
    using upd_ok [OF Cons.prems(1), of f i] Cons.prems(2) w by (metis (no_types, lifting) case_prodD list.set_intros(1) prod.collapse)
  have inv1: "inv s1" using upd_inv [OF Cons.prems(1), of i f] s1 by simp
  have row1: "row j s1 = (if j = i then map_option f (row j s) else row j s)"
    using upd_row [OF Cons.prems(1), of f j i] Cons.prems(2) w s1 by auto
  have r: "run (w # ws) s = run ws s1" by (simp add: w bindM_app s1)
  show ?case
    using Cons.IH [OF inv1] Cons.prems(2) row1 unfolding r
    by (auto simp: w effect_def option.map_comp comp_def)
qed

text \<open>A quantity no write of the program changes keeps its value.\<close>

lemma run_frame:
  assumes "inv s" and "\<forall>(i, f) \<in> set ws. harmless f \<and> (\<forall>a. g (f a) = g a)"
  shows "map_option g (row j (snd (run ws s))) = map_option g (row j s)"
proof -
  have "g (effect j ws a) = g a" for a
    using assms(2) unfolding effect_def by (induction ws arbitrary: a) auto
  moreover have "\<forall>(i, f) \<in> set ws. harmless f" using assms(2) by auto
  ultimately show ?thesis
    using run_total [OF assms(1), of ws j] by (simp add: option.map_comp comp_def)
qed

end

definition harmless :: "(account \<Rightarrow> account) \<Rightarrow> bool" where
  "harmless f \<longleftrightarrow> (\<forall>a. acc_id (f a) = acc_id a \<and> acc_user_id (f a) = acc_user_id a \<and> email (f a) = email a \<and>
     (account_checks a \<longrightarrow> account_checks (f a)))"

lemma harmless_accounts_ok:
  assumes "harmless f" and "accounts_ok d"
  shows "accounts_ok (d\<lparr>accounts := update_where P f (accounts d)\<rparr>)"
proof -
  have k: "map acc_id (update_where P f (accounts d)) = map acc_id (accounts d)"
    "map (\<lambda>a. (acc_user_id a, email a)) (update_where P f (accounts d)) = map (\<lambda>a. (acc_user_id a, email a)) (accounts d)"
    using assms(1) by (auto simp: update_where_def harmless_def)
  show ?thesis
    using assms unfolding accounts_ok_def
    by (simp add: k) (auto simp: set_update_where harmless_def)
qed

lemma write_harmless:
  "harmless f \<Longrightarrow> accounts_ok d \<Longrightarrow>
    write_accounts (update_where P f) d = (Inr (), d\<lparr>accounts := update_where P f (accounts d)\<rparr>)"
  by (simp add: write_accounts_def harmless_accounts_ok)

lemma write_accounts_keeps: "accounts_ok d \<Longrightarrow> accounts_ok (snd (write_accounts f d))"
  by (simp add: write_accounts_def Let_def)

interpretation acc: account_store accounts_ok get_by_id update_row harmless
proof
  fix d :: db and f i j
  assume ok: "accounts_ok d"
  show "accounts_ok (snd (update_row i f d))" unfolding update_row_def by (rule write_accounts_keeps [OF ok])
  assume h: "harmless f"
  show "fst (update_row i f d) = Inr ()" unfolding update_row_def by (simp add: write_harmless [OF h ok])
  have key: "\<And>a. acc_id (f a) = acc_id a" using h by (simp add: harmless_def)
  have upd: "snd (update_row i f d) = d\<lparr>accounts := update_where (\<lambda>a. acc_id a = i) f (accounts d)\<rparr>"
    unfolding update_row_def by (simp add: write_harmless [OF h ok])
  show "get_by_id j (snd (update_row i f d)) = (if j = i then map_option f (get_by_id j d) else get_by_id j d)"
  proof (cases "j = i")
    case True
    then show ?thesis
      unfolding upd get_by_id_def
      using find_update_same [of acc_id f i "accounts d"] find_update_None [of acc_id f i "accounts d"] key
      by (cases "find (\<lambda>a. acc_id a = i) (accounts d)") auto
  next
    case False
    then show ?thesis unfolding upd get_by_id_def using find_update_other [of acc_id f i j "accounts d"] key by simp
  qed
qed

end
