(* ===== verification/Messages_Repo.thy ===== *)
theory Messages_Repo
  imports World
begin

text \<open>
  \<open>backend/app/repositories/messages.py\<close>: the statements on \<open>messages\<close>. The locale \<open>keyset\<close> is the
  contract of a keyset page (the rows beyond the cursor, in cursor order, at most \<open>limit\<close>); its client
  lemma is that following the pages visits every row exactly once. It is interpreted for the ascending
  and for the descending listing.
\<close>

section \<open>Listings\<close>

definition in_scope :: "int list \<Rightarrow> db \<Rightarrow> message list" where
  \<comment> \<open>the join with \<open>mail_accounts\<close> and the \<open>IN\<close> filter\<close>
  "in_scope ids d = filter (\<lambda>m. msg_account_id m \<in> acc_id ` set (accounts d) \<and> msg_account_id m \<in> set ids) (msgs d)"

definition list_since_id :: "int list \<Rightarrow> int \<Rightarrow> nat \<Rightarrow> db \<Rightarrow> message list" where
  "list_since_id ids since limit d = (if ids = [] then [] else
     take limit (sort_key msg_id (filter (\<lambda>m. since < msg_id m) (in_scope ids d))))"

definition list_before_id :: "int list \<Rightarrow> int option \<Rightarrow> nat \<Rightarrow> db \<Rightarrow> message list" where
  "list_before_id ids before limit d = (if ids = [] then [] else
     take limit (rev (sort_key msg_id (filter (\<lambda>m. case before of None \<Rightarrow> True | Some b \<Rightarrow> msg_id m < b)
       (in_scope ids d)))))"

section \<open>Inserting\<close>

definition storable :: "pystr \<Rightarrow> bool" where
  "storable s \<longleftrightarrow> 0 \<notin> set s"

definition message_storable :: "message \<Rightarrow> bool" where
  "message_storable m \<longleftrightarrow> list_all storable ([from_addr m, to_addrs m, body_text m]
     @ concat (map (case_option [] (\<lambda>t. [t])) [message_id_header m, from_name m, cc_addrs m, msg_subject m,
         body_html m, in_reply_to m, refs_header m]))"

definition insert_message_idempotent :: "int \<Rightarrow> message \<Rightarrow> (db, int option) prog" where
  \<comment> \<open>\<open>now\<close> is the transaction time; the \<open>id\<close>, \<open>fetched_at\<close>, \<open>pushed_at\<close>, \<open>is_read\<close> columns of the argument are
      replaced by their server defaults. The sequence advances on a conflict too.\<close>
  "insert_message_idempotent now m d =
     (if \<not> message_storable m then (Inl db_error, d)
      else let d1 = d\<lparr>msg_seq := msg_seq d + 1\<rparr>;
               row = m\<lparr>msg_id := msg_seq d, fetched_at := now, pushed_at := None, msg_is_read := False\<rparr>
        in if msg_key m \<in> msg_key ` set (msgs d) then (Inr None, d1)
           else if msg_account_id m \<notin> acc_id ` set (accounts d) then (Inl integrity_error, d1)
           else (Inr (Some (msg_seq d)), d1\<lparr>msgs := msgs d @ [row]\<rparr>))"

section \<open>The push outbox and retention\<close>

definition list_for_crm_push :: "int list \<Rightarrow> db \<Rightarrow> message list" where
  "list_for_crm_push ids d = sort_key msg_id (filter (\<lambda>m. msg_id m \<in> set ids) (msgs d))"

definition mark_pushed :: "int \<Rightarrow> int list \<Rightarrow> db \<Rightarrow> int \<times> db" where
  "mark_pushed now ids d =
     (let hit = (\<lambda>m. msg_id m \<in> set ids \<and> pushed_at m = None)
      in (int (length (filter hit (msgs d))), d\<lparr>msgs := update_where hit (\<lambda>m. m\<lparr>pushed_at := Some now\<rparr>) (msgs d)\<rparr>))"

definition list_pending_push :: "int \<Rightarrow> nat \<Rightarrow> db \<Rightarrow> int list" where
  "list_pending_push window_start limit d =
     take limit (map msg_id (sort_key msg_id (filter (\<lambda>m. pushed_at m = None \<and> window_start < fetched_at m) (msgs d))))"

definition select_expired :: "int \<Rightarrow> nat \<Rightarrow> db \<Rightarrow> int list" where
  \<comment> \<open>the first components of the rows (the inner join drops nothing: the foreign key holds)\<close>
  "select_expired threshold limit d =
     take limit (map msg_id (sort_key msg_id (filter (\<lambda>m. internal_date m < threshold) (msgs d))))"

definition delete_messages :: "int list \<Rightarrow> db \<Rightarrow> int \<times> db" where
  "delete_messages ids d =
     (int (length (filter (\<lambda>m. msg_id m \<in> set ids) (msgs d))), d\<lparr>msgs := filter (\<lambda>m. msg_id m \<notin> set ids) (msgs d)\<rparr>)"

section \<open>The keyset contract\<close>

locale keyset =
  fixes inv :: "'s \<Rightarrow> bool"
    and rank :: "'r \<Rightarrow> int"
    and page :: "'s \<Rightarrow> int option \<Rightarrow> nat \<Rightarrow> 'r list"
    and pool :: "'s \<Rightarrow> 'r list"
  assumes inj_rank: "inv s \<Longrightarrow> distinct (map rank (pool s))"
    and page_take: "inv s \<Longrightarrow> page s c n = take n (page s c (length (pool s)))"
    and page_sorted: "inv s \<Longrightarrow> sorted (map rank (page s c (length (pool s))))"
    and page_distinct: "inv s \<Longrightarrow> distinct (page s c (length (pool s)))"
    and page_set: "inv s \<Longrightarrow> set (page s c (length (pool s)))
          = {r \<in> set (pool s). case c of None \<Rightarrow> True | Some k \<Rightarrow> k < rank r}"
begin

fun walk :: "'s \<Rightarrow> nat \<Rightarrow> nat \<Rightarrow> int option \<Rightarrow> 'r list" where
  \<comment> \<open>a reader that passes the rank of the last row of a page as the next cursor, until a page is empty\<close>
  "walk s n 0 c = []"
| "walk s n (Suc fuel) c = (case page s c n of [] \<Rightarrow> [] | p \<Rightarrow> p @ walk s n fuel (Some (rank (last p))))"

definition rest :: "'s \<Rightarrow> int option \<Rightarrow> 'r list" where
  "rest s c = page s c (length (pool s))"

lemma rank_inj_on: "inv s \<Longrightarrow> inj_on rank (set (pool s))"
  using inj_rank by (simp add: distinct_map)

lemma rest_after_prefix:
  assumes I: "inv s" and eq: "rest s c = p @ q" and p: "p \<noteq> []"
  shows "rest s (Some (rank (last p))) = q"
proof -
  have srt: "sorted (map rank (p @ q))" and dst: "distinct (p @ q)"
    and st: "set (p @ q) = {r \<in> set (pool s). case c of None \<Rightarrow> True | Some k \<Rightarrow> k < rank r}"
    using eq page_sorted [OF I, of c] page_distinct [OF I, of c] page_set [OF I, of c] by (simp_all add: rest_def)
  have inj: "inj_on rank (set (p @ q))" using rank_inj_on [OF I] st by (auto intro: inj_on_subset)
  let ?l = "last p"
  obtain p' where p': "p = p' @ [?l]" using p by (metis append_butlast_last_id)
  have le: "rank r \<le> rank ?l" if "r \<in> set p" for r
  proof -
    have "sorted (map rank p)" using srt by (simp add: sorted_append)
    then have "sorted (map rank p' @ [rank ?l])" using p' by (metis list.simps(8,9) map_append)
    moreover have "r \<in> set p' \<or> r = ?l" using that p' by (metis Un_iff empty_iff list.set(1) set_ConsD set_append)
    ultimately show ?thesis by (auto simp: sorted_append)
  qed
  have gt: "rank ?l < rank r" if "r \<in> set q" for r
  proof -
    have l: "?l \<in> set p" using p by simp
    then have "rank ?l \<le> rank r" using srt that by (auto simp: sorted_append)
    moreover have "rank ?l \<noteq> rank r" using inj dst l that by (auto dest: inj_onD)
    ultimately show ?thesis by simp
  qed
  have c: "case c of None \<Rightarrow> True | Some k \<Rightarrow> k < rank ?l" using st last_in_set [OF p] by auto
  have "set (rest s (Some (rank ?l))) = {r \<in> set (pool s). rank ?l < rank r}"
    by (simp add: rest_def page_set [OF I])
  also have "\<dots> = set q"
  proof (intro equalityI subsetI)
    fix r assume r: "r \<in> {r \<in> set (pool s). rank ?l < rank r}"
    then have "r \<in> set (p @ q)" using c unfolding st by (auto split: option.splits)
    then show "r \<in> set q" using r le by fastforce
  next
    fix r assume "r \<in> set q"
    then show "r \<in> {r \<in> set (pool s). rank ?l < rank r}" using gt st by auto
  qed
  finally have same: "set (rest s (Some (rank ?l))) = set q" .
  moreover have "sorted (map rank q)" "distinct (map rank q)"
    using srt dst inj by (auto simp: sorted_append distinct_map intro: inj_on_subset)
  moreover have "sorted (map rank (rest s (Some (rank ?l))))" "distinct (map rank (rest s (Some (rank ?l))))"
    using page_sorted [OF I] page_distinct [OF I] inj same
    by (auto simp: rest_def distinct_map intro: inj_on_subset)
  moreover have "inj_on rank (set (rest s (Some (rank ?l))) \<union> set q)"
    unfolding same using inj by (auto intro: inj_on_subset)
  ultimately show ?thesis by (intro map_sorted_distinct_set_unique)
qed

lemma walk_complete: "inv s \<Longrightarrow> 0 < n \<Longrightarrow> length (rest s c) \<le> fuel \<Longrightarrow> walk s n fuel c = rest s c"
proof (induction fuel arbitrary: c)
  case 0
  then show ?case by simp
next
  case (Suc fuel)
  have pg: "page s c n = take n (rest s c)" unfolding rest_def by (rule page_take [OF Suc.prems(1)])
  show ?case
  proof (cases "rest s c")
    case Nil
    then show ?thesis by (simp add: pg)
  next
    case (Cons r rs)
    define p where "p = take n (rest s c)"
    have p: "p \<noteq> []" using Cons Suc.prems(2) by (simp add: p_def)
    have split: "rest s c = p @ drop n (rest s c)" by (simp add: p_def)
    have nxt: "rest s (Some (rank (last p))) = drop n (rest s c)"
      by (rule rest_after_prefix [OF Suc.prems(1) split p])
    have "length (drop n (rest s c)) \<le> fuel" using Suc.prems Cons by simp
    then have w: "walk s n fuel (Some (rank (last p))) = drop n (rest s c)"
      using Suc.IH [OF Suc.prems(1,2), of "Some (rank (last p))"] nxt by simp
    have "page s c n = p" by (simp add: pg p_def)
    then have "walk s n (Suc fuel) c = p @ walk s n fuel (Some (rank (last p)))" using p by (cases p) auto
    then show ?thesis using w split by simp
  qed
qed

lemma walk_from_start:
  assumes "inv s" and "0 < n" and "length (pool s) \<le> fuel"
  shows "walk s n fuel None = rest s None" and "set (rest s None) = set (pool s)" and "distinct (rest s None)"
proof -
  have l: "length (rest s None) \<le> length (pool s)"
    unfolding rest_def by (subst page_take [OF assms(1)]) simp
  then show "walk s n fuel None = rest s None" using walk_complete [OF assms(1,2), of None fuel] assms(3) by simp
  show "set (rest s None) = set (pool s)" by (simp add: rest_def page_set [OF assms(1)])
  show "distinct (rest s None)" using page_distinct [OF assms(1)] by (simp add: rest_def)
qed

end

section \<open>The two listings\<close>

definition listing_inv :: "db \<times> int list \<Rightarrow> bool" where
  "listing_inv s \<longleftrightarrow> distinct (map msg_id (msgs (fst s))) \<and> (\<forall>m \<in> set (msgs (fst s)). 0 < msg_id m)"

definition listing_pool :: "db \<times> int list \<Rightarrow> message list" where
  "listing_pool s = in_scope (snd s) (fst s)"

definition forward_page :: "db \<times> int list \<Rightarrow> int option \<Rightarrow> nat \<Rightarrow> message list" where
  \<comment> \<open>a client without a cursor passes \<open>since_id = 0\<close>\<close>
  "forward_page s c n = list_since_id (snd s) (case c of None \<Rightarrow> 0 | Some k \<Rightarrow> k) n (fst s)"

definition backward_page :: "db \<times> int list \<Rightarrow> int option \<Rightarrow> nat \<Rightarrow> message list" where
  "backward_page s c n = list_before_id (snd s) (map_option uminus c) n (fst s)"

lemma in_scope_Nil [simp]: "in_scope [] d = []"
  by (simp add: in_scope_def)

lemma distinct_scope: "distinct (map msg_id (msgs d)) \<Longrightarrow> distinct (map msg_id (filter P (in_scope ids d)))"
  by (simp add: in_scope_def distinct_map_filter)

lemma distinct_pool: "listing_inv s \<Longrightarrow> distinct (map msg_id (filter P (in_scope (snd s) (fst s))))"
  by (auto simp: listing_inv_def intro: distinct_scope)

lemma take_pool: "take (length (in_scope ids d)) (sort_key f (filter P (in_scope ids d))) = sort_key f (filter P (in_scope ids d))"
  "take (length (in_scope ids d)) (rev (sort_key f (filter P (in_scope ids d)))) = rev (sort_key f (filter P (in_scope ids d)))"
  by (simp_all add: le_trans [OF length_filter_le])

lemma sorted_uminus: "sorted (map (\<lambda>m. - f m) (rev xs)) \<longleftrightarrow> sorted (map f (xs :: 'a list))" for f :: "'a \<Rightarrow> int"
proof -
  have "sorted (map (\<lambda>m. - f m) (rev xs)) \<longleftrightarrow> sorted (rev (map (\<lambda>m. - f m) xs))" by (simp add: rev_map)
  also have "\<dots> \<longleftrightarrow> sorted_wrt (\<lambda>x y. y \<le> x) (map (\<lambda>m. - f m) xs)" by (simp add: sorted_wrt_rev)
  also have "\<dots> \<longleftrightarrow> sorted (map f xs)" by (simp add: sorted_wrt_map)
  finally show ?thesis .
qed

interpretation fwd: keyset listing_inv msg_id forward_page listing_pool
proof
  fix s :: "db \<times> int list" and c n
  assume I: "listing_inv s"
  let ?P = "\<lambda>m. (case c of None \<Rightarrow> 0 | Some k \<Rightarrow> k) < msg_id m"
  show "distinct (map msg_id (listing_pool s))"
    using distinct_pool [OF I, of "\<lambda>_. True"] by (simp add: listing_pool_def)
  have full: "forward_page s c (length (listing_pool s)) = sort_key msg_id (filter ?P (in_scope (snd s) (fst s)))"
    by (simp add: forward_page_def list_since_id_def listing_pool_def take_pool)
  show "forward_page s c n = take n (forward_page s c (length (listing_pool s)))"
    unfolding full by (simp add: forward_page_def list_since_id_def)
  show "sorted (map msg_id (forward_page s c (length (listing_pool s))))"
    unfolding full by simp
  show "distinct (forward_page s c (length (listing_pool s)))"
    unfolding full using distinct_pool [OF I, of ?P] by (simp add: distinct_map)
  show "set (forward_page s c (length (listing_pool s)))
      = {r \<in> set (listing_pool s). case c of None \<Rightarrow> True | Some k \<Rightarrow> k < msg_id r}"
    unfolding full using I by (auto simp: listing_pool_def listing_inv_def in_scope_def split: option.splits)
qed

interpretation bwd: keyset listing_inv "\<lambda>m. - msg_id m" backward_page listing_pool
proof
  fix s :: "db \<times> int list" and c n
  assume I: "listing_inv s"
  let ?P = "\<lambda>m. case map_option uminus c of None \<Rightarrow> True | Some b \<Rightarrow> msg_id m < b"
  have inj: "distinct (map (\<lambda>m. - msg_id m) xs) = distinct (map msg_id xs)" for xs
    by (simp add: distinct_map inj_on_def)
  show "distinct (map (\<lambda>m. - msg_id m) (listing_pool s))"
    using distinct_pool [OF I, of "\<lambda>_. True"] by (simp add: listing_pool_def inj)
  have full: "backward_page s c (length (listing_pool s)) = rev (sort_key msg_id (filter ?P (in_scope (snd s) (fst s))))"
    by (simp add: backward_page_def list_before_id_def listing_pool_def take_pool)
  show "backward_page s c n = take n (backward_page s c (length (listing_pool s)))"
    unfolding full by (simp add: backward_page_def list_before_id_def)
  show "sorted (map (\<lambda>m. - msg_id m) (backward_page s c (length (listing_pool s))))"
    unfolding full by (simp only: sorted_uminus) simp
  show "distinct (backward_page s c (length (listing_pool s)))"
    unfolding full using distinct_pool [OF I, of ?P] by (simp add: distinct_map)
  show "set (backward_page s c (length (listing_pool s)))
      = {r \<in> set (listing_pool s). case c of None \<Rightarrow> True | Some k \<Rightarrow> k < - msg_id r}"
    unfolding full by (auto simp: listing_pool_def split: option.splits)
qed

section \<open>The statements keep the table well formed\<close>

lemma insert_cases:
  assumes "insert_message_idempotent now m d = (r, d')"
  obtains (unstorable) "r = Inl db_error" "d' = d" "\<not> message_storable m"
    | (conflict) "r = Inr None" "d' = d\<lparr>msg_seq := msg_seq d + 1\<rparr>" "msg_key m \<in> msg_key ` set (msgs d)" "message_storable m"
    | (orphan) "r = Inl integrity_error" "d' = d\<lparr>msg_seq := msg_seq d + 1\<rparr>" "msg_account_id m \<notin> acc_id ` set (accounts d)"
        "message_storable m"
    | (stored) "r = Inr (Some (msg_seq d))"
        "d' = d\<lparr>msg_seq := msg_seq d + 1, msgs := msgs d @ [m\<lparr>msg_id := msg_seq d, fetched_at := now, pushed_at := None,
            msg_is_read := False\<rparr>]\<rparr>"
        "msg_key m \<notin> msg_key ` set (msgs d)" "msg_account_id m \<in> acc_id ` set (accounts d)" "message_storable m"
  using assms by (auto simp: insert_message_idempotent_def Let_def split: if_splits)

lemma msg_key_update [simp]: "msg_key (m\<lparr>msg_id := i, fetched_at := t, pushed_at := p, msg_is_read := b\<rparr>) = msg_key m"
  "msg_key (m\<lparr>pushed_at := p\<rparr>) = msg_key m"
  by (simp_all add: msg_key_def)

lemma db_ok_msgs:
  "db_ok d \<Longrightarrow> msgs_ok (d\<lparr>msg_seq := n, msgs := ms\<rparr>) \<Longrightarrow> db_ok (d\<lparr>msg_seq := n, msgs := ms\<rparr>)"
  by (simp add: db_ok_def users_ok_def accounts_ok_def)

lemma insert_keeps_db_ok [inv_intros]:
  assumes "insert_message_idempotent now m d = (r, d')" and ok: "db_ok d"
  shows "db_ok d'"
  using assms(1)
proof (cases rule: insert_cases)
  case stored
  have "msgs_ok d" using ok by (simp add: db_ok_def)
  then have "msgs_ok d'"
    using stored by (fastforce simp: msgs_ok_def)
  then show ?thesis unfolding stored(2) using ok by (intro db_ok_msgs)
qed (use ok in \<open>fastforce simp: db_ok_def users_ok_def accounts_ok_def msgs_ok_def\<close>)+

lemma insert_accounts [simp]:
  "accounts (snd (insert_message_idempotent now m d)) = accounts d"
  "users (snd (insert_message_idempotent now m d)) = users d"
  by (simp_all add: insert_message_idempotent_def Let_def)

text \<open>
  C15. Storing a fetched message is idempotent: after a successful insert exactly one row has its key
  (account, UIDVALIDITY, UID), the insert reports \<open>None\<close> exactly when the key was already there (and then
  changes no row), otherwise it reports the id of the one row it added, not yet pushed; repeating it, at
  any time and with any other content under the same key, changes no row; and all table constraints are kept.
\<close>

theorem insert_message_once:
  assumes ok: "db_ok d" and ins: "insert_message_idempotent now m d = (Inr r, d')"
  shows "db_ok d' \<and> length (filter (\<lambda>x. msg_key x = msg_key m) (msgs d')) = 1 \<and>
    (r = None \<longleftrightarrow> msg_key m \<in> msg_key ` set (msgs d)) \<and>
    (r = None \<longrightarrow> msgs d' = msgs d) \<and>
    (\<forall>i. r = Some i \<longrightarrow> (\<exists>x. msgs d' = msgs d @ [x] \<and> msg_id x = i \<and> msg_key x = msg_key m \<and> pushed_at x = None
        \<and> body_text x = body_text m \<and> i \<notin> msg_id ` set (msgs d))) \<and>
    (\<forall>now2 m2. msg_key m2 = msg_key m \<and> message_storable m2 \<longrightarrow>
       (\<exists>d2. insert_message_idempotent now2 m2 d' = (Inr None, d2) \<and> msgs d2 = msgs d'))"
proof -
  have okd': "db_ok d'" by (rule insert_keeps_db_ok [OF ins ok])
  have present: "msg_key m \<in> msg_key ` set (msgs d')"
    using ins by (cases rule: insert_cases) auto
  have one: "length (filter (\<lambda>x. msg_key x = msg_key m) (msgs d')) = 1"
    using okd' present by (intro filter_key_one) (simp_all add: db_ok_def msgs_ok_def)
  have again: "\<exists>d2. insert_message_idempotent now2 m2 d' = (Inr None, d2) \<and> msgs d2 = msgs d'"
    if "msg_key m2 = msg_key m" "message_storable m2" for now2 m2
    using that present by (simp add: insert_message_idempotent_def Let_def)
  have fresh: "msg_seq d \<notin> msg_id ` set (msgs d)"
    using ok by (auto simp: db_ok_def msgs_ok_def)
  from ins show ?thesis
    by (cases rule: insert_cases) (use okd' one again fresh in auto)
qed

definition sample_msg :: "int \<Rightarrow> int \<Rightarrow> message" where
  "sample_msg acc u_id = \<lparr>msg_id = 0, msg_account_id = acc, msg_uid = u_id, msg_uidvalidity = 1,
     message_id_header = None, from_addr = u ''a@b.co'', from_name = None, to_addrs = [], cc_addrs = None,
     msg_subject = Some (u ''hi''), internal_date = 0, body_text = u ''text'', body_html = None,
     body_truncated = False, body_present = True, msg_is_read = False, in_reply_to = None,
     refs_header = None, fetched_at = 0, pushed_at = None\<rparr>"

definition sample_db :: db where
  "sample_db = \<lparr>users = [\<lparr>usr_id = 1, usr_username = u ''crm-service'', usr_email = None, usr_display_name = None,
       usr_password_hash = None, usr_password_encrypted = None, usr_role = ''super_admin'',
       usr_password_reset_required = False\<rparr>],
     accounts = [blank_account\<lparr>acc_id := 1, acc_user_id := 1, email := u ''a@b.co'', encrypted_password := Some [1]\<rparr>],
     msgs = [], acc_seq = 2, msg_seq = 1, usr_seq = 2\<rparr>"

lemma sample_db_ok: "db_ok sample_db"
  by code_simp

theorem insert_message_once_witness:
  "\<exists>d'. insert_message_idempotent 5 (sample_msg 1 7) sample_db = (Inr (Some 1), d') \<and> db_ok d' \<and> length (msgs d') = 1"
proof -
  have "fst (insert_message_idempotent 5 (sample_msg 1 7) sample_db) = Inr (Some 1)" by code_simp
  then obtain d' where i: "insert_message_idempotent 5 (sample_msg 1 7) sample_db = (Inr (Some 1), d')"
    by (metis prod.collapse)
  have "msgs sample_db = []" by (simp add: sample_db_def)
  with insert_message_once [OF sample_db_ok i] i show ?thesis by auto
qed

section \<open>The outbox statements\<close>

lemma mark_pushed_rows:
  "msgs (snd (mark_pushed now ids d)) = map (\<lambda>m. if msg_id m \<in> set ids \<and> pushed_at m = None
      then m\<lparr>pushed_at := Some now\<rparr> else m) (msgs d)"
  by (simp add: mark_pushed_def Let_def update_where_def)

lemma mark_pushed_fields [simp]:
  "accounts (snd (mark_pushed now ids d)) = accounts d" "users (snd (mark_pushed now ids d)) = users d"
  "acc_seq (snd (mark_pushed now ids d)) = acc_seq d" "msg_seq (snd (mark_pushed now ids d)) = msg_seq d"
  "usr_seq (snd (mark_pushed now ids d)) = usr_seq d"
  by (simp_all add: mark_pushed_def Let_def)

text \<open>A second delivery does not move a timestamp.\<close>

lemma mark_pushed_idem: "msgs (snd (mark_pushed t2 ids (snd (mark_pushed t1 ids d)))) = msgs (snd (mark_pushed t1 ids d))"
  unfolding mark_pushed_rows by (simp add: comp_def)

lemma mark_pushed_db_ok [inv_intros]: "db_ok d \<Longrightarrow> db_ok (snd (mark_pushed now ids d))"
proof -
  assume ok: "db_ok d"
  have k: "map msg_id (msgs (snd (mark_pushed now ids d))) = map msg_id (msgs d)"
    "map msg_key (msgs (snd (mark_pushed now ids d))) = map msg_key (msgs d)"
    unfolding mark_pushed_rows by simp_all
  have "msgs_ok (snd (mark_pushed now ids d))"
    using ok unfolding msgs_ok_def k db_ok_def
    by (auto simp: mark_pushed_rows)
  then show ?thesis using ok by (simp add: db_ok_def users_ok_def accounts_ok_def)
qed

lemma set_list_pending_push:
  "i \<in> set (list_pending_push w n d) \<Longrightarrow> \<exists>m \<in> set (msgs d). msg_id m = i \<and> pushed_at m = None \<and> w < fetched_at m"
  unfolding list_pending_push_def by (drule in_set_takeD) auto

lemma list_pending_push_all:
  assumes "length (filter (\<lambda>m. pushed_at m = None \<and> w < fetched_at m) (msgs d)) \<le> n"
  shows "set (list_pending_push w n d) = msg_id ` {m \<in> set (msgs d). pushed_at m = None \<and> w < fetched_at m}"
  using assms by (simp add: list_pending_push_def)

lemma delete_messages_db_ok [inv_intros]: "db_ok d \<Longrightarrow> db_ok (snd (delete_messages ids d))"
  by (auto simp: delete_messages_def db_ok_def users_ok_def accounts_ok_def msgs_ok_def distinct_map_filter)

end
