(* ===== verification/Runtime.thy ===== *)
theory Runtime
  imports Accounts_Repo Messages_Repo Settings "HOL-Library.Multiset"
begin

text \<open>
  The state shared by the jobs and the request handlers: the database, the two CRM queues, the
  force-sync markers, the key-value part of Redis, and the environment of the outgoing calls. Whether the k-th
  Redis command succeeds (\<open>rds_up\<close>) and what the CRM answers to the k-th POST (\<open>crm_reply\<close>: a transport error or a
  status) and the token endpoint to its k-th call (\<open>token_reply\<close>) is unconstrained. \<open>posts\<close> is the trace of the requests sent. Queue items are the JSON values of
  their texts (\<open>None\<close> for a text that is not JSON). Also here: the JSON printer and ISO timestamps.
\<close>

section \<open>JSON and time as text\<close>

definition hex4 :: "int \<Rightarrow> pystr" where
  "hex4 n = map (\<lambda>k. if k < 10 then 48 + k else 87 + k) [n div 4096 mod 16, n div 256 mod 16, n div 16 mod 16, n mod 16]"

definition json_escape :: "int \<Rightarrow> pystr" where
  "json_escape c = (if c = 34 then [92, 34] else if c = 92 then [92, 92] else if c = 10 then [92, 110]
     else if c = 13 then [92, 114] else if c = 9 then [92, 116] else if c = 12 then [92, 102] else if c = 8 then [92, 98]
     else if c < 32 then u [CHR 0x5C, CHR ''u''] @ hex4 c else [c])"

definition json_text :: "pystr \<Rightarrow> pystr" where
  "json_text s = [34] @ concat (map json_escape s) @ [34]"

fun intersperse_concat :: "pystr \<Rightarrow> pystr list \<Rightarrow> pystr" where
  \<comment> \<open>\<open>sep.join(parts)\<close>\<close>
  "intersperse_concat sep [] = []"
| "intersperse_concat sep [x] = x"
| "intersperse_concat sep (x # y # r) = x @ sep @ intersperse_concat sep (y # r)"

fun dump_json :: "json \<Rightarrow> pystr" where
  \<comment> \<open>\<open>json.dumps(body, separators=(COMMA, COLON), ensure_ascii=False)\<close>\<close>
  "dump_json JNull = u ''null''"
| "dump_json (JBool b) = u (if b then ''true'' else ''false'')"
| "dump_json (JInt i) = str_of_int i"
| "dump_json (JStr s) = json_text s"
| "dump_json (JArr xs) = [91] @ intersperse_concat [44] (map dump_json xs) @ [93]"
| "dump_json (JObj kvs) = [123] @ intersperse_concat [44] (map (\<lambda>(k, v). json_text (u k) @ [58] @ dump_json v) kvs) @ [125]"

definition civil :: "int \<Rightarrow> int \<times> int \<times> int" where
  \<comment> \<open>the proleptic Gregorian date of a day number (day 0 is 1970-01-01)\<close>
  "civil z = (let e = (z + 719468) div 146097; doe = (z + 719468) mod 146097;
       yoe = (doe - doe div 1460 + doe div 36524 - doe div 146096) div 365;
       doy = doe - (365 * yoe + yoe div 4 - yoe div 100);
       mp = (5 * doy + 2) div 153;
       m = (if mp < 10 then mp + 3 else mp - 9)
     in (yoe + e * 400 + (if m \<le> 2 then 1 else 0), m, doy - (153 * mp + 2) div 5 + 1))"

definition pad :: "nat \<Rightarrow> int \<Rightarrow> pystr" where
  "pad n i = (let s = str_of_int i in replicate (n - length s) 48 @ s)"

definition iso_utc :: "int \<Rightarrow> pystr" where
  \<comment> \<open>\<open>value.astimezone(UTC).isoformat()\<close> of an instant in microseconds\<close>
  "iso_utc t = (let day = t div 86400000000; us = t mod 86400000000; sec = us div 1000000; frac = us mod 1000000;
       (y, m, d) = civil day
     in pad 4 y @ u ''-'' @ pad 2 m @ u ''-'' @ pad 2 d @ u ''T'' @ pad 2 (sec div 3600) @ u '':'' @ pad 2 (sec div 60 mod 60)
        @ u '':'' @ pad 2 (sec mod 60) @ (if frac = 0 then [] else u ''.'' @ pad 6 frac) @ u ''+00:00'')"

definition iso_or_null :: "int option \<Rightarrow> json" where
  "iso_or_null t = (case t of None \<Rightarrow> JNull | Some x \<Rightarrow> JStr (iso_utc x))"

definition opt_str :: "pystr option \<Rightarrow> json" where
  "opt_str v = (case v of None \<Rightarrow> JNull | Some t \<Rightarrow> JStr t)"

fun json_get :: "string \<Rightarrow> (string \<times> json) list \<Rightarrow> json option" where
  "json_get k [] = None"
| "json_get k ((k', v) # r) = (if k = k' then Some v else json_get k r)"

section \<open>The shared state\<close>

record crm_post =
  post_url :: pystr
  post_headers :: "(string \<times> pystr) list"
  post_content :: bytes

datatype kvval = KText pystr | KState pystr "pystr option" | KCount int
  \<comment> \<open>text; an OAuth state (PKCE verifier, CRM token); a counter\<close>

record world =
  wdb :: db
  push_q :: "json option list"
  status_q :: "json option list"
  force_marks :: "pystr list"
  kv :: "pystr \<Rightarrow> (kvval \<times> int option) option" \<comment> \<open>value and expiry instant\<close>
  rds_up :: "nat \<Rightarrow> bool"
  rds_tick :: nat
  crm_reply :: "nat \<Rightarrow> pyexc + int"
  posts :: "crm_post list"
  token_reply :: "nat \<Rightarrow> pyexc + int \<times> json option" \<comment> \<open>status and JSON body of the k-th call of the token endpoint\<close>
  token_calls :: "(string \<times> pystr) list list"

definition on_db :: "(db, 'a) prog \<Rightarrow> (world, 'a) prog" where
  \<comment> \<open>one session: the statements in a transaction\<close>
  "on_db m w = (case transaction m (wdb w) of (r, d) \<Rightarrow> (r, w\<lparr>wdb := d\<rparr>))"

definition redis_error :: pyexc where
  "redis_error = mk_exc (ESub (u ''ConnectionError'') ERedisError) (u ''Error connecting to redis'')"

definition redis :: "(world \<Rightarrow> 'a \<times> world) \<Rightarrow> (world, 'a) prog" where
  \<comment> \<open>one Redis command\<close>
  "redis f w = (let w1 = w\<lparr>rds_tick := rds_tick w + 1\<rparr>
     in if rds_up w (rds_tick w) then (case f w1 of (x, w2) \<Rightarrow> (Inr x, w2)) else (Inl redis_error, w1))"

definition suppress_all :: "(world, unit) prog \<Rightarrow> (world, unit) prog" where
  \<comment> \<open>\<open>try: ... except Exception: log\<close>\<close>
  "suppress_all m = catchM m (\<lambda>e. if isinstance e EException then ret () else throw e)"

definition http_post :: "pystr \<Rightarrow> (string \<times> pystr) list \<Rightarrow> bytes \<Rightarrow> (world, int) prog" where
  \<comment> \<open>\<open>client.post\<close>: the status, or a transport error\<close>
  "http_post url hdrs body w =
     (crm_reply w (length (posts w)), w\<lparr>posts := posts w @ [\<lparr>post_url = url, post_headers = hdrs, post_content = body\<rparr>]\<rparr>)"

definition idle_world :: "db \<Rightarrow> world" where
  \<comment> \<open>empty queues, Redis up, a CRM that accepts everything\<close>
  "idle_world d = \<lparr>wdb = d, push_q = [], status_q = [], force_marks = [], kv = (\<lambda>_. None), rds_up = (\<lambda>_. True),
     rds_tick = 0, crm_reply = (\<lambda>_. Inr 200), posts = [],
     token_reply = (\<lambda>_. Inl (mk_exc EConnectError [])), token_calls = []\<rparr>"

section \<open>Redis lists\<close>

definition lpush :: "'x list \<Rightarrow> 'x list \<Rightarrow> 'x list" where
  \<comment> \<open>\<open>LPUSH key x1 ... xn\<close> puts the items one by one at the head\<close>
  "lpush xs q = rev xs @ q"

definition lpop :: "nat \<Rightarrow> 'x list \<Rightarrow> 'x list \<times> 'x list" where
  "lpop n q = (take n q, drop n q)"

text \<open>The contract of a work queue: pushing and popping neither lose nor invent items.\<close>

locale work_queue =
  fixes push :: "'x list \<Rightarrow> 'q \<Rightarrow> 'q"
    and pop :: "nat \<Rightarrow> 'q \<Rightarrow> 'x list \<times> 'q"
    and content :: "'q \<Rightarrow> 'x multiset"
  assumes content_push: "content (push xs q) = mset xs + content q"
    and content_pop: "pop n q = (xs, q') \<Longrightarrow> content q = mset xs + content q'"
    and pop_amount: "pop n q = (xs, q') \<Longrightarrow> length xs = min n (size (content q))"
begin

text \<open>A consumer tick: take up to \<open>n\<close> items, drop the unusable ones, and put back all usable ones when the batch fails.\<close>

definition tick :: "nat \<Rightarrow> ('x \<Rightarrow> bool) \<Rightarrow> ('x list \<Rightarrow> bool) \<Rightarrow> 'q \<Rightarrow> 'x list \<times> 'q" where
  "tick n usable accept q = (let (xs, q') = pop n q; ys = filter usable xs
     in if accept ys then (ys, q') else ([], push ys q'))"

lemma tick_conserves:
  assumes "tick n usable accept q = (delivered, q')"
  shows "filter_mset usable (content q) = filter_mset usable (content q') + mset delivered"
proof -
  obtain xs q1 where p: "pop n q = (xs, q1)" by (cases "pop n q")
  then show ?thesis
    using assms content_pop [OF p] by (auto simp: tick_def Let_def content_push mset_filter filter_filter_mset split: if_splits)
qed

lemma tick_progress:
  assumes "tick n usable (\<lambda>_. True) q = (delivered, q')" and "0 < n" and "content q \<noteq> {#}"
  shows "size (content q') < size (content q)"
proof -
  obtain xs q1 where p: "pop n q = (xs, q1)" by (cases "pop n q")
  then have "length xs = min n (size (content q))" by (rule pop_amount)
  then have "0 < length xs" using assms(2,3) by (simp add: nonempty_has_size)
  then show ?thesis using assms(1) content_pop [OF p] p by (auto simp: tick_def)
qed

end

interpretation lq: work_queue lpush lpop mset
proof
  fix n :: nat and xs q q' :: "'a list"
  show "mset (lpush xs q) = mset xs + mset q" by (simp add: lpush_def)
  assume p: "lpop n q = (xs, q')"
  then have "xs = take n q" "q' = drop n q" by (auto simp: lpop_def)
  then show "mset q = mset xs + mset q'" by (metis append_take_drop_id mset_append)
  from p show "length xs = min n (size (mset q))" by (auto simp: lpop_def)
qed

section \<open>Facts\<close>

lemma on_db_app: "on_db m w = (case transaction m (wdb w) of (r, d) \<Rightarrow> (r, w\<lparr>wdb := d\<rparr>))"
  by (simp add: on_db_def)

lemma redis_cases:
  assumes "redis f w = (r, w')"
  obtains (up) x where "rds_up w (rds_tick w)" "f (w\<lparr>rds_tick := rds_tick w + 1\<rparr>) = (x, w')" "r = Inr x"
    | (down) "\<not> rds_up w (rds_tick w)" "r = Inl redis_error" "w' = w\<lparr>rds_tick := rds_tick w + 1\<rparr>"
  using assms by (auto simp: redis_def Let_def split: if_splits prod.splits)

lemma on_db_frame [simp]:
  "push_q (snd (on_db m w)) = push_q w" "status_q (snd (on_db m w)) = status_q w"
  "force_marks (snd (on_db m w)) = force_marks w" "kv (snd (on_db m w)) = kv w"
  "rds_up (snd (on_db m w)) = rds_up w" "rds_tick (snd (on_db m w)) = rds_tick w"
  "crm_reply (snd (on_db m w)) = crm_reply w" "posts (snd (on_db m w)) = posts w"
  "token_reply (snd (on_db m w)) = token_reply w" "token_calls (snd (on_db m w)) = token_calls w"
  by (simp_all add: on_db_def split: prod.splits)

lemma on_db_wdb: "wdb (snd (on_db m w)) = snd (transaction m (wdb w))"
  and on_db_fst: "fst (on_db m w) = fst (transaction m (wdb w))"
  by (simp_all add: on_db_def split: prod.splits)

lemma suppress_all_Inr: "(\<And>e. fst (m w) = Inl e \<Longrightarrow> isinstance e EException) \<Longrightarrow> fst (suppress_all m w) = Inr ()"
  by (auto simp: suppress_all_def catchM_app split: prod.splits sum.splits)

lemma suppress_all_snd: "snd (suppress_all m w) = snd (m w)"
  by (auto simp: suppress_all_def catchM_app split: prod.splits sum.splits)

lemma redis_error_exc [simp]: "isinstance redis_error EException"
  by (simp add: redis_error_def)

end
