(* ===== verification/Crm_Push.thy ===== *)
theory Crm_Push
  imports Runtime
begin

text \<open>
  \<open>backend/app/crm_push/service.py\<close>, \<open>worker/app/crm_push_dispatch.py\<close>, \<open>crm_status_dispatch.py\<close> and
  \<open>crm_push_recovery.py\<close>: signing and posting, the two queues, and the three jobs. HMAC-SHA256 is the parameter
  \<open>mac\<close> (secret and message to hexadecimal text).
\<close>

type_synonym hmac = "bytes \<Rightarrow> bytes \<Rightarrow> pystr"

section \<open>Signed posts\<close>

definition mac_input :: "int \<Rightarrow> bytes \<Rightarrow> bytes" where
  "mac_input timestamp raw_body = str_of_int timestamp @ [46] @ raw_body"

definition build_signature :: "hmac \<Rightarrow> pystr \<Rightarrow> int \<Rightarrow> bytes \<Rightarrow> pyexc + pystr" where
  "build_signature mac secret timestamp raw_body =
     map_sum id (\<lambda>k. mac k (mac_input timestamp raw_body)) (utf8_encode secret)"

definition serialize :: "json \<Rightarrow> pyexc + bytes" where
  "serialize body = utf8_encode (dump_json body)"

definition post_signed :: "hmac \<Rightarrow> settings \<Rightarrow> int \<Rightarrow> pystr \<Rightarrow> json \<Rightarrow> (world, int) prog" where
  \<comment> \<open>\<open>ts\<close> is \<open>int(time.time())\<close>\<close>
  "post_signed mac s ts url body = bindM (liftE (serialize body)) (\<lambda>raw_body.
     bindM (liftE (build_signature mac (CRM_PUSH_SECRET s) ts raw_body)) (\<lambda>signature.
     http_post url
       [(''Content-Type'', u ''application/json''), (''X-Mail-Signature'', u ''sha256='' @ signature),
        (''X-Mail-Timestamp'', str_of_int ts)] raw_body))"

definition rstrip_slash :: "pystr \<Rightarrow> pystr" where
  "rstrip_slash s = rev (dropWhile (\<lambda>c. c = 47) (rev s))"

definition ingest_url :: "settings \<Rightarrow> pystr" where
  "ingest_url s = rstrip_slash (CRM_INGEST_URL s) @ u ''/api/mail/ingest''"

definition status_url :: "settings \<Rightarrow> pystr" where
  "status_url s = rstrip_slash (CRM_MAILBOX_STATUS_URL s) @ u ''/api/mail/mailbox-status''"

section \<open>Queue payloads\<close>

definition push_payload :: "int \<Rightarrow> string \<Rightarrow> json" where
  "push_payload i source = JObj [(''v'', JInt 1), (''message_id'', JInt i), (''source'', JStr (u source))]"

definition int_value :: "json \<Rightarrow> int option" where
  \<comment> \<open>\<open>isinstance(x, int)\<close> and \<open>int(x)\<close>: a Boolean is an integer\<close>
  "int_value j = (case j of JInt i \<Rightarrow> Some i | JBool b \<Rightarrow> Some (if b then 1 else 0) | _ \<Rightarrow> None)"

definition parse_push_payload :: "json option \<Rightarrow> int option" where
  "parse_push_payload raw = (case raw of Some (JObj kvs) \<Rightarrow> Option.bind (json_get ''message_id'' kvs) int_value | _ \<Rightarrow> None)"

definition status_payload :: "int \<Rightarrow> json" where
  "status_payload i = JObj [(''v'', JInt 1), (''mail_account_id'', JInt i)]"

definition parse_status_payload :: "json option \<Rightarrow> int option" where
  "parse_status_payload raw = (case raw of Some (JObj kvs) \<Rightarrow> Option.bind (json_get ''mail_account_id'' kvs) int_value | _ \<Rightarrow> None)"

section \<open>Enqueueing\<close>

definition enqueue_push_ids :: "int list \<Rightarrow> string \<Rightarrow> (world, int) prog" where
  "enqueue_push_ids ids source = (if ids = [] then ret 0
     else bindM (redis (\<lambda>w. ((), w\<lparr>push_q := lpush (map (\<lambda>i. Some (push_payload i source)) ids) (push_q w)\<rparr>)))
       (\<lambda>_. ret (int (length ids))))"

definition enqueue_crm_status :: "int \<Rightarrow> (world, unit) prog" where
  "enqueue_crm_status i = redis (\<lambda>w. ((), w\<lparr>status_q := lpush [Some (status_payload i)] (status_q w)\<rparr>))"

definition enqueue_crm_status_best_effort :: "settings \<Rightarrow> int \<Rightarrow> (world, unit) prog" where
  "enqueue_crm_status_best_effort s i = (if \<not> crm_status_enabled s then ret () else suppress_all (enqueue_crm_status i))"

section \<open>Payload builders\<close>

definition message_to_ingest :: "message \<Rightarrow> json" where
  "message_to_ingest m = JObj [(''mail_account_id'', JInt (msg_account_id m)), (''uidvalidity'', JInt (msg_uidvalidity m)),
     (''uid'', JInt (msg_uid m)), (''message_id_header'', opt_str (message_id_header m)), (''subject'', opt_str (msg_subject m)),
     (''from_addr'', JStr (from_addr m)), (''from_name'', opt_str (from_name m)), (''to_addrs'', JStr (to_addrs m)),
     (''cc_addrs'', opt_str (cc_addrs m)), (''internal_date'', JStr (iso_utc (internal_date m))),
     (''body_text'', JStr (body_text m)), (''body_html'', opt_str (body_html m)),
     (''in_reply_to'', opt_str (in_reply_to m)), (''refs_header'', opt_str (refs_header m))]"

definition account_to_status :: "account \<Rightarrow> json" where
  "account_to_status a = JObj [(''mail_account_id'', JInt (acc_id a)), (''is_active'', JBool (is_active a)),
     (''last_synced_at'', iso_or_null (last_synced_at a)), (''last_sync_error'', opt_str (last_sync_error a)),
     (''consecutive_failures'', JInt (consecutive_failures a))]"

section \<open>The services\<close>

record push_result =
  pr_ok :: bool
  pr_delivered :: int
  pr_marked :: int
  pr_missing :: int

definition push_message_ids :: "hmac \<Rightarrow> settings \<Rightarrow> int \<Rightarrow> int list \<Rightarrow> (world, push_result) prog" where
  \<comment> \<open>\<open>now\<close> in microseconds; the POST goes out inside the session of the caller\<close>
  "push_message_ids mac s now ids =
     bindM (getM (\<lambda>w. list_for_crm_push ids (wdb w))) (\<lambda>ms.
       if ms = [] then ret \<lparr>pr_ok = True, pr_delivered = 0, pr_marked = 0, pr_missing = int (length ids)\<rparr>
       else catchM
        (bindM (post_signed mac s (now div 1000000) (ingest_url s) (JObj [(''messages'', JArr (map message_to_ingest ms))]))
          (\<lambda>status.
            if 200 \<le> status \<and> status < 300 then
              (\<lambda>w. case mark_pushed now (map msg_id ms) (wdb w) of (n, d) \<Rightarrow>
                (Inr \<lparr>pr_ok = True, pr_delivered = int (length ms), pr_marked = n, pr_missing = 0\<rparr>, w\<lparr>wdb := d\<rparr>))
            else ret \<lparr>pr_ok = False, pr_delivered = 0, pr_marked = 0, pr_missing = 0\<rparr>))
        (\<lambda>e. if isinstance e EHTTPError then ret \<lparr>pr_ok = False, pr_delivered = 0, pr_marked = 0, pr_missing = 0\<rparr> else throw e))"

definition list_recovery_candidates :: "int \<Rightarrow> int \<Rightarrow> nat \<Rightarrow> db \<Rightarrow> int list" where
  "list_recovery_candidates now window_hours limit d = list_pending_push (now - window_hours * 3600000000) limit d"

definition push_status :: "hmac \<Rightarrow> settings \<Rightarrow> int \<Rightarrow> int \<Rightarrow> (world, bool) prog" where
  "push_status mac s now i = bindM (getM (\<lambda>w. get_by_id i (wdb w))) (\<lambda>acc. case acc of
       None \<Rightarrow> ret True
     | Some a \<Rightarrow> catchM
         (bindM (post_signed mac s (now div 1000000) (status_url s) (account_to_status a))
           (\<lambda>status. ret (200 \<le> status \<and> status < 300)))
         (\<lambda>e. if isinstance e EHTTPError then ret False else throw e))"

section \<open>The jobs\<close>

definition pop_push :: "nat \<Rightarrow> (world, json option list) prog" where
  "pop_push n = redis (\<lambda>w. case lpop n (push_q w) of (xs, q) \<Rightarrow> (xs, w\<lparr>push_q := q\<rparr>))"

definition pop_status :: "nat \<Rightarrow> (world, json option list) prog" where
  "pop_status n = redis (\<lambda>w. case lpop n (status_q w) of (xs, q) \<Rightarrow> (xs, w\<lparr>status_q := q\<rparr>))"

definition crm_push_dispatch :: "hmac \<Rightarrow> settings \<Rightarrow> int \<Rightarrow> (world, unit) prog" where
  "crm_push_dispatch mac s now = bindM (pop_push (nat (CRM_PUSH_BATCH_SIZE s))) (\<lambda>items.
     let ids = List.map_filter parse_push_payload items in
     if ids = [] then ret ()
     else bindM (push_message_ids mac s now ids) (\<lambda>result.
       if pr_ok result then ret ()
       else suppress_all (seqM (enqueue_push_ids ids ''recovery'') (ret ()))))"

definition status_item :: "hmac \<Rightarrow> settings \<Rightarrow> int \<Rightarrow> int \<Rightarrow> (world, unit) prog" where
  "status_item mac s now i = bindM (catchM (push_status mac s now i)
        (\<lambda>e. if isinstance e EException then ret False else throw e))
     (\<lambda>ok. if ok then ret () else suppress_all (enqueue_crm_status i))"

definition crm_status_dispatch :: "hmac \<Rightarrow> settings \<Rightarrow> int \<Rightarrow> (world, unit) prog" where
  "crm_status_dispatch mac s now = bindM (pop_status (nat (CRM_STATUS_BATCH_SIZE s)))
     (\<lambda>items. for_each (status_item mac s now) (List.map_filter parse_status_payload items))"

definition crm_push_recovery_scan :: "settings \<Rightarrow> int \<Rightarrow> (world, unit) prog" where
  "crm_push_recovery_scan s now =
     bindM (getM (\<lambda>w. list_recovery_candidates now (CRM_PUSH_RECOVERY_WINDOW_HOURS s)
                        (nat (CRM_PUSH_RECOVERY_BATCH_SIZE s)) (wdb w)))
       (\<lambda>ids. if ids = [] then ret () else seqM (enqueue_push_ids ids ''recovery'') (ret ()))"

section \<open>Signatures\<close>

lemma str_of_int_no_dot: "46 \<notin> set (str_of_int i)"
  by (auto simp: str_of_int_def dest: nat_digits_range)

lemma split_at_first: "c \<notin> set a \<Longrightarrow> c \<notin> set a' \<Longrightarrow> a @ c # b = a' @ c # b' \<Longrightarrow> a = a' \<and> b = b'"
  by (induction a arbitrary: a') (auto simp: Cons_eq_append_conv append_eq_Cons_conv)

text \<open>
  The signed bytes determine the timestamp and the body: two requests with the same MAC input have the
  same timestamp and the same body, so a signature cannot be replayed on another body or time.
\<close>

theorem mac_input_unambiguous:
  assumes "mac_input t b = mac_input t' b'"
  shows "t = t' \<and> b = b'"
proof -
  have "str_of_int t = str_of_int t' \<and> b = b'"
    using assms split_at_first [OF str_of_int_no_dot str_of_int_no_dot] by (simp add: mac_input_def)
  then show ?thesis using str_of_int_inj by blast
qed

theorem mac_input_unambiguous_witness:
  "mac_input 7 [46, 49] = mac_input 7 [46, 49] \<and> (7::int) = 7 \<and> [46, 49] = [46, 49 :: int]"
  using mac_input_unambiguous [of 7 "[46, 49]" 7 "[46, 49]"] by simp

text \<open>What is posted is what was signed.\<close>

lemma post_signed_cases:
  assumes "post_signed mac s ts url body w = (r, w')"
  obtains (sent) raw sec where "serialize body = Inr raw" "utf8_encode (CRM_PUSH_SECRET s) = Inr sec"
      "r = crm_reply w (length (posts w))"
      "w' = w\<lparr>posts := posts w @ [\<lparr>post_url = url, post_headers = [(''Content-Type'', u ''application/json''),
          (''X-Mail-Signature'', u ''sha256='' @ mac sec (mac_input ts raw)), (''X-Mail-Timestamp'', str_of_int ts)],
          post_content = raw\<rparr>]\<rparr>"
    | (unencodable) e where "r = Inl e" "w' = w" "\<not> isinstance e EHTTPError"
        "\<not> (\<exists>raw sec. serialize body = Inr raw \<and> utf8_encode (CRM_PUSH_SECRET s) = Inr sec)"
proof (cases "serialize body")
  case (Inl e)
  then have "e = mk_exc (ESub (u ''UnicodeEncodeError'') EValueError) []"
    by (auto simp: serialize_def utf8_encode_def split: if_splits)
  then show ?thesis using assms Inl unencodable by (auto simp: post_signed_def bindM_app)
next
  case (Inr raw)
  show ?thesis
  proof (cases "utf8_encode (CRM_PUSH_SECRET s)")
    case (Inl e)
    then have "e = mk_exc (ESub (u ''UnicodeEncodeError'') EValueError) []"
      by (auto simp: utf8_encode_def split: if_splits)
    then show ?thesis using assms Inl Inr unencodable by (auto simp: post_signed_def bindM_app build_signature_def)
  next
    case (Inr sec)
    then show ?thesis using assms \<open>serialize body = Inr raw\<close> sent
      by (auto simp: post_signed_def bindM_app build_signature_def http_post_def)
  qed
qed

section \<open>Delivery marks\<close>

lemma list_for_crm_push_set: "set (list_for_crm_push ids d) = {m \<in> set (msgs d). msg_id m \<in> set ids}"
  by (auto simp: list_for_crm_push_def)

lemma mark_pushed_loaded: "mark_pushed now (map msg_id (list_for_crm_push ids d)) d = mark_pushed now ids d"
proof -
  have "m \<in> set (msgs d) \<Longrightarrow> msg_id m \<in> set (map msg_id (list_for_crm_push ids d)) \<longleftrightarrow> msg_id m \<in> set ids" for m
    by (auto simp: list_for_crm_push_set)
  then show ?thesis
    by (simp add: mark_pushed_def Let_def update_where_def cong: filter_cong map_cong)
qed

definition ingest_body :: "message list \<Rightarrow> json" where
  "ingest_body ms = JObj [(''messages'', JArr (map message_to_ingest ms))]"

lemma push_message_ids_cases:
  assumes "push_message_ids mac s now ids w = (r, w')"
  obtains (nothing) "list_for_crm_push ids (wdb w) = []" "w' = w"
      "r = Inr \<lparr>pr_ok = True, pr_delivered = 0, pr_marked = 0, pr_missing = int (length ids)\<rparr>"
    | (accepted) p st n where "crm_reply w (length (posts w)) = Inr st" "200 \<le> st" "st < 300"
        "serialize (ingest_body (list_for_crm_push ids (wdb w))) = Inr (post_content p)"
        "w' = w\<lparr>posts := posts w @ [p], wdb := snd (mark_pushed now ids (wdb w))\<rparr>"
        "r = Inr \<lparr>pr_ok = True, pr_delivered = int (length (list_for_crm_push ids (wdb w))), pr_marked = n, pr_missing = 0\<rparr>"
    | (refused) p where "w' = w\<lparr>posts := posts w @ [p]\<rparr>" "r = Inr \<lparr>pr_ok = False, pr_delivered = 0, pr_marked = 0, pr_missing = 0\<rparr>"
        "serialize (ingest_body (list_for_crm_push ids (wdb w))) = Inr (post_content p)"
        "\<not> (\<exists>st. crm_reply w (length (posts w)) = Inr st \<and> 200 \<le> st \<and> st < 300)"
    | (crash) e ps where "r = Inl e" "w' = w\<lparr>posts := ps\<rparr>" "\<not> isinstance e EHTTPError"
        "crm_reply w (length (posts w)) = Inl e \<or> \<not> (\<exists>raw sec.
           serialize (ingest_body (list_for_crm_push ids (wdb w))) = Inr raw \<and> utf8_encode (CRM_PUSH_SECRET s) = Inr sec)"
proof -
  let ?ms = "list_for_crm_push ids (wdb w)"
  show ?thesis
  proof (cases "?ms = []")
    case True
    show ?thesis by (rule nothing) (use assms True in \<open>auto simp: push_message_ids_def bindM_app\<close>)
  next
    case False
    obtain r1 w1 where p: "post_signed mac s (now div 1000000) (ingest_url s) (ingest_body ?ms) w = (r1, w1)"
      by (cases "post_signed mac s (now div 1000000) (ingest_url s) (ingest_body ?ms) w")
    let ?bad = "\<lparr>pr_ok = False, pr_delivered = 0, pr_marked = 0, pr_missing = 0\<rparr>"
    have w1: "wdb w1 = wdb w" using p by (cases rule: post_signed_cases) auto
    obtain n d where mp: "mark_pushed now ids (wdb w) = (n, d)" by (cases "mark_pushed now ids (wdb w)")
    have run: "(r, w') = (case r1 of
        Inl e \<Rightarrow> if isinstance e EHTTPError then (Inr ?bad, w1) else (Inl e, w1)
      | Inr st \<Rightarrow> if 200 \<le> st \<and> st < 300
          then (Inr \<lparr>pr_ok = True, pr_delivered = int (length ?ms), pr_marked = n, pr_missing = 0\<rparr>, w1\<lparr>wdb := d\<rparr>)
          else (Inr ?bad, w1))"
      unfolding assms [symmetric] push_message_ids_def bindM_app catchM_app getM_app prod.case sum.case
        ingest_body_def [symmetric]
      using False p by (simp add: mark_pushed_loaded w1 mp split: sum.splits)
    from p show ?thesis
    proof (cases rule: post_signed_cases)
      case (sent raw sec)
      define q where "q = \<lparr>post_url = ingest_url s, post_headers = [(''Content-Type'', u ''application/json''),
          (''X-Mail-Signature'', u ''sha256='' @ mac sec (mac_input (now div 1000000) raw)),
          (''X-Mail-Timestamp'', str_of_int (now div 1000000))], post_content = raw\<rparr>"
      have w1q: "w1 = w\<lparr>posts := posts w @ [q]\<rparr>" and raw: "serialize (ingest_body ?ms) = Inr (post_content q)"
        using sent by (simp_all add: q_def)
      show ?thesis
      proof (cases r1)
        case (Inl e)
        show ?thesis
        proof (cases "isinstance e EHTTPError")
          case True
          then show ?thesis using run Inl w1q raw sent(3) by (intro refused [of q]) auto
        next
          case False
          then show ?thesis using run Inl w1q sent(3) by (intro crash [of e "posts w1"]) auto
        qed
      next
        case (Inr st)
        show ?thesis
        proof (cases "200 \<le> st \<and> st < 300")
          case True
          then have "w' = w1\<lparr>wdb := d\<rparr>" "r = Inr \<lparr>pr_ok = True, pr_delivered = int (length ?ms), pr_marked = n, pr_missing = 0\<rparr>"
            using run Inr by auto
          then show ?thesis using True raw sent(3) Inr mp by (intro accepted [of st q n]) (auto simp: w1q)
        next
          case False
          then show ?thesis using run Inr w1q raw sent(3) by (intro refused [of q]) auto
        qed
      qed
    next
      case (unencodable e)
      then show ?thesis using run by (intro crash [of e "posts w"]) auto
    qed
  qed
qed

lemma pop_push_up:
  assumes "rds_up w (rds_tick w)"
  shows "pop_push n w = (Inr (take n (push_q w)), w\<lparr>rds_tick := rds_tick w + 1, push_q := drop n (push_q w)\<rparr>)"
  using assms by (simp add: pop_push_def redis_def lpop_def Let_def)

definition queued_ids :: "json option list \<Rightarrow> int list" where
  "queued_ids q = List.map_filter parse_push_payload q"

lemma parse_own_payload [simp]: "parse_push_payload (Some (push_payload i src)) = Some i"
  by (simp add: parse_push_payload_def push_payload_def int_value_def)

lemma queued_ids_simps [simp]: "queued_ids [] = []" "queued_ids (xs @ ys) = queued_ids xs @ queued_ids ys"
  "queued_ids (rev (map (\<lambda>i. Some (push_payload i src)) ids)) = rev ids"
proof -
  show "queued_ids (xs @ ys) = queued_ids xs @ queued_ids ys" for xs ys
    by (simp add: queued_ids_def map_filter_def)
  then show "queued_ids (rev (map (\<lambda>i. Some (push_payload i src)) ids)) = rev ids"
    by (induction ids) (simp_all add: queued_ids_def map_filter_simps)
qed (simp add: queued_ids_def map_filter_simps)

text \<open>One tick, while Redis answers.\<close>

lemma dispatch_cases:
  assumes "crm_push_dispatch mac s now w = (r, w')" and all_up: "\<forall>k. rds_up w k"
  defines "n \<equiv> nat (CRM_PUSH_BATCH_SIZE s)"
  defines "ids \<equiv> queued_ids (take n (push_q w))" and "ms \<equiv> list_for_crm_push (queued_ids (take n (push_q w))) (wdb w)"
  obtains (nothing) "ms = []" "r = Inr ()" "wdb w' = wdb w" "posts w' = posts w" "push_q w' = drop n (push_q w)"
      "rds_up w' = rds_up w" "crm_reply w' = crm_reply w"
    | (accepted) p st where "ms \<noteq> []" "r = Inr ()" "crm_reply w (length (posts w)) = Inr st" "200 \<le> st" "st < 300"
        "posts w' = posts w @ [p]" "serialize (ingest_body ms) = Inr (post_content p)"
        "wdb w' = snd (mark_pushed now ids (wdb w))" "push_q w' = drop n (push_q w)"
        "rds_up w' = rds_up w" "crm_reply w' = crm_reply w"
    | (refused) p where "r = Inr ()" "wdb w' = wdb w" "posts w' = posts w @ [p]"
        "serialize (ingest_body ms) = Inr (post_content p)"
        "\<not> (\<exists>st. crm_reply w (length (posts w)) = Inr st \<and> 200 \<le> st \<and> st < 300)"
        "push_q w' = rev (map (\<lambda>i. Some (push_payload i ''recovery'')) ids) @ drop n (push_q w)"
        "rds_up w' = rds_up w" "crm_reply w' = crm_reply w"
    | (crash) e where "r = Inl e" "wdb w' = wdb w" "\<not> isinstance e EHTTPError" "push_q w' = drop n (push_q w)"
        "crm_reply w (length (posts w)) = Inl e \<or>
          \<not> (\<exists>raw sec. serialize (ingest_body ms) = Inr raw \<and> utf8_encode (CRM_PUSH_SECRET s) = Inr sec)"
proof -
  have up: "rds_up w k" for k using all_up by simp
  define w1 where "w1 = w\<lparr>rds_tick := rds_tick w + 1, push_q := drop n (push_q w)\<rparr>"
  have w1: "wdb w1 = wdb w" "posts w1 = posts w" "crm_reply w1 = crm_reply w" "rds_up w1 = rds_up w"
    "push_q w1 = drop n (push_q w)" "rds_up w1 (rds_tick w1)" by (simp_all add: w1_def up)
  have pop: "pop_push n w = (Inr (take n (push_q w)), w1)" by (simp add: pop_push_up up w1_def)
  have items: "List.map_filter parse_push_payload (take n (push_q w)) = ids" by (simp add: ids_def queued_ids_def n_def)
  have run: "crm_push_dispatch mac s now w = (if ids = [] then ret ()
      else bindM (push_message_ids mac s now ids) (\<lambda>result. if pr_ok result then ret ()
        else suppress_all (seqM (enqueue_push_ids ids ''recovery'') (ret ())))) w1"
    unfolding crm_push_dispatch_def bindM_app [of "pop_push _"] n_def [symmetric] pop prod.case sum.case Let_def items
    by (rule refl)
  show ?thesis
  proof (cases "ids = []")
    case True
    have "ms = []" using True by (simp add: ms_def ids_def [symmetric] list_for_crm_push_def)
    show ?thesis by (rule nothing) (use \<open>ms = []\<close> run True assms(1) w1 in auto)
  next
    case False
    obtain r2 w2 where p2: "push_message_ids mac s now ids w1 = (r2, w2)" by (cases "push_message_ids mac s now ids w1")
    have ms: "list_for_crm_push ids (wdb w1) = ms" by (simp add: ms_def ids_def w1)
    from p2 show ?thesis
    proof (cases rule: push_message_ids_cases)
      case nothing': nothing
      show ?thesis by (rule nothing) (use run False assms(1) p2 nothing' w1 ms in \<open>auto simp: bindM_app\<close>)
    next
      case acc: (accepted p st k)
      have "ms \<noteq> []"
      proof
        assume "ms = []"
        then have "push_message_ids mac s now ids w1 = (Inr \<lparr>pr_ok = True, pr_delivered = 0, pr_marked = 0, pr_missing = int (length ids)\<rparr>, w1)"
          by (simp add: push_message_ids_def bindM_app ms)
        then show False using p2 acc w1 by (auto dest: arg_cong [of _ _ posts])
      qed
      show ?thesis by (rule accepted [of st p]) (use run False assms(1) p2 acc w1 ms \<open>ms \<noteq> []\<close> in \<open>auto simp: bindM_app\<close>)
    next
      case ref: (refused p)
      have e: "suppress_all (seqM (enqueue_push_ids ids ''recovery'') (ret ())) w2 =
        (Inr (), w2\<lparr>rds_tick := rds_tick w2 + 1, push_q := rev (map (\<lambda>i. Some (push_payload i ''recovery'')) ids) @ push_q w2\<rparr>)"
        using False w1 ref by (simp add: suppress_all_def catchM_app enqueue_push_ids_def redis_def bindM_app lpush_def up)
      show ?thesis by (rule refused [of p]) (use run False assms(1) p2 ref w1 ms e in \<open>auto simp: bindM_app\<close>)
    next
      case cr: (crash e ps)
      have why: "crm_reply w (length (posts w)) = Inl e \<or>
          \<not> (\<exists>raw sec. serialize (ingest_body ms) = Inr raw \<and> utf8_encode (CRM_PUSH_SECRET s) = Inr sec)"
        using cr(4) by (simp add: w1 ms [unfolded w1])
      show ?thesis by (rule crash [of e, OF _ _ _ _ why]) (use run False assms(1) p2 cr w1 in \<open>auto simp: bindM_app\<close>)
    qed
  qed
qed

text \<open>
  C24. A delivery mark is written only on an accepted POST: if one dispatcher tick changes any row of \<open>messages\<close>,
  then it sent exactly one POST, the CRM answered it with a 2xx status, its content is the serialised ingest body
  of the very messages that got the mark, and no other column or row changed; a mark once set is never moved.
\<close>

theorem pushed_only_when_accepted:
  assumes "crm_push_dispatch mac s now w = (r, w')" and "\<forall>k. rds_up w k"
  shows "msgs (wdb w') = msgs (wdb w) \<or>
    (\<exists>p st ms. posts w' = posts w @ [p] \<and> crm_reply w (length (posts w)) = Inr st \<and> 200 \<le> st \<and> st < 300 \<and>
       serialize (ingest_body ms) = Inr (post_content p) \<and> set ms \<subseteq> set (msgs (wdb w)) \<and>
       msgs (wdb w') = map (\<lambda>m. if m \<in> set ms \<and> pushed_at m = None then m\<lparr>pushed_at := Some now\<rparr> else m) (msgs (wdb w)))"
proof -
  let ?ids = "queued_ids (take (nat (CRM_PUSH_BATCH_SIZE s)) (push_q w))"
  from assms(1,2) show ?thesis
  proof (cases rule: dispatch_cases)
    case (accepted p st)
    let ?ms = "list_for_crm_push ?ids (wdb w)"
    have "msgs (wdb w') = map (\<lambda>m. if m \<in> set ?ms \<and> pushed_at m = None then m\<lparr>pushed_at := Some now\<rparr> else m) (msgs (wdb w))"
      using accepted by (simp add: mark_pushed_rows list_for_crm_push_set)
    moreover have "set ?ms \<subseteq> set (msgs (wdb w))" by (auto simp: list_for_crm_push_set)
    ultimately show ?thesis using accepted by blast
  qed auto
qed


section \<open>The head of the queue and recovery\<close>

lemma list_for_crm_push_cong: "set ids = set ids' \<Longrightarrow> list_for_crm_push ids d = list_for_crm_push ids' d"
  by (simp add: list_for_crm_push_def)

fun dispatch_ticks :: "hmac \<Rightarrow> settings \<Rightarrow> int \<Rightarrow> nat \<Rightarrow> (world, unit) prog" where
  \<comment> \<open>the scheduler: ticks one after the other, never overlapping\<close>
  "dispatch_ticks mac s now 0 = ret ()"
| "dispatch_ticks mac s now (Suc k) = seqM (crm_push_dispatch mac s now) (dispatch_ticks mac s now k)"

text \<open>A refused batch goes back to the head it was taken from.\<close>

lemma refused_tick:
  assumes up: "\<forall>k. rds_up w k" and rej: "\<forall>k. \<forall>st. crm_reply w k = Inr st \<longrightarrow> \<not> (200 \<le> st \<and> st < 300)"
    and http: "\<forall>k e. crm_reply w k = Inl e \<longrightarrow> isinstance e EHTTPError"
    and n: "n = nat (CRM_PUSH_BATCH_SIZE s)" and full: "length (push_q w) \<ge> n"
    and ids: "length (queued_ids (take n (push_q w))) = n"
    and ms: "list_for_crm_push (queued_ids (take n (push_q w))) (wdb w) \<noteq> []"
    and ser: "serialize (ingest_body (list_for_crm_push (queued_ids (take n (push_q w))) (wdb w))) = Inr raw"
    and sec: "utf8_encode (CRM_PUSH_SECRET s) = Inr key"
  shows "\<exists>w'. crm_push_dispatch mac s now w = (Inr (), w') \<and> wdb w' = wdb w \<and> rds_up w' = rds_up w \<and> crm_reply w' = crm_reply w
    \<and> drop n (push_q w') = drop n (push_q w) \<and> length (queued_ids (take n (push_q w'))) = n \<and> n \<le> length (push_q w')
    \<and> set (queued_ids (take n (push_q w'))) = set (queued_ids (take n (push_q w)))
    \<and> (\<exists>p. posts w' = posts w @ [p] \<and> post_content p = raw)"
proof -
  let ?ids = "queued_ids (take n (push_q w))"
  obtain r w' where d: "crm_push_dispatch mac s now w = (r, w')" by (cases "crm_push_dispatch mac s now w")
  from d up show ?thesis
  proof (cases rule: dispatch_cases)
    case idle: nothing
    then show ?thesis using ms n by simp
  next
    case (accepted p st)
    then show ?thesis using rej by blast
  next
    case (refused p)
    have "take n (push_q w') = rev (map (\<lambda>i. Some (push_payload i ''recovery'')) ?ids)"
      "drop n (push_q w') = drop n (push_q w)"
      using refused(6) ids n by simp_all
    then show ?thesis using d refused ser n ids full by auto
  next
    case (crash e)
    then have False using http ser sec unfolding n by blast
    then show ?thesis ..
  qed
qed

text \<open>
  The ingest queue is a stack: a batch the CRM keeps refusing returns to the end it is popped from, so while
  the refusal lasts every tick posts that same batch again, and no entry behind it is ever posted, however many ticks run.
\<close>

theorem refused_batch_blocks_queue:
  assumes "\<forall>k. rds_up w k" and "\<forall>k. \<forall>st. crm_reply w k = Inr st \<longrightarrow> \<not> (200 \<le> st \<and> st < 300)"
    and "\<forall>k e. crm_reply w k = Inl e \<longrightarrow> isinstance e EHTTPError"
    and "n = nat (CRM_PUSH_BATCH_SIZE s)" and "n \<le> length (push_q w)"
    and "length (queued_ids (take n (push_q w))) = n"
    and "list_for_crm_push (queued_ids (take n (push_q w))) (wdb w) \<noteq> []"
    and "serialize (ingest_body (list_for_crm_push (queued_ids (take n (push_q w))) (wdb w))) = Inr raw"
    and "utf8_encode (CRM_PUSH_SECRET s) = Inr key"
  shows "\<exists>w'. dispatch_ticks mac s now k w = (Inr (), w') \<and> drop n (push_q w') = drop n (push_q w) \<and>
    wdb w' = wdb w \<and> (\<exists>ps. posts w' = posts w @ ps \<and> length ps = k \<and> (\<forall>p \<in> set ps. post_content p = raw))"
  using assms
proof (induction k arbitrary: w)
  case 0
  then show ?case by auto
next
  case (Suc k)
  obtain w1 where w1: "crm_push_dispatch mac s now w = (Inr (), w1)" "wdb w1 = wdb w" "rds_up w1 = rds_up w"
      "crm_reply w1 = crm_reply w" "drop n (push_q w1) = drop n (push_q w)"
      "length (queued_ids (take n (push_q w1))) = n" "n \<le> length (push_q w1)"
      "set (queued_ids (take n (push_q w1))) = set (queued_ids (take n (push_q w)))"
      and p: "\<exists>p. posts w1 = posts w @ [p] \<and> post_content p = raw"
    using refused_tick [OF Suc.prems(1-9)] by blast
  have same: "list_for_crm_push (queued_ids (take n (push_q w1))) (wdb w1) = list_for_crm_push (queued_ids (take n (push_q w))) (wdb w)"
    using list_for_crm_push_cong [OF w1(8), of "wdb w1"] w1(2) by simp
  obtain w2 ps where w2: "dispatch_ticks mac s now k w1 = (Inr (), w2)" "drop n (push_q w2) = drop n (push_q w1)"
      "wdb w2 = wdb w1" "posts w2 = posts w1 @ ps" "length ps = k" "\<forall>p \<in> set ps. post_content p = raw"
    using Suc.IH [of w1] Suc.prems w1 same by auto
  obtain q where q: "posts w1 = posts w @ [q]" "post_content q = raw" using p by blast
  have "dispatch_ticks mac s now (Suc k) w = (Inr (), w2)" by (simp add: bindM_app w1(1) w2(1))
  then show ?case using w1 w2 q by (intro exI [of _ w2]) (auto intro!: exI [of _ "q # ps"])
qed


section \<open>Concrete runs\<close>

definition push_settings :: settings where
  "push_settings = default_settings\<lparr>CRM_INGEST_URL := u ''https://crm'', CRM_MAILBOX_STATUS_URL := u ''https://crm'',
     CRM_PUSH_SECRET := u ''k'', CRM_PUSH_BATCH_SIZE := 1\<rparr>"

definition two_msgs :: db where
  "two_msgs = sample_db\<lparr>msgs := [(sample_msg 1 7)\<lparr>msg_id := 1\<rparr>, (sample_msg 1 8)\<lparr>msg_id := 2\<rparr>], msg_seq := 3\<rparr>"

definition push_world :: "int \<Rightarrow> world" where
  "push_world st = (idle_world two_msgs)\<lparr>push_q := [Some (push_payload 1 ''sync''), Some (push_payload 2 ''sync'')],
     crm_reply := (\<lambda>_. Inr st)\<rparr>"

definition plain_mac :: hmac where
  "plain_mac k m = k @ m"

lemma push_world_up: "\<forall>k. rds_up (push_world st) k"
  by (simp add: push_world_def idle_world_def)

theorem pushed_only_when_accepted_witness:
  "\<exists>w' p. crm_push_dispatch plain_mac push_settings 5 (push_world 200) = (Inr (), w') \<and>
     map pushed_at (msgs (wdb w')) = [Some 5, None] \<and> posts w' = [p]"
proof -
  let ?r = "crm_push_dispatch plain_mac push_settings 5 (push_world 200)"
  have r: "fst ?r = Inr () \<and> map pushed_at (msgs (wdb (snd ?r))) = [Some 5, None]" by code_simp
  then have d: "?r = (Inr (), snd ?r)" by (simp add: prod_eq_iff)
  have "map pushed_at (msgs (wdb (push_world 200))) = [None, None]" by code_simp
  then have "msgs (wdb (snd ?r)) \<noteq> msgs (wdb (push_world 200))" using r by auto
  moreover have "posts (push_world 200) = []" by (simp add: push_world_def idle_world_def)
  ultimately have "\<exists>p. posts (snd ?r) = [p]" using pushed_only_when_accepted [OF d push_world_up] by auto
  then obtain p where "posts (snd ?r) = [p]" by blast
  then show ?thesis using d r by (intro exI [of _ "snd ?r"] exI [of _ p]) simp
qed


theorem refused_batch_blocks_queue_witness:
  "\<exists>w'. dispatch_ticks plain_mac push_settings 5 10 (push_world 422) = (Inr (), w') \<and> length (posts w') = 10 \<and>
     drop 1 (push_q w') = [Some (push_payload 2 ''sync'')]"
proof -
  let ?w = "push_world 422"
  have a: "\<forall>k. \<forall>st. crm_reply ?w k = Inr st \<longrightarrow> \<not> (200 \<le> st \<and> st < 300)"
    and b: "\<forall>k e. crm_reply ?w k = Inl e \<longrightarrow> isinstance e EHTTPError" by (simp_all add: push_world_def)
  have n: "1 = nat (CRM_PUSH_BATCH_SIZE push_settings)" by (simp add: push_settings_def)
  have c: "1 \<le> length (push_q ?w)" "length (queued_ids (take 1 (push_q ?w))) = 1" by code_simp+
  have ids: "queued_ids (take 1 (push_q ?w)) = [1]" by code_simp
  have ms: "map msg_id (list_for_crm_push [1] (wdb ?w)) = [1]" by code_simp
  then have d: "list_for_crm_push (queued_ids (take 1 (push_q ?w))) (wdb ?w) \<noteq> []" unfolding ids by auto
  have "case serialize (ingest_body (list_for_crm_push [1] (wdb ?w))) of Inl _ \<Rightarrow> False | Inr _ \<Rightarrow> True" by code_simp
  then obtain raw where e: "serialize (ingest_body (list_for_crm_push (queued_ids (take 1 (push_q ?w))) (wdb ?w))) = Inr raw"
    unfolding ids by (auto split: sum.splits)
  have f: "utf8_encode (CRM_PUSH_SECRET push_settings) = Inr [107]" by code_simp
  have g: "posts ?w = []" "drop 1 (push_q ?w) = [Some (push_payload 2 ''sync'')]" by (simp_all add: push_world_def idle_world_def)
  from refused_batch_blocks_queue [OF push_world_up a b n c(1,2) d e f, of plain_mac 5 10] show ?thesis using g by auto
qed

definition recovery_world :: world where
  "recovery_world = (idle_world (sample_db\<lparr>msgs := [(sample_msg 1 7)\<lparr>msg_id := 1, fetched_at := 3\<rparr>], msg_seq := 2\<rparr>))"


end
