(* ===== verification/Crypto.thy ===== *)
theory Crypto
  imports Settings "HOL-Library.Countable"
begin

text \<open>
  \<open>shared/crypto.py\<close>: the mail-password cipher. AES-256-GCM is the third-party primitive, a
  parameter \<open>aead\<close> with an encryption and an authenticated decryption; \<open>aead_ok\<close> is its
  documented contract (decryption inverts encryption under the same key, nonce and associated data, a
  ciphertext authenticated under another key or other associated data is rejected, the tag adds 16
  bytes). A blob is \<open>version || iv || ciphertext\<close>; the associated data is the row id.
\<close>

record aead =
  aes_enc :: "bytes \<Rightarrow> bytes \<Rightarrow> bytes \<Rightarrow> bytes \<Rightarrow> bytes" \<comment> \<open>key, nonce, data, associated data\<close>
  aes_dec :: "bytes \<Rightarrow> bytes \<Rightarrow> bytes \<Rightarrow> bytes \<Rightarrow> bytes option"

definition aead_ok :: "aead \<Rightarrow> bool" where
  "aead_ok a \<longleftrightarrow>
     (\<forall>k iv p ad. aes_dec a k iv (aes_enc a k iv p ad) ad = Some p \<and> length (aes_enc a k iv p ad) = length p + 16) \<and>
     (\<forall>k iv p ad k' ad'. (k', ad') \<noteq> (k, ad) \<longrightarrow> aes_dec a k' iv (aes_enc a k iv p ad) ad' = None)"

definition VERSION_CURRENT :: int where
  "VERSION_CURRENT = 1"

definition VERSION_PREV :: int where
  "VERSION_PREV = 0"

definition IV_LEN :: nat where
  "IV_LEN = 12"

definition HEADER_LEN :: nat where
  "HEADER_LEN = 1 + IV_LEN"

definition AAD_PREFIX :: bytes where
  "AAD_PREFIX = u ''mail_account_password|''"

definition aad_for :: "int \<Rightarrow> pyexc + bytes" where
  "aad_for acc = (if acc \<le> 0
     then Inl (mk_exc EValueError (u ''mail_account_id must be a positive integer for AAD''))
     else Inr (AAD_PREFIX @ str_of_int acc))"

record cipher =
  ck_current :: bytes
  ck_prev :: "bytes option"

definition mk_cipher :: "bytes \<Rightarrow> bytes option \<Rightarrow> pyexc + cipher" where
  "mk_cipher cur prev =
     (if length cur \<noteq> 32 then Inl (mk_exc EValueError (u ''current_key must be 32 bytes''))
      else if (case prev of None \<Rightarrow> False | Some p \<Rightarrow> length p \<noteq> 32)
        then Inl (mk_exc EValueError (u ''prev_key must be 32 bytes (or None)''))
      else Inr \<lparr>ck_current = cur, ck_prev = prev\<rparr>)"

definition cipher_from_settings :: "settings \<Rightarrow> pyexc + cipher" where
  "cipher_from_settings s = (case master_key_bytes s of
       None \<Rightarrow> Inl (mk_exc (ESub (u ''binascii.Error'') EValueError) [])
     | Some k \<Rightarrow> mk_cipher k (master_key_prev_bytes s))"

definition encrypt_with_aad :: "aead \<Rightarrow> cipher \<Rightarrow> bytes \<Rightarrow> pystr \<Rightarrow> bytes \<Rightarrow> pyexc + bytes" where
  \<comment> \<open>\<open>iv\<close> is the value of \<open>os.urandom(IV_LEN)\<close>\<close>
  "encrypt_with_aad a c iv plaintext aad = (case utf8_encode plaintext of
       Inl e \<Rightarrow> Inl e
     | Inr p \<Rightarrow> Inr ([VERSION_CURRENT] @ iv @ aes_enc a (ck_current c) iv p aad))"

definition select_key :: "cipher \<Rightarrow> int \<Rightarrow> pyexc + bytes" where
  "select_key c version =
     (if version = VERSION_CURRENT then Inr (ck_current c)
      else if version = VERSION_PREV then
        (case ck_prev c of
           None \<Rightarrow> Inl (mk_exc EInvalidTag (u ''blob version=0x00 but MAIL_ENCRYPTION_KEY_PREV not configured''))
         | Some p \<Rightarrow> Inr p)
      else Inl (mk_exc EInvalidTag (u ''unknown version byte'')))"

definition decrypt_with_aad :: "aead \<Rightarrow> cipher \<Rightarrow> bytes \<Rightarrow> bytes \<Rightarrow> pyexc + pystr" where
  "decrypt_with_aad a c blob aad =
     (if length blob < HEADER_LEN + 16 then Inl (mk_exc EInvalidTag (u ''blob too short''))
      else (case select_key c (blob ! 0) of
          Inl e \<Rightarrow> Inl e
        | Inr k \<Rightarrow> (case aes_dec a k (take IV_LEN (drop 1 blob)) (drop HEADER_LEN blob) aad of
              None \<Rightarrow> Inl (mk_exc EInvalidTag [])
            | Some p \<Rightarrow> (case utf8_decode p of
                  None \<Rightarrow> Inl (mk_exc (ESub (u ''UnicodeDecodeError'') EValueError) [])
                | Some t \<Rightarrow> Inr t))))"

definition encrypt :: "aead \<Rightarrow> cipher \<Rightarrow> bytes \<Rightarrow> pystr \<Rightarrow> int \<Rightarrow> pyexc + bytes" where
  "encrypt a c iv plaintext acc = (case aad_for acc of Inl e \<Rightarrow> Inl e
     | Inr ad \<Rightarrow> encrypt_with_aad a c iv plaintext ad)"

definition decrypt :: "aead \<Rightarrow> cipher \<Rightarrow> bytes \<Rightarrow> int \<Rightarrow> pyexc + pystr" where
  "decrypt a c blob acc = (case aad_for acc of Inl e \<Rightarrow> Inl e
     | Inr ad \<Rightarrow> decrypt_with_aad a c blob ad)"

section \<open>The round trip and its binding to the row\<close>

lemma aead_dec_enc: "aead_ok a \<Longrightarrow> aes_dec a k iv (aes_enc a k iv p ad) ad = Some p"
  and aead_length: "aead_ok a \<Longrightarrow> length (aes_enc a k iv p ad) = length p + 16"
  and aead_reject: "aead_ok a \<Longrightarrow> (k', ad') \<noteq> (k, ad) \<Longrightarrow> aes_dec a k' iv (aes_enc a k iv p ad) ad' = None"
  unfolding aead_ok_def by blast+

lemma aad_for_inj: "aad_for i = Inr x \<Longrightarrow> aad_for j = Inr x \<Longrightarrow> i = j"
  by (auto simp: aad_for_def split: if_splits intro: str_of_int_inj)

lemma aad_for_cls: "aad_for j = Inl e \<Longrightarrow> ecls e = EValueError"
  by (auto simp: aad_for_def split: if_splits)

text \<open>Decrypting a blob of \<open>encrypt\<close> under any cipher and any row id, by which key and id are used.\<close>

lemma decrypt_encrypt:
  assumes ok: "aead_ok a" and iv: "length iv = IV_LEN" and enc: "encrypt a c iv p acc = Inr blob"
    and ad': "aad_for acc' = Inr ad'"
  shows "decrypt a c' blob acc' = (if ck_current c' = ck_current c \<and> acc' = acc then Inr p
           else Inl (mk_exc EInvalidTag []))"
proof -
  obtain ad where ad: "aad_for acc = Inr ad" and eb: "encrypt_with_aad a c iv p ad = Inr blob"
    using enc by (auto simp: encrypt_def split: sum.splits)
  from eb obtain b where b: "utf8_encode p = Inr b"
      and blob: "blob = VERSION_CURRENT # iv @ aes_enc a (ck_current c) iv b ad"
    by (auto simp: encrypt_with_aad_def split: sum.splits)
  have len: "\<not> length blob < HEADER_LEN + 16"
    using iv by (simp add: blob HEADER_LEN_def aead_length [OF ok])
  have iv': "take IV_LEN (drop 1 blob) = iv" and ct: "drop HEADER_LEN blob = aes_enc a (ck_current c) iv b ad"
    using iv by (simp_all add: blob HEADER_LEN_def)
  have key: "select_key c' (blob ! 0) = Inr (ck_current c')"
    by (simp add: blob select_key_def)
  have same: "ad' = ad \<longleftrightarrow> acc' = acc" using ad ad' aad_for_inj by auto
  show ?thesis
    using len key iv' ct same ad' aead_dec_enc [OF ok] aead_reject [OF ok, of "ck_current c'" ad'] utf8_roundtrip [OF b]
    by (auto simp: decrypt_def decrypt_with_aad_def)
qed

text \<open>
  C11. A stored password decrypts to exactly the text that was encrypted for the row it was written
  for; under any other row id, or under another current key, decryption raises \<open>InvalidTag\<close> (or the
  \<open>ValueError\<close> of a non-positive id) and never yields a text.
\<close>

theorem password_blob_bound_to_row:
  assumes "aead_ok a" and "length iv = IV_LEN" and "encrypt a c iv p acc = Inr blob"
  shows "decrypt a c blob acc = Inr p \<and>
         (\<forall>(c' :: cipher) acc'. acc' \<noteq> acc \<or> ck_current c' \<noteq> ck_current c \<longrightarrow>
           (\<exists>e. decrypt a c' blob acc' = Inl e \<and> ecls e \<in> {EInvalidTag, EValueError}))"
proof (intro conjI allI impI)
  obtain ad where "aad_for acc = Inr ad"
    using assms(3) by (auto simp: encrypt_def split: sum.splits)
  then show "decrypt a c blob acc = Inr p" using decrypt_encrypt [OF assms] by simp
next
  fix c' :: cipher and acc' assume ne: "acc' \<noteq> acc \<or> ck_current c' \<noteq> ck_current c"
  show "\<exists>e. decrypt a c' blob acc' = Inl e \<and> ecls e \<in> {EInvalidTag, EValueError}"
  proof (cases "aad_for acc'")
    case (Inl e)
    then show ?thesis using aad_for_cls by (auto simp: decrypt_def)
  next
    case (Inr ad')
    then show ?thesis using decrypt_encrypt [OF assms Inr, of c'] ne by auto
  qed
qed

text \<open>
  C33. Key rotation as the code performs it: with a new current key and the old one configured as
  \<open>MAIL_ENCRYPTION_KEY_PREV\<close>, every blob written before the rotation is rejected with
  \<open>InvalidTag\<close>, because blobs always carry the current-version byte and the previous key is used
  only for version 0.
\<close>

theorem rotation_rejects_old_blobs:
  assumes "aead_ok a" and "length iv = IV_LEN" and "new \<noteq> old"
    and "encrypt a \<lparr>ck_current = old, ck_prev = None\<rparr> iv p acc = Inr blob"
  shows "decrypt a \<lparr>ck_current = new, ck_prev = Some old\<rparr> blob acc = Inl (mk_exc EInvalidTag [])"
proof -
  obtain ad where "aad_for acc = Inr ad"
    using assms(4) by (auto simp: encrypt_def split: sum.splits)
  then show ?thesis using decrypt_encrypt [OF assms(1,2,4)] assms(3) by simp
qed

section \<open>A concrete primitive satisfying the contract\<close>

definition toy_enc :: "bytes \<Rightarrow> bytes \<Rightarrow> bytes \<Rightarrow> bytes \<Rightarrow> bytes" where
  "toy_enc k iv p ad = int (to_nat (k, iv, p, ad)) # replicate (length p + 15) 0"

definition toy_aead :: aead where
  "toy_aead = \<lparr>aes_enc = toy_enc,
     aes_dec = (\<lambda>k iv c ad. let (k', iv', p, ad') = from_nat (nat (hd c)) in
       if k' = k \<and> iv' = iv \<and> ad' = ad then Some p else None)\<rparr>"

lemma toy_aead_ok: "aead_ok toy_aead"
  by (auto simp: aead_ok_def toy_aead_def toy_enc_def)

theorem password_blob_bound_to_row_witness:
  "\<exists>blob. encrypt toy_aead \<lparr>ck_current = replicate 32 7, ck_prev = None\<rparr> (replicate 12 0) (u ''pw'') 5 = Inr blob \<and>
     decrypt toy_aead \<lparr>ck_current = replicate 32 7, ck_prev = None\<rparr> blob 5 = Inr (u ''pw'') \<and>
     (\<exists>e. decrypt toy_aead \<lparr>ck_current = replicate 32 7, ck_prev = None\<rparr> blob 6 = Inl e)"
proof -
  let ?c = "\<lparr>ck_current = replicate 32 7, ck_prev = None\<rparr> :: cipher"
  have "utf8_encode (u ''pw'') = Inr (u ''pw'')" by code_simp
  moreover obtain ad where "aad_for 5 = Inr ad" by (simp add: aad_for_def)
  ultimately obtain blob where e: "encrypt toy_aead ?c (replicate 12 0) (u ''pw'') 5 = Inr blob"
    by (simp add: encrypt_def encrypt_with_aad_def)
  have iv: "length (replicate 12 (0::int)) = IV_LEN" by (simp add: IV_LEN_def)
  note r = password_blob_bound_to_row [OF toy_aead_ok iv e]
  have "\<exists>e. decrypt toy_aead ?c blob 6 = Inl e"
    using r [THEN conjunct2, rule_format, of 6 ?c] by auto
  with r e show ?thesis by blast
qed

theorem rotation_rejects_old_blobs_witness:
  "\<exists>blob. encrypt toy_aead \<lparr>ck_current = replicate 32 7, ck_prev = None\<rparr> (replicate 12 0) (u ''pw'') 5 = Inr blob \<and>
     decrypt toy_aead \<lparr>ck_current = replicate 32 9, ck_prev = Some (replicate 32 7)\<rparr> blob 5
       = Inl (mk_exc EInvalidTag [])"
proof -
  let ?c = "\<lparr>ck_current = replicate 32 7, ck_prev = None\<rparr> :: cipher"
  have "utf8_encode (u ''pw'') = Inr (u ''pw'')" by code_simp
  moreover obtain ad where "aad_for 5 = Inr ad" by (simp add: aad_for_def)
  ultimately obtain blob where e: "encrypt toy_aead ?c (replicate 12 0) (u ''pw'') 5 = Inr blob"
    by (simp add: encrypt_def encrypt_with_aad_def)
  have iv: "length (replicate 12 (0::int)) = IV_LEN" by (simp add: IV_LEN_def)
  have ne: "replicate 32 (9::int) \<noteq> replicate 32 7" by (simp add: replicate_eq_replicate)
  from rotation_rejects_old_blobs [OF toy_aead_ok iv ne e] e show ?thesis by blast
qed

end
