(* ===== verification/OAuth.thy ===== *)
theory OAuth
  imports Crm_Push Crypto
begin

text \<open>
  \<open>backend/app/oauth/service.py\<close>, \<open>oauth/schemas.py\<close> and \<open>oauth/crm_ingest.py\<close>: the headless consent flow, the
  access-token provider with its refresh lock, and the CRM notification. Parameters in \<open>oauth_env\<close>: the AEAD and the random
  nonces, the PKCE challenge, the URL encoder, the payload of a JWT segment (Base64url and JSON), and \<open>str()\<close> of a JSON
  container. The token endpoint is the \<open>token_reply\<close> of the world. \<open>now\<close> is in microseconds.
\<close>

record oauth_env =
  oe_aead :: aead
  oe_iv :: "nat \<Rightarrow> bytes"
  oe_challenge :: "pystr \<Rightarrow> pystr"
  oe_urlencode :: "(string \<times> pystr) list \<Rightarrow> pystr"
  oe_jwt :: "pystr \<Rightarrow> json option"
  oe_str :: "json \<Rightarrow> pystr"
  oe_mac :: hmac

definition OUTLOOK_SCOPES :: pystr where
  \<comment> \<open>already joined with blanks\<close>
  "OUTLOOK_SCOPES = intersperse_concat (u '' '') (map u [''https://outlook.office.com/IMAP.AccessAsUser.All'',
     ''https://outlook.office.com/SMTP.Send'', ''offline_access'', ''openid'', ''email'', ''profile''])"

definition ACCESS_TOKEN_REFRESH_BUFFER_SECONDS :: int where
  "ACCESS_TOKEN_REFRESH_BUFFER_SECONDS = 60"

definition OAUTH_REFRESH_LOCK_TTL_SECONDS :: int where
  "OAUTH_REFRESH_LOCK_TTL_SECONDS = 30"

definition state_key :: "pystr \<Rightarrow> pystr" where
  "state_key st = u ''oauth_state:'' @ st"

definition lock_key :: "int \<Rightarrow> pystr" where
  "lock_key i = u ''oauth_refresh_lock:'' @ str_of_int i"

section \<open>Redis keys\<close>

definition kv_live :: "int \<Rightarrow> world \<Rightarrow> pystr \<Rightarrow> kvval option" where
  "kv_live now w k = (case kv w k of None \<Rightarrow> None
     | Some (v, None) \<Rightarrow> Some v
     | Some (v, Some t) \<Rightarrow> if now < t then Some v else None)"

definition kv_set_ex :: "int \<Rightarrow> pystr \<Rightarrow> kvval \<Rightarrow> int \<Rightarrow> (world, unit) prog" where
  "kv_set_ex now k v seconds = redis (\<lambda>w. ((), w\<lparr>kv := (kv w)(k := Some (v, Some (now + seconds * 1000000)))\<rparr>))"

definition kv_set_nx_ex :: "int \<Rightarrow> pystr \<Rightarrow> kvval \<Rightarrow> int \<Rightarrow> (world, bool) prog" where
  "kv_set_nx_ex now k v seconds = redis (\<lambda>w. if kv_live now w k = None
     then (True, w\<lparr>kv := (kv w)(k := Some (v, Some (now + seconds * 1000000)))\<rparr>) else (False, w))"

definition kv_getdel :: "int \<Rightarrow> pystr \<Rightarrow> (world, kvval option) prog" where
  \<comment> \<open>the \<open>MULTI\<close> pipeline of \<open>GET\<close> and \<open>DEL\<close>\<close>
  "kv_getdel now k = redis (\<lambda>w. (kv_live now w k, w\<lparr>kv := (kv w)(k := None)\<rparr>))"

definition kv_del_if :: "int \<Rightarrow> pystr \<Rightarrow> kvval \<Rightarrow> (world, unit) prog" where
  \<comment> \<open>the unlock script\<close>
  "kv_del_if now k v = redis (\<lambda>w. if kv_live now w k = Some v then ((), w\<lparr>kv := (kv w)(k := None)\<rparr>) else ((), w))"

section \<open>The token endpoint\<close>

record token_response =
  access_token :: pystr
  refresh_token :: json
  expires_in :: int
  token_scope :: json
  id_token :: json

definition truthy :: "json \<Rightarrow> bool" where
  "truthy j = (case j of JNull \<Rightarrow> False | JBool b \<Rightarrow> b | JInt i \<Rightarrow> i \<noteq> 0 | JStr s \<Rightarrow> s \<noteq> [] | JArr xs \<Rightarrow> xs \<noteq> [] | JObj kvs \<Rightarrow> kvs \<noteq> [])"

definition py_str :: "oauth_env \<Rightarrow> json \<Rightarrow> pystr" where
  "py_str env j = (case j of JNull \<Rightarrow> u ''None'' | JBool b \<Rightarrow> u (if b then ''True'' else ''False'') | JInt i \<Rightarrow> str_of_int i
     | JStr s \<Rightarrow> s | _ \<Rightarrow> oe_str env j)"

definition json_get_or :: "string \<Rightarrow> json \<Rightarrow> (string \<times> json) list \<Rightarrow> json" where
  "json_get_or k d kvs = (case json_get k kvs of None \<Rightarrow> d | Some v \<Rightarrow> v)"

definition json_int :: "json \<Rightarrow> pyexc + int" where
  \<comment> \<open>\<open>int(x)\<close>\<close>
  "json_int j = (case j of JInt i \<Rightarrow> Inr i | JBool b \<Rightarrow> Inr (if b then 1 else 0)
     | JStr s \<Rightarrow> (case py_int s of None \<Rightarrow> Inl (mk_exc EValueError []) | Some i \<Rightarrow> Inr i)
     | _ \<Rightarrow> Inl (mk_exc ETypeError []))"

definition safe_token_error :: "oauth_env \<Rightarrow> json option \<Rightarrow> pystr \<times> pystr" where
  \<comment> \<open>the fields \<open>error\<close> and \<open>error_description\<close>\<close>
  "safe_token_error env body = (case body of
       None \<Rightarrow> (u ''non_json_error'', [])
     | Some (JObj kvs) \<Rightarrow> (py_str env (json_get_or ''error'' (JStr []) kvs),
         take 200 (py_str env (json_get_or ''error_description'' (JStr []) kvs)))
     | Some _ \<Rightarrow> (u ''unexpected_body'', []))"

definition parse_token_payload :: "oauth_env \<Rightarrow> json option \<Rightarrow> pyexc + token_response" where
  "parse_token_payload env body = (case body of
       Some (JObj kvs) \<Rightarrow>
         (case json_get ''access_token'' kvs of
            None \<Rightarrow> Inl (mk_exc (ESub (u ''KeyError'') EException) (u ''access_token''))
          | Some a \<Rightarrow> (case json_int (json_get_or ''expires_in'' (JInt 3600) kvs) of
               Inl e \<Rightarrow> Inl e
             | Inr n \<Rightarrow> Inr \<lparr>access_token = py_str env a, refresh_token = json_get_or ''refresh_token'' JNull kvs,
                 expires_in = n, token_scope = json_get_or ''scope'' JNull kvs, id_token = json_get_or ''id_token'' JNull kvs\<rparr>))
     | Some _ \<Rightarrow> Inl (mk_exc ETypeError [])
     | None \<Rightarrow> Inl (mk_exc (ESub (u ''JSONDecodeError'') EValueError) []))"

definition token_post :: "oauth_env \<Rightarrow> (string \<times> pystr) list \<Rightarrow> (world, token_response) prog" where
  "token_post env data w =
     (let w1 = w\<lparr>token_calls := token_calls w @ [data]\<rparr>
      in case token_reply w (length (token_calls w)) of
           Inl e \<Rightarrow> (Inl e, w1)
         | Inr (status, body) \<Rightarrow>
             if status \<noteq> 200 then
               (let (err, desc) = safe_token_error env body
                in if err = u ''invalid_grant''
                   then (Inl (mk_exc EOAuthRefreshInvalidError (if desc = [] then u ''invalid_grant'' else desc)), w1)
                   else (Inl (oauth_error ''oauth_exchange_failed'' (Some (u ''Token endpoint returned an error''))), w1))
             else (parse_token_payload env body, w1))"

definition client_fields :: "settings \<Rightarrow> (string \<times> pystr) list" where
  "client_fields s = [(''client_id'', OUTLOOK_CLIENT_ID s), (''client_secret'', OUTLOOK_CLIENT_SECRET s)]"

definition exchange_code :: "oauth_env \<Rightarrow> settings \<Rightarrow> pystr \<Rightarrow> pystr \<Rightarrow> (world, token_response) prog" where
  "exchange_code env s code verifier = token_post env ([(''grant_type'', u ''authorization_code''), (''code'', code),
     (''redirect_uri'', OUTLOOK_REDIRECT_URI s)] @ client_fields s @ [(''code_verifier'', verifier), (''scope'', OUTLOOK_SCOPES)])"

definition refresh_grant :: "oauth_env \<Rightarrow> settings \<Rightarrow> pystr \<Rightarrow> (world, token_response) prog" where
  "refresh_grant env s tok = token_post env ([(''grant_type'', u ''refresh_token''), (''refresh_token'', tok)]
     @ client_fields s @ [(''scope'', OUTLOOK_SCOPES)])"

section \<open>The consent flow\<close>

definition decode_email :: "oauth_env \<Rightarrow> json \<Rightarrow> pyexc + pystr option" where
  "decode_email env tok =
     (if \<not> truthy tok then Inr None
      else (case tok of
          JStr t \<Rightarrow>
            if length (split_all 46 t) \<noteq> 3 then Inr None
            else (case oe_jwt env (split_all 46 t ! 1) of
                Some (JObj kvs) \<Rightarrow> Inr (case List.map_filter (\<lambda>k. case json_get k kvs of
                        Some (JStr v) \<Rightarrow> if 64 \<in> set v then Some v else None | _ \<Rightarrow> None)
                      [''email'', ''preferred_username'', ''upn'', ''unique_name''] of [] \<Rightarrow> None | v # _ \<Rightarrow> Some v)
              | _ \<Rightarrow> Inr None)
        | _ \<Rightarrow> Inl (mk_exc (ESub (u ''AttributeError'') EException) [])))"

definition build_authorize_url_headless ::
    "oauth_env \<Rightarrow> settings \<Rightarrow> int \<Rightarrow> pystr \<Rightarrow> pystr \<Rightarrow> pystr \<Rightarrow> (world, pystr \<times> pystr) prog" where
  \<comment> \<open>\<open>state\<close> and \<open>verifier\<close> are the random values of the call\<close>
  "build_authorize_url_headless env s now state verifier crm_state =
     bindM (kv_set_ex now (state_key state) (KState verifier (Some crm_state)) (OUTLOOK_OAUTH_STATE_TTL_SECONDS s)) (\<lambda>_.
     ret (outlook_authorize_endpoint s @ u ''?'' @ oe_urlencode env
       [(''client_id'', OUTLOOK_CLIENT_ID s), (''response_type'', u ''code''), (''redirect_uri'', OUTLOOK_REDIRECT_URI s),
        (''scope'', OUTLOOK_SCOPES), (''state'', state), (''code_challenge'', oe_challenge env verifier),
        (''code_challenge_method'', u ''S256''), (''prompt'', u ''select_account'')], state))"

definition state_invalid :: "string \<Rightarrow> pyexc" where
  "state_invalid m = oauth_error ''oauth_state_invalid'' (Some (u m))"

definition exchange_failed :: "string \<Rightarrow> pyexc" where
  "exchange_failed m = oauth_error ''oauth_exchange_failed'' (Some (u m))"

definition consume_state :: "int \<Rightarrow> pystr \<Rightarrow> (world, pystr \<times> pystr option) prog" where
  "consume_state now state = bindM (kv_getdel now (state_key state)) (\<lambda>v. case v of
       None \<Rightarrow> throw (state_invalid ''State missing or expired'')
     | Some (KText t) \<Rightarrow> throw (state_invalid (if t = [] then ''State missing or expired'' else ''State payload corrupt''))
     | Some (KCount n) \<Rightarrow> throw (state_invalid ''State payload corrupt'')
     | Some (KState verifier crm_state) \<Rightarrow> ret (verifier, crm_state))"

definition exchange_and_resolve :: "oauth_env \<Rightarrow> settings \<Rightarrow> pystr \<Rightarrow> pystr \<Rightarrow> (world, token_response \<times> pystr) prog" where
  "exchange_and_resolve env s code verifier =
     bindM (catchM (exchange_code env s code verifier)
        (\<lambda>e. if isinstance e EOAuthRefreshInvalidError then throw (exchange_failed ''Authorization code rejected'') else throw e))
     (\<lambda>tokens. if \<not> truthy (refresh_token tokens) then throw (exchange_failed ''No refresh token returned'')
       else bindM (liftE (decode_email env (id_token tokens))) (\<lambda>em. case em of
           None \<Rightarrow> throw (exchange_failed ''Could not resolve mailbox email'')
         | Some e \<Rightarrow> if e = [] then throw (exchange_failed ''Could not resolve mailbox email'')
             else ret (tokens, py_lower (py_strip e))))"

definition seal :: "oauth_env \<Rightarrow> cipher \<Rightarrow> nat \<Rightarrow> json \<Rightarrow> int \<Rightarrow> pyexc + bytes" where
  \<comment> \<open>\<open>self._cipher.encrypt(value, id)\<close> for a value taken from JSON\<close>
  "seal env c k j i = (case aad_for i of Inl e \<Rightarrow> Inl e | Inr _ \<Rightarrow> (case j of
       JStr t \<Rightarrow> encrypt (oe_aead env) c (oe_iv env k) t i
     | JNull \<Rightarrow> Inl (mk_exc EValueError (u ''plaintext must not be None''))
     | _ \<Rightarrow> Inl (mk_exc ETypeError (u ''plaintext must be str''))))"

definition scope_column :: "json \<Rightarrow> pyexc + pystr option" where
  "scope_column j = (case j of JNull \<Rightarrow> Inr None | JStr t \<Rightarrow> Inr (Some t) | _ \<Rightarrow> Inl db_error)"

definition create_or_relink :: "oauth_env \<Rightarrow> cipher \<Rightarrow> int \<Rightarrow> int \<Rightarrow> pystr \<Rightarrow> token_response \<Rightarrow> (db, account) prog" where
  "create_or_relink env c now owner em tokens =
     bindM (\<lambda>d. (find_by_user_email owner em d, d)) (\<lambda>existing. case existing of
       Some a \<Rightarrow>
         bindM (liftE (seal env c 0 (refresh_token tokens) (acc_id a))) (\<lambda>renc.
         bindM (liftE (seal env c 1 (JStr (access_token tokens)) (acc_id a))) (\<lambda>aenc.
         bindM (liftE (scope_column (token_scope tokens))) (\<lambda>sc.
         bindM (update_oauth_tokens now (acc_id a) (Some renc) (Some aenc) (Some (now + expires_in tokens * 1000000)) sc (Some False)) (\<lambda>_.
         bindM (getM (get_by_id (acc_id a))) (\<lambda>r. case r of
             None \<Rightarrow> throw (mk_exc EAssertionError []) | Some x \<Rightarrow> ret x)))))
     | None \<Rightarrow>
         bindM next_account_id (\<lambda>i.
         bindM (liftE (seal env c 0 (refresh_token tokens) i)) (\<lambda>renc.
         bindM (liftE (seal env c 1 (JStr (access_token tokens)) i)) (\<lambda>aenc.
         bindM (liftE (scope_column (token_scope tokens))) (\<lambda>sc.
         insert_oauth_account_with_id now (blank_account\<lparr>acc_id := i, acc_user_id := owner, email := em,
           oauth_provider := Some ''outlook'', oauth_refresh_token_encrypted := Some renc,
           oauth_access_token_encrypted := Some aenc, oauth_access_token_expires_at := Some (now + expires_in tokens * 1000000),
           oauth_scopes := sc, imap_host := u ''outlook.office365.com'', imap_port := 993, imap_ssl := True,
           smtp_host := u ''smtp-mail.outlook.com'', smtp_port := 587, smtp_ssl := False, smtp_starttls := True\<rparr>))))))"

definition exchange_code_headless ::
    "oauth_env \<Rightarrow> settings \<Rightarrow> cipher \<Rightarrow> int \<Rightarrow> pystr \<Rightarrow> pystr \<Rightarrow> (world, account \<times> pystr) prog" where
  "exchange_code_headless env s c now code state =
     bindM (consume_state now state) (\<lambda>(verifier, crm). case crm of
       None \<Rightarrow> throw (state_invalid ''Headless state missing crm_state'')
     | Some crm_state \<Rightarrow>
         bindM (exchange_and_resolve env s code verifier) (\<lambda>(tokens, em).
         bindM (\<lambda>w. (user_by_username (u ''crm-service'') (wdb w), w)) (\<lambda>owner. case owner of
             None \<Rightarrow> throw (exchange_failed ''crm-service user is not provisioned'')
           | Some x \<Rightarrow> bindM (on_db (create_or_relink env c now (usr_id x) em tokens)) (\<lambda>a. ret (a, crm_state)))))"

section \<open>The access-token provider\<close>

definition cached_access_token :: "oauth_env \<Rightarrow> cipher \<Rightarrow> int \<Rightarrow> account \<Rightarrow> pyexc + pystr option" where
  "cached_access_token env c now a = (case (oauth_access_token_encrypted a, oauth_access_token_expires_at a) of
       (Some blob, Some t) \<Rightarrow>
         if now + ACCESS_TOKEN_REFRESH_BUFFER_SECONDS * 1000000 < t then map_sum id Some (decrypt (oe_aead env) c blob (acc_id a))
         else Inr None
     | _ \<Rightarrow> Inr None)"

definition mark_needs_consent :: "settings \<Rightarrow> int \<Rightarrow> int \<Rightarrow> (world, unit) prog" where
  "mark_needs_consent s now i = seqM (on_db (mark_oauth_needs_consent now i)) (enqueue_crm_status_best_effort s i)"

definition do_refresh :: "oauth_env \<Rightarrow> settings \<Rightarrow> cipher \<Rightarrow> int \<Rightarrow> account \<Rightarrow> (world, pystr) prog" where
  "do_refresh env s c now a = (case oauth_refresh_token_encrypted a of
       None \<Rightarrow> throw (mk_exc EAssertionError [])
     | Some blob \<Rightarrow>
         bindM (liftE (decrypt (oe_aead env) c blob (acc_id a))) (\<lambda>rt.
         bindM (catchM (refresh_grant env s rt)
            (\<lambda>e. if isinstance e EOAuthRefreshInvalidError then seqM (mark_needs_consent s now (acc_id a)) (throw e) else throw e))
         (\<lambda>tokens.
         bindM (liftE (seal env c 0 (JStr (access_token tokens)) (acc_id a))) (\<lambda>aenc.
         bindM (liftE (if truthy (refresh_token tokens) then map_sum id Some (seal env c 1 (refresh_token tokens) (acc_id a)) else Inr None)) (\<lambda>renc.
         bindM (liftE (scope_column (token_scope tokens))) (\<lambda>sc.
         bindM (on_db (update_oauth_tokens now (acc_id a) renc (Some aenc) (Some (now + expires_in tokens * 1000000)) sc (Some False))) (\<lambda>_.
         ret (access_token tokens))))))))"

definition refresh_invalid :: "string \<Rightarrow> pyexc" where
  "refresh_invalid m = mk_exc EOAuthRefreshInvalidError (u m)"

fun await_refreshed_token ::
    "oauth_env \<Rightarrow> cipher \<Rightarrow> int \<Rightarrow> int \<Rightarrow> (world \<Rightarrow> world) list \<Rightarrow> (world, pystr option) prog" where
  \<comment> \<open>one element per poll: what the other processes do during the sleep; the deadline ends the list\<close>
  "await_refreshed_token env c now i [] = ret None"
| "await_refreshed_token env c now i (peer # peers) =
     bindM (modifyM peer) (\<lambda>_.
     bindM (getM (\<lambda>w. get_by_id i (wdb w))) (\<lambda>acc. case acc of
       None \<Rightarrow> await_refreshed_token env c now i peers
     | Some a \<Rightarrow> if oauth_needs_consent a then throw (refresh_invalid ''refresh invalidated by concurrent refresh'')
         else bindM (liftE (cached_access_token env c now a)) (\<lambda>t. case t of
             Some tok \<Rightarrow> ret (Some tok)
           | None \<Rightarrow> await_refreshed_token env c now i peers)))"

definition is_redis_or_os :: "pyexc \<Rightarrow> bool" where
  "is_redis_or_os e \<longleftrightarrow> isinstance e ERedisError \<or> isinstance e EOSError"

definition try_acquire_lock :: "int \<Rightarrow> int \<Rightarrow> pystr \<Rightarrow> (world, bool) prog" where
  "try_acquire_lock now i tok = catchM (kv_set_nx_ex now (lock_key i) (KText tok) OAUTH_REFRESH_LOCK_TTL_SECONDS)
     (\<lambda>e. if is_redis_or_os e then ret False else throw e)"

definition release_lock :: "int \<Rightarrow> int \<Rightarrow> pystr \<Rightarrow> (world, unit) prog" where
  "release_lock now i tok = catchM (kv_del_if now (lock_key i) (KText tok)) (\<lambda>e. if is_redis_or_os e then ret () else throw e)"

definition finallyM :: "('s, 'a) prog \<Rightarrow> ('s, unit) prog \<Rightarrow> ('s, 'a) prog" where
  "finallyM m f s = (case m s of (r, s1) \<Rightarrow> (case f s1 of (Inl e, s2) \<Rightarrow> (Inl e, s2) | (Inr _, s2) \<Rightarrow> (r, s2)))"

definition locked_refresh :: "oauth_env \<Rightarrow> settings \<Rightarrow> cipher \<Rightarrow> int \<Rightarrow> account \<Rightarrow> (world, pystr) prog" where
  \<comment> \<open>the \<open>try\<close> block after the lock was acquired\<close>
  "locked_refresh env s c now a = bindM (getM (\<lambda>w. get_by_id (acc_id a) (wdb w))) (\<lambda>latest. case latest of
       None \<Rightarrow> do_refresh env s c now a
     | Some x \<Rightarrow> if oauth_needs_consent x then throw (refresh_invalid ''refresh invalidated by concurrent refresh'')
         else bindM (liftE (cached_access_token env c now x)) (\<lambda>fresh. case fresh of
             Some t \<Rightarrow> ret t
           | None \<Rightarrow> do_refresh env s c now x))"

definition get_valid_access_token ::
    "oauth_env \<Rightarrow> settings \<Rightarrow> cipher \<Rightarrow> int \<Rightarrow> pystr \<Rightarrow> (world \<Rightarrow> world) list \<Rightarrow> account \<Rightarrow> (world, pystr) prog" where
  \<comment> \<open>\<open>tok\<close> is the random lock token\<close>
  "get_valid_access_token env s c now tok peers a =
     (if auth_type a \<noteq> ''oauth_outlook'' then throw (mk_exc EValueError (u ''get_valid_access_token requires an oauth_outlook account''))
      else bindM (liftE (cached_access_token env c now a)) (\<lambda>cached. case cached of
        Some t \<Rightarrow> ret t
      | None \<Rightarrow>
          if oauth_refresh_token_encrypted a = None then throw (refresh_invalid ''missing refresh token'')
          else bindM (try_acquire_lock now (acc_id a) tok) (\<lambda>acquired.
            if \<not> acquired then
              bindM (await_refreshed_token env c now (acc_id a) peers) (\<lambda>waited. case waited of
                Some t \<Rightarrow> ret t | None \<Rightarrow> do_refresh env s c now a)
            else finallyM (locked_refresh env s c now a) (release_lock now (acc_id a) tok))))"

section \<open>Notifying the CRM\<close>

fun notify_attempts :: "nat \<Rightarrow> pystr \<Rightarrow> (string \<times> pystr) list \<Rightarrow> bytes \<Rightarrow> (world, bool) prog" where
  "notify_attempts 0 url hdrs body = ret False"
| "notify_attempts (Suc k) url hdrs body = (\<lambda>w. case http_post url hdrs body w of
       (Inl e, w1) \<Rightarrow> if isinstance e EConnectError \<or> isinstance e EConnectTimeout then notify_attempts k url hdrs body w1
          else if isinstance e EHTTPError then (Inr False, w1) else (Inl e, w1)
     | (Inr st, w1) \<Rightarrow> (Inr (200 \<le> st \<and> st < 300), w1))"

definition notify_crm_oauth_ingest :: "hmac \<Rightarrow> settings \<Rightarrow> int \<Rightarrow> pystr \<Rightarrow> account \<Rightarrow> (world, bool) prog" where
  "notify_crm_oauth_ingest mac s now crm_state a =
     (if \<not> crm_oauth_ingest_enabled s then ret False
      else bindM (liftE (serialize (JObj [(''crm_state'', JStr crm_state), (''mail_account_id'', JInt (acc_id a)),
             (''email'', JStr (email a)), (''display_name'', opt_str (display_name a)), (''is_active'', JBool (is_active a))]))) (\<lambda>raw.
        bindM (liftE (build_signature mac (CRM_PUSH_SECRET s) (now div 1000000) raw)) (\<lambda>signature.
        notify_attempts 3 (CRM_OAUTH_INGEST_URL s)
          [(''Content-Type'', u ''application/json''), (''X-Mail-Signature'', u ''sha256='' @ signature),
           (''X-Mail-Timestamp'', str_of_int (now div 1000000))] raw)))"

section \<open>What each step leaves alone\<close>

definition kvfix :: "(pystr \<Rightarrow> (kvval \<times> int option) option) \<Rightarrow> (nat \<Rightarrow> bool) \<Rightarrow> world \<Rightarrow> bool" where
  "kvfix K U w \<longleftrightarrow> kv w = K \<and> rds_up w = U"

lemma kvfix_on_db [intro]: "keeps (kvfix K U) (on_db m)"
  by (rule keepsI) (simp add: kvfix_def)

lemma kvfix_token_post [intro]: "keeps (kvfix K U) (token_post env data)"
  by (rule keepsI) (auto simp: kvfix_def token_post_def Let_def split: sum.splits prod.splits if_splits)

lemma kvfix_enqueue [intro]: "keeps (kvfix K U) (enqueue_crm_status_best_effort s i)"
  by (rule keepsI)
    (auto simp: kvfix_def enqueue_crm_status_best_effort_def suppress_all_snd enqueue_crm_status_def redis_def Let_def)

lemma kvfix_exchange_and_resolve [intro]: "keeps (kvfix K U) (exchange_and_resolve env s code v)"
  unfolding exchange_and_resolve_def exchange_code_def
  by (intro keeps_bindM keeps_catchM keeps_if kvfix_token_post keeps_throw keeps_ret keeps_liftE) (auto split: option.splits)

lemma keeps_state_fun [intro]: "keeps P (\<lambda>w. (f w, w))"
  by (rule keepsI) simp

lemma kvfix_do_refresh [intro]: "keeps (kvfix K U) (do_refresh env s c now a)"
  unfolding do_refresh_def refresh_grant_def mark_needs_consent_def
  by (cases "oauth_refresh_token_encrypted a")
    (auto intro!: keeps_bindM keeps_catchM keeps_if keeps_throw keeps_ret keeps_liftE kvfix_on_db kvfix_token_post kvfix_enqueue)

lemma kvfix_locked_refresh [intro]: "keeps (kvfix K U) (locked_refresh env s c now a)"
  unfolding locked_refresh_def
  by (intro keeps_bindM keeps_getM) (auto intro!: keeps_bindM keeps_liftE split: option.splits)

lemma redis_up: "rds_up w (rds_tick w) \<Longrightarrow> redis f w = (let (x, w') = f (w\<lparr>rds_tick := rds_tick w + 1\<rparr>) in (Inr x, w'))"
  by (simp add: redis_def Let_def split: prod.splits)

section \<open>The consent state is one-shot\<close>

lemma exchange_leaves_state_gone:
  assumes "exchange_code_headless env s c now code state w = (r, w1)" and "\<forall>k. rds_up w k"
  shows "kv w1 (state_key state) = None \<and> rds_up w1 = rds_up w"
proof -
  let ?K = "(kv w)(state_key state := None)"
  define w0 where "w0 = w\<lparr>rds_tick := rds_tick w + 1, kv := ?K\<rparr>"
  have g: "kv_getdel now (state_key state) w = (Inr (kv_live now (w\<lparr>rds_tick := rds_tick w + 1\<rparr>) (state_key state)), w0)"
    using assms(2) by (simp add: kv_getdel_def redis_def w0_def Let_def)
  define rest where "rest = (\<lambda>v. bindM (case v of
       None \<Rightarrow> throw (state_invalid ''State missing or expired'')
     | Some (KText t) \<Rightarrow> throw (state_invalid (if t = [] then ''State missing or expired'' else ''State payload corrupt''))
     | Some (KCount n) \<Rightarrow> throw (state_invalid ''State payload corrupt'')
     | Some (KState verifier crm_state) \<Rightarrow> ret (verifier, crm_state)) (\<lambda>(verifier, crm). case crm of
       None \<Rightarrow> throw (state_invalid ''Headless state missing crm_state'')
     | Some crm_state \<Rightarrow>
         bindM (exchange_and_resolve env s code verifier) (\<lambda>(tokens, em).
         bindM (\<lambda>w. (user_by_username (u ''crm-service'') (wdb w), w)) (\<lambda>owner. case owner of
             None \<Rightarrow> throw (exchange_failed ''crm-service user is not provisioned'')
           | Some x \<Rightarrow> bindM (on_db (create_or_relink env c now (usr_id x) em tokens)) (\<lambda>a. ret (a, crm_state))))))"
  have k: "keeps (kvfix ?K (rds_up w)) (rest v)" for v
    unfolding rest_def
    by (auto intro!: keeps_bindM keeps_throw keeps_ret split: option.splits kvval.splits prod.splits)
  have "exchange_code_headless env s c now code state w = rest (kv_live now (w\<lparr>rds_tick := rds_tick w + 1\<rparr>) (state_key state)) w0"
    unfolding exchange_code_headless_def consume_state_def bindM_assoc rest_def by (subst bindM_app) (simp add: g)
  moreover have "kvfix ?K (rds_up w) w0" by (simp add: kvfix_def w0_def)
  ultimately have "kvfix ?K (rds_up w) w1" using keepsD [OF k] assms(1) by (metis snd_conv)
  then show ?thesis by (simp add: kvfix_def)
qed

text \<open>
  C35. A consent state can be used once: whatever the first callback with it ended in, every later callback with the
  same state is refused with \<open>oauth_state_invalid\<close>, calls no token endpoint and changes no row.
\<close>

theorem oauth_state_one_shot:
  assumes "exchange_code_headless env s c now code state w = (r, w1)" and "\<forall>k. rds_up w k"
  shows "\<exists>w2. exchange_code_headless env s c now2 code2 state w1 = (Inl (state_invalid ''State missing or expired''), w2) \<and>
    token_calls w2 = token_calls w1 \<and> wdb w2 = wdb w1"
proof -
  have g: "kv w1 (state_key state) = None" "\<forall>k. rds_up w1 k" using exchange_leaves_state_gone [OF assms] assms(2) by auto
  then show ?thesis
    by (simp add: exchange_code_headless_def consume_state_def bindM_app kv_getdel_def redis_def kv_live_def Let_def)
qed

section \<open>The refresh lock\<close>

lemma await_keeps:
  assumes "\<forall>p \<in> set peers. \<forall>w. kv (p w) = kv w \<and> rds_up (p w) = rds_up w"
  shows "keeps (kvfix K U) (await_refreshed_token env c now i peers)"
  using assms
proof (induction peers)
  case (Cons p ps)
  then have IH: "keeps (kvfix K U) (await_refreshed_token env c now i ps)" by simp
  have "keeps (kvfix K U) (modifyM p)" using Cons.prems by (auto simp: kvfix_def)
  then show ?case
    unfolding await_refreshed_token.simps
    by (intro keeps_bindM keeps_getM) (auto intro!: keeps_bindM keeps_liftE IH split: option.splits)
qed (simp add: keeps_ret)


section \<open>Refreshing\<close>

lemma bindM_Inr: "bindM m f w = (Inr y, t) \<longleftrightarrow> (\<exists>x v. m w = (Inr x, v) \<and> f x v = (Inr y, t))"
  by (auto simp: bindM_app split: prod.splits sum.splits)

lemma harmless_update_tokens:
  "harmless (\<lambda>a. opt_set r (\<lambda>v x. x\<lparr>oauth_refresh_token_encrypted := Some v\<rparr>)
    (opt_set ac (\<lambda>v x. x\<lparr>oauth_access_token_encrypted := Some v\<rparr>)
    (opt_set ex (\<lambda>v x. x\<lparr>oauth_access_token_expires_at := Some v\<rparr>)
    (opt_set sc (\<lambda>v x. x\<lparr>oauth_scopes := Some v\<rparr>)
    (opt_set needs (\<lambda>v x. x\<lparr>oauth_needs_consent := v\<rparr>)
       (a\<lparr>updated_at := now\<rparr>))))))"
  by (auto simp: harmless_def opt_set_def account_checks_def split: option.splits)


lemma harmless_needs_consent:
  "harmless (\<lambda>a. a\<lparr>oauth_needs_consent := True, last_sync_error := e, updated_at := now\<rparr>)"
  by (auto simp: harmless_def account_checks_def)

lemma enqueue_wdb [simp]: "wdb (snd (enqueue_crm_status_best_effort s i w)) = wdb w"
  by (auto simp: enqueue_crm_status_best_effort_def suppress_all_snd enqueue_crm_status_def redis_def Let_def)

lemma enqueue_returns [simp]: "fst (enqueue_crm_status_best_effort s i w) = Inr ()"
proof -
  have "fst (suppress_all (enqueue_crm_status i) w) = Inr ()"
    by (rule suppress_all_Inr) (auto simp: enqueue_crm_status_def redis_def Let_def split: if_splits)
  then show ?thesis by (simp add: enqueue_crm_status_best_effort_def)
qed

text \<open>
  C38. An \<open>invalid_grant\<close> from the token endpoint flags exactly the mailbox that was refreshed: its row gets
  \<open>oauth_needs_consent\<close> and the marker as last error, while its activity flag, failure counter, stored tokens and every
  other row stay as they were, and the caller gets \<open>OAuthRefreshInvalidError\<close>.
\<close>

theorem invalid_grant_flags_consent:
  assumes "accounts_ok (wdb w)" and "get_by_id i (wdb w) = Some x" and "acc_id a = i"
    and "oauth_refresh_token_encrypted a = Some blob" and "decrypt (oe_aead env) c blob i = Inr rt"
    and "token_reply w (length (token_calls w)) = Inr (400, Some (JObj kvs))" and "json_get ''error'' kvs = Some (JStr (u ''invalid_grant''))"
    and "do_refresh env s c now a w = (r, w1)"
  shows "(\<exists>e. r = Inl e \<and> isinstance e EOAuthRefreshInvalidError) \<and>
    (\<exists>x'. get_by_id i (wdb w1) = Some x' \<and> oauth_needs_consent x' \<and> last_sync_error x' = Some OAUTH_NEEDS_CONSENT_SYNC_ERROR \<and>
       is_active x' = is_active x \<and> consecutive_failures x' = consecutive_failures x \<and>
       oauth_refresh_token_encrypted x' = oauth_refresh_token_encrypted x \<and> last_synced_at x' = last_synced_at x) \<and>
    (\<forall>j. j \<noteq> i \<longrightarrow> get_by_id j (wdb w1) = get_by_id j (wdb w))"
proof -
  let ?f = "\<lambda>a. a\<lparr>oauth_needs_consent := True, last_sync_error := Some OAUTH_NEEDS_CONSENT_SYNC_ERROR, updated_at := now\<rparr>"
  define d1 where "d1 = snd (update_row i ?f (wdb w))"
  have up: "update_row i ?f (wdb w) = (Inr (), d1)"
    using acc.upd_ok [OF assms(1) harmless_needs_consent, of i] by (simp add: d1_def prod_eq_iff)
  have rows: "get_by_id j d1 = (if j = i then map_option ?f (get_by_id j (wdb w)) else get_by_id j (wdb w))" for j
    unfolding d1_def by (rule acc.upd_row [OF assms(1) harmless_needs_consent])
  obtain e wa where post: "refresh_grant env s rt w = (Inl e, wa)" and e: "isinstance e EOAuthRefreshInvalidError" and wa: "wdb wa = wdb w"
    using assms(6,7)
    by (auto simp: refresh_grant_def token_post_def Let_def safe_token_error_def py_str_def json_get_or_def split: prod.splits if_splits)
  have mark: "mark_needs_consent s now i wa = (Inr (), snd (enqueue_crm_status_best_effort s i (wa\<lparr>wdb := d1\<rparr>)))"
  proof -
    have "mark_needs_consent s now i wa = enqueue_crm_status_best_effort s i (wa\<lparr>wdb := d1\<rparr>)"
      using wa up by (simp add: mark_needs_consent_def bindM_app on_db_def transaction_def mark_oauth_needs_consent_def)
    then show ?thesis by (simp add: prod_eq_iff)
  qed
  have "do_refresh env s c now a w = (Inl e, snd (enqueue_crm_status_best_effort s i (wa\<lparr>wdb := d1\<rparr>)))"
    using assms(3-5) post e mark by (simp add: do_refresh_def bindM_app catchM_app)
  then have "r = Inl e" "wdb w1 = d1" using assms(8) by auto
  then show ?thesis using e rows assms(2) by auto
qed

section \<open>The notification\<close>

lemma notify_attempts_trace:
  assumes "notify_attempts k url hdrs body w = (r, w1)"
  shows "\<exists>n. n \<le> k \<and> posts w1 = posts w @ replicate n \<lparr>post_url = url, post_headers = hdrs, post_content = body\<rparr> \<and>
    (\<forall>j < n - 1. \<exists>e. crm_reply w (length (posts w) + j) = Inl e \<and> (isinstance e EConnectError \<or> isinstance e EConnectTimeout)) \<and>
    (r = Inr True \<longrightarrow> n > 0 \<and> (\<exists>st. crm_reply w (length (posts w) + (n - 1)) = Inr st \<and> 200 \<le> st \<and> st < 300))"
  using assms
proof (induction k arbitrary: w)
  case 0
  then show ?case by auto
next
  case (Suc k)
  let ?p = "\<lparr>post_url = url, post_headers = hdrs, post_content = body\<rparr>"
  define v where "v = w\<lparr>posts := posts w @ [?p]\<rparr>"
  have hp: "http_post url hdrs body w = (crm_reply w (length (posts w)), v)" by (simp add: http_post_def v_def)
  show ?case
  proof (cases "\<exists>e. crm_reply w (length (posts w)) = Inl e \<and> (isinstance e EConnectError \<or> isinstance e EConnectTimeout)")
    case True
    then obtain e where e: "crm_reply w (length (posts w)) = Inl e" "isinstance e EConnectError \<or> isinstance e EConnectTimeout" by blast
    then have "notify_attempts k url hdrs body v = (r, w1)" using Suc.prems hp by auto
    from Suc.IH [OF this] obtain n where n: "n \<le> k" "posts w1 = posts v @ replicate n ?p"
      "\<forall>j < n - 1. \<exists>e. crm_reply v (length (posts v) + j) = Inl e \<and> (isinstance e EConnectError \<or> isinstance e EConnectTimeout)"
      "r = Inr True \<longrightarrow> n > 0 \<and> (\<exists>st. crm_reply v (length (posts v) + (n - 1)) = Inr st \<and> 200 \<le> st \<and> st < 300)" by blast
    have cr: "crm_reply v = crm_reply w" "length (posts v) = Suc (length (posts w))" by (simp_all add: v_def)
    have "\<exists>e. crm_reply w (length (posts w) + j) = Inl e \<and> (isinstance e EConnectError \<or> isinstance e EConnectTimeout)"
      if "j < Suc n - 1" for j
    proof (cases j)
      case 0
      then show ?thesis using e by auto
    next
      case (Suc j')
      then show ?thesis using n(3) that cr by (cases n) (auto simp: less_Suc_eq dest: spec [of _ j'])
    qed
    moreover have "r = Inr True \<longrightarrow> Suc n > 0 \<and> (\<exists>st. crm_reply w (length (posts w) + (Suc n - 1)) = Inr st \<and> 200 \<le> st \<and> st < 300)"
      using n(4) cr by (cases n) auto
    ultimately show ?thesis using n(1,2) by (intro exI [of _ "Suc n"]) (simp add: v_def)
  next
    case False
    then have "posts w1 = posts w @ [?p] \<and> (r = Inr True \<longrightarrow> (\<exists>st. crm_reply w (length (posts w)) = Inr st \<and> 200 \<le> st \<and> st < 300))"
      using Suc.prems hp by (auto simp: v_def split: sum.splits if_splits)
    then show ?thesis by (intro exI [of _ 1]) auto
  qed
qed

text \<open>
  C39. The CRM is told of a new mailbox at most once: one notification sends at most three identical requests, every
  request but the last one failed before a connection existed (so the CRM cannot have seen it), and the call reports
  success only if the last one was answered with a 2xx status.
\<close>

theorem ingest_notified_at_most_once:
  assumes "notify_crm_oauth_ingest mac s now crm_state a w = (r, w1)"
  shows "\<exists>n p. n \<le> 3 \<and> posts w1 = posts w @ replicate n p \<and>
    (\<forall>j < n - 1. \<exists>e. crm_reply w (length (posts w) + j) = Inl e \<and> (isinstance e EConnectError \<or> isinstance e EConnectTimeout)) \<and>
    (r = Inr True \<longrightarrow> n > 0 \<and> (\<exists>st. crm_reply w (length (posts w) + (n - 1)) = Inr st \<and> 200 \<le> st \<and> st < 300))"
proof -
  let ?body = "JObj [(''crm_state'', JStr crm_state), (''mail_account_id'', JInt (acc_id a)),
     (''email'', JStr (email a)), (''display_name'', opt_str (display_name a)), (''is_active'', JBool (is_active a))]"
  have none: ?thesis if "r \<noteq> Inr True" "w1 = w" using that by (intro exI [of _ 0]) auto
  show ?thesis
  proof (cases "crm_oauth_ingest_enabled s")
    case False
    then show ?thesis using assms by (intro none) (auto simp: notify_crm_oauth_ingest_def)
  next
    case on: True
    show ?thesis
    proof (cases "serialize ?body")
      case (Inl e)
      then show ?thesis using assms on by (intro none) (auto simp: notify_crm_oauth_ingest_def bindM_app)
    next
      case raw: (Inr raw)
      show ?thesis
      proof (cases "build_signature mac (CRM_PUSH_SECRET s) (now div 1000000) raw")
        case (Inl e)
        then show ?thesis using assms on raw by (intro none) (auto simp: notify_crm_oauth_ingest_def bindM_app)
      next
        case (Inr sig)
        then have "notify_attempts 3 (CRM_OAUTH_INGEST_URL s)
          [(''Content-Type'', u ''application/json''), (''X-Mail-Signature'', u ''sha256='' @ sig),
           (''X-Mail-Timestamp'', str_of_int (now div 1000000))] raw w = (r, w1)"
          using assms on raw by (simp add: notify_crm_oauth_ingest_def bindM_app del: u_simps)
        from notify_attempts_trace [OF this] show ?thesis by blast
      qed
    qed
  qed
qed

section \<open>Concrete runs\<close>

definition toy_env :: oauth_env where
  "toy_env = \<lparr>oe_aead = toy_aead, oe_iv = (\<lambda>_. replicate 12 0), oe_challenge = id, oe_urlencode = (\<lambda>_. []),
     oe_jwt = (\<lambda>_. None), oe_str = (\<lambda>_. []), oe_mac = plain_mac\<rparr>"

definition toy_cipher :: cipher where
  "toy_cipher = \<lparr>ck_current = replicate 32 7, ck_prev = None\<rparr>"

definition outlook_row :: "bytes \<Rightarrow> account" where
  "outlook_row blob = blank_account\<lparr>acc_id := 1, acc_user_id := 1, email := u ''a@outlook.com'', auth_type := ''oauth_outlook'',
     oauth_provider := Some ''outlook'', oauth_refresh_token_encrypted := Some blob\<rparr>"

definition outlook_world :: "bytes \<Rightarrow> pyexc + int \<times> json option \<Rightarrow> world" where
  "outlook_world blob reply = (idle_world (sample_db\<lparr>accounts := [outlook_row blob]\<rparr>))\<lparr>token_reply := (\<lambda>_. reply)\<rparr>"

lemma toy_blob:
  obtains blob where "decrypt (oe_aead toy_env) toy_cipher blob 1 = Inr (u ''rt'')"
proof -
  have "utf8_encode (u ''rt'') = Inr (u ''rt'')" by code_simp
  moreover obtain ad where "aad_for 1 = Inr ad" by (simp add: aad_for_def)
  ultimately obtain blob where e: "encrypt toy_aead toy_cipher (replicate 12 0) (u ''rt'') 1 = Inr blob"
    by (simp add: encrypt_def encrypt_with_aad_def)
  have "length (replicate 12 (0::int)) = IV_LEN" by (simp add: IV_LEN_def)
  then have "decrypt toy_aead toy_cipher blob 1 = Inr (u ''rt'')"
    using decrypt_encrypt [OF toy_aead_ok _ e] \<open>aad_for 1 = Inr ad\<close> by auto
  then show ?thesis using that by (simp add: toy_env_def)
qed

lemma outlook_world_ok: "accounts_ok (wdb (outlook_world blob reply))"
  by (simp add: outlook_world_def idle_world_def accounts_ok_def sample_db_def outlook_row_def blank_account_def account_checks_def opt_len_ok_def)

lemma outlook_world_row: "get_by_id 1 (wdb (outlook_world blob reply)) = Some (outlook_row blob)"
  by (simp add: outlook_world_def idle_world_def sample_db_def outlook_row_def get_by_id_def)

theorem oauth_state_one_shot_witness:
  "\<exists>r w1 w2. exchange_code_headless toy_env default_settings toy_cipher 5 (u ''c'') (u ''st'')
        ((idle_world sample_db)\<lparr>kv := (\<lambda>k. if k = state_key (u ''st'') then Some (KState (u ''v'') (Some (u ''crm'')), Some 600) else None)\<rparr>)
        = (r, w1) \<and> length (token_calls w1) = 1 \<and>
     exchange_code_headless toy_env default_settings toy_cipher 6 (u ''c'') (u ''st'') w1
        = (Inl (state_invalid ''State missing or expired''), w2) \<and> length (token_calls w2) = 1"
proof -
  let ?w = "(idle_world sample_db)\<lparr>kv := (\<lambda>k. if k = state_key (u ''st'') then Some (KState (u ''v'') (Some (u ''crm'')), Some 600) else None)\<rparr>"
  let ?r = "exchange_code_headless toy_env default_settings toy_cipher 5 (u ''c'') (u ''st'') ?w"
  have up: "\<forall>k. rds_up ?w k" by (simp add: idle_world_def)
  have l: "length (token_calls (snd ?r)) = 1" by code_simp
  have d: "?r = (fst ?r, snd ?r)" by simp
  from oauth_state_one_shot [OF d up, of 6 "u (''c'')"] l d show ?thesis by metis
qed



theorem invalid_grant_flags_consent_witness:
  "\<exists>blob r w1 x'. do_refresh toy_env default_settings toy_cipher 0 (outlook_row blob)
       (outlook_world blob (Inr (400, Some (JObj [(''error'', JStr (u ''invalid_grant''))])))) = (r, w1) \<and>
     get_by_id 1 (wdb w1) = Some x' \<and> oauth_needs_consent x' \<and> is_active x'"
proof -
  obtain blob where b: "decrypt (oe_aead toy_env) toy_cipher blob 1 = Inr (u ''rt'')" by (rule toy_blob)
  let ?w = "outlook_world blob (Inr (400, Some (JObj [(''error'', JStr (u ''invalid_grant''))])))"
  let ?r = "do_refresh toy_env default_settings toy_cipher 0 (outlook_row blob) ?w"
  have a1: "acc_id (outlook_row blob) = 1" "oauth_refresh_token_encrypted (outlook_row blob) = Some blob"
    "is_active (outlook_row blob)" by (simp_all add: outlook_row_def blank_account_def)
  have tr: "token_reply ?w (length (token_calls ?w)) = Inr (400, Some (JObj [(''error'', JStr (u ''invalid_grant''))]))"
    by (simp add: outlook_world_def)
  have er: "json_get ''error'' [(''error'', JStr (u ''invalid_grant''))] = Some (JStr (u ''invalid_grant''))" by simp
  have d: "?r = (fst ?r, snd ?r)" by simp
  from invalid_grant_flags_consent [OF outlook_world_ok outlook_world_row a1(1,2) b tr er d] a1(3) d show ?thesis by metis
qed

theorem ingest_notified_at_most_once_witness:
  "\<exists>n p r w1. notify_crm_oauth_ingest plain_mac (push_settings\<lparr>CRM_OAUTH_INGEST_URL := u ''https://crm/o''\<rparr>) 5 (u ''cs'') (outlook_row [])
       ((idle_world sample_db)\<lparr>crm_reply := (\<lambda>k. if k = 0 then Inl (mk_exc EConnectError []) else Inr 200)\<rparr>) = (r, w1) \<and>
     n \<le> 3 \<and> posts w1 = replicate n p \<and> r = Inr True"
proof -
  let ?w = "(idle_world sample_db)\<lparr>crm_reply := (\<lambda>k. if k = 0 then Inl (mk_exc EConnectError []) else Inr 200)\<rparr>"
  let ?r = "notify_crm_oauth_ingest plain_mac (push_settings\<lparr>CRM_OAUTH_INGEST_URL := u ''https://crm/o''\<rparr>) 5 (u ''cs'') (outlook_row []) ?w"
  have d: "?r = (fst ?r, snd ?r)" by simp
  have f: "fst ?r = Inr True" by code_simp
  have "posts ?w = []" by (simp add: idle_world_def)
  with ingest_notified_at_most_once [OF d] f d show ?thesis by auto
qed

end
