(* ===== verification/Housekeeping.thy ===== *)
theory Housekeeping
  imports OAuth
begin

text \<open>
  The small services around the core: the fixed-window rate limiter (\<open>backend/app/rate_limit.py\<close>), the retention job
  (\<open>worker/app/cleanup.py\<close>), the seed of the technical user (\<open>backend/app/auth/service.py\<close>) and the detector of
  unflushed side effects (\<open>shared/session_guards.py\<close>). The locale \<open>window_counter\<close> is the contract of a counter whose
  window starts with its first hit; it is interpreted on the counters kept in Redis.
\<close>

section \<open>Rate limiting\<close>

record limit =
  lim_name :: string
  lim_capacity :: int
  lim_window_seconds :: int

definition LIMIT_EXTERNAL_API :: limit where
  "LIMIT_EXTERNAL_API = \<lparr>lim_name = ''external_api'', lim_capacity = 120, lim_window_seconds = 60\<rparr>"

definition LIMIT_EXTERNAL_WRITE :: limit where
  "LIMIT_EXTERNAL_WRITE = \<lparr>lim_name = ''external_write'', lim_capacity = 60, lim_window_seconds = 60\<rparr>"

definition client_ip :: "pystr option \<Rightarrow> pystr option \<Rightarrow> pystr" where
  \<comment> \<open>the \<open>X-Forwarded-For\<close> header and the peer of the connection\<close>
  "client_ip xff peer = (case xff of
       Some h \<Rightarrow> if h \<noteq> [] then py_strip (hd (split_all 44 h)) else (case peer of Some p \<Rightarrow> p | None \<Rightarrow> u ''0.0.0.0'')
     | None \<Rightarrow> (case peer of Some p \<Rightarrow> p | None \<Rightarrow> u ''0.0.0.0''))"

definition limit_key :: "limit \<Rightarrow> pystr \<Rightarrow> pystr" where
  "limit_key l key = u ''rl:'' @ u (lim_name l) @ u '':'' @ key"

definition count_of :: "int \<Rightarrow> pystr \<Rightarrow> world \<Rightarrow> int" where
  "count_of now k w = (case kv_live now w k of Some (KCount n) \<Rightarrow> n | _ \<Rightarrow> 0)"

definition bump :: "int \<Rightarrow> pystr \<Rightarrow> int \<Rightarrow> world \<Rightarrow> int \<times> world" where
  \<comment> \<open>\<open>INCR\<close>, then \<open>EXPIRE NX\<close>, in one pipeline\<close>
  "bump window k now w =
     (let n = count_of now k w + 1;
          expiry = (if kv_live now w k = None then None else (case kv w k of Some (_, t) \<Rightarrow> t | None \<Rightarrow> None))
      in (n, w\<lparr>kv := (kv w)(k := Some (KCount n, case expiry of None \<Rightarrow> Some (now + window * 1000000) | Some t \<Rightarrow> Some t))\<rparr>))"

definition key_ttl :: "int \<Rightarrow> pystr \<Rightarrow> world \<Rightarrow> int" where
  \<comment> \<open>\<open>TTL\<close>, in whole seconds: -2 for no key, -1 for no expiry\<close>
  "key_ttl now k w = (if kv_live now w k = None then - 2 else (case kv w k of
       Some (_, Some t) \<Rightarrow> (t - now + 500000) div 1000000 | _ \<Rightarrow> - 1))"

definition rate_limited :: "int \<Rightarrow> pyexc" where
  "rate_limited retry = (raise_domain RateLimitedError ''Rate limit exceeded.'')\<lparr>eretry := Some retry\<rparr>"

definition consume :: "limit \<Rightarrow> pystr \<Rightarrow> int \<Rightarrow> (world, unit) prog" where
  "consume l key now =
     (if key = [] then ret ()
      else bindM (redis (bump (lim_window_seconds l) (limit_key l key) now)) (\<lambda>current.
        if lim_capacity l < current then
          bindM (redis (\<lambda>w. (key_ttl now (limit_key l key) w, w))) (\<lambda>ttl.
            throw (rate_limited (if 0 < ttl then max ttl 1 else lim_window_seconds l)))
        else ret ()))"

text \<open>The contract of a fixed-window counter, and its client: the hits of one window are numbered from one.\<close>

locale window_counter =
  fixes hit :: "int \<Rightarrow> 's \<Rightarrow> int \<times> 's"
    and level :: "int \<Rightarrow> 's \<Rightarrow> int"
    and until :: "'s \<Rightarrow> int"
    and size_of :: int
  assumes hit_number: "hit t s = (n, s') \<Longrightarrow> n = level t s + 1"
    and hit_opens: "hit t s = (n, s') \<Longrightarrow> level t s = 0 \<Longrightarrow> until s' = t + size_of"
    and hit_keeps: "hit t s = (n, s') \<Longrightarrow> level t s > 0 \<Longrightarrow> until s' = until s"
    and hit_level: "hit t s = (n, s') \<Longrightarrow> n > 0 \<Longrightarrow> x < until s' \<Longrightarrow> level x s' = n"
begin

fun hits :: "int list \<Rightarrow> 's \<Rightarrow> int list \<times> 's" where
  "hits [] s = ([], s)"
| "hits (t # ts) s = (case hit t s of (n, s1) \<Rightarrow> (case hits ts s1 of (ns, s2) \<Rightarrow> (n # ns, s2)))"

lemma hits_running:
  assumes "\<forall>t \<in> set ts. t < until s" and "\<forall>x < until s. level x s = k" and "k > 0"
  shows "fst (hits ts s) = map (\<lambda>i. k + 1 + int i) [0 ..< length ts]"
  using assms
proof (induction ts arbitrary: s k)
  case (Cons t ts)
  obtain n s1 where h: "hit t s = (n, s1)" by (cases "hit t s")
  have lv: "level t s = k" using Cons.prems(1,2) by simp
  then have n: "n = k + 1" and un: "until s1 = until s" using hit_number [OF h] hit_keeps [OF h] Cons.prems(3) by auto
  have "\<forall>x < until s1. level x s1 = k + 1" using hit_level [OF h] n Cons.prems(3) by simp
  then have "fst (hits ts s1) = map (\<lambda>i. k + 1 + 1 + int i) [0 ..< length ts]"
    using Cons.IH [of s1 "k + 1"] Cons.prems(1,3) un by simp
  moreover have "map (\<lambda>i. k + 1 + int i) [0 ..< length (t # ts)] = (k + 1) # map (\<lambda>i. k + 1 + 1 + int i) [0 ..< length ts]"
    by (simp add: upt_conv_Cons map_Suc_upt [symmetric] comp_def algebra_simps del: upt_Suc)
  ultimately show ?case using h n by (cases "hits ts s1") simp
qed simp

lemma hits_window:
  assumes "level t s = 0" and "\<forall>x \<in> set ts. x < t + size_of"
  shows "fst (hits (t # ts) s) = map (\<lambda>i. 1 + int i) [0 ..< Suc (length ts)]"
proof -
  obtain n s1 where h: "hit t s = (n, s1)" by (cases "hit t s")
  have n: "n = 1" and un: "until s1 = t + size_of" using hit_number [OF h] hit_opens [OF h] assms(1) by auto
  have "\<forall>x < until s1. level x s1 = 1" using hit_level [OF h] n by simp
  then have "fst (hits ts s1) = map (\<lambda>i. 1 + 1 + int i) [0 ..< length ts]" using hits_running [of ts s1 1] assms(2) un by simp
  moreover have "map (\<lambda>i. 1 + int i) [0 ..< Suc (length ts)] = 1 # map (\<lambda>i. 1 + 1 + int i) [0 ..< length ts]"
    by (simp add: upt_conv_Cons map_Suc_upt [symmetric] comp_def algebra_simps del: upt_Suc)
  ultimately show ?thesis using h n by (cases "hits ts s1") simp
qed

end

text \<open>The counter of one key, seen as the part of the key-value store it lives in.\<close>

type_synonym counter = "(int \<times> int) option"

definition counter_level :: "int \<Rightarrow> counter \<Rightarrow> int" where
  "counter_level t c = (case c of Some (n, e) \<Rightarrow> if t < e then max n 0 else 0 | None \<Rightarrow> 0)"

definition counter_hit :: "int \<Rightarrow> int \<Rightarrow> counter \<Rightarrow> int \<times> counter" where
  "counter_hit window t c = (let n = counter_level t c + 1
     in (n, Some (n, if counter_level t c = 0 then t + window else snd (the c))))"

definition counter_until :: "counter \<Rightarrow> int" where
  "counter_until c = (case c of Some (_, e) \<Rightarrow> e | None \<Rightarrow> 0)"

interpretation wc: window_counter "counter_hit window" counter_level counter_until window for window :: int
  by unfold_locales (auto simp: counter_hit_def counter_level_def counter_until_def Let_def split: option.splits if_splits)

definition counter_at :: "pystr \<Rightarrow> world \<Rightarrow> counter option" where
  \<comment> \<open>what a rate-limit key holds; \<open>None\<close> for a key holding something else\<close>
  "counter_at k w = (case kv w k of None \<Rightarrow> Some None | Some (KCount n, Some e) \<Rightarrow> if 0 < n then Some (Some (n, e)) else None | _ \<Rightarrow> None)"

lemma bump_refines:
  assumes "counter_at k w = Some c"
  shows "fst (bump window k t w) = fst (counter_hit (window * 1000000) t c) \<and>
    counter_at k (snd (bump window k t w)) = Some (snd (counter_hit (window * 1000000) t c)) \<and>
    rds_up (snd (bump window k t w)) = rds_up w"
proof (cases "kv w k")
  case None
  then show ?thesis
    using assms by (simp add: counter_at_def bump_def count_of_def kv_live_def counter_hit_def counter_level_def Let_def)
next
  case (Some p)
  then obtain n e where p: "p = (KCount n, Some e)" "0 < n" "c = Some (n, e)"
    using assms by (auto simp: counter_at_def split: prod.splits kvval.splits option.splits if_splits)
  show ?thesis
    using Some p by (auto simp: counter_at_def bump_def count_of_def kv_live_def counter_hit_def counter_level_def Let_def)
qed

definition limit_us :: "limit \<Rightarrow> int" where
  "limit_us l = lim_window_seconds l * 1000000"

fun consume_all :: "limit \<Rightarrow> pystr \<Rightarrow> int list \<Rightarrow> world \<Rightarrow> (pyexc + unit) list \<times> world" where
  \<comment> \<open>successive requests of one client\<close>
  "consume_all l key [] w = ([], w)"
| "consume_all l key (t # ts) w = (case consume l key t w of (r, w1) \<Rightarrow>
     (case consume_all l key ts w1 of (rs, w2) \<Rightarrow> (r # rs, w2)))"

definition accepted :: "pyexc + unit \<Rightarrow> bool" where
  "accepted r \<longleftrightarrow> r = Inr ()"

lemma consume_step:
  assumes "key \<noteq> []" and up: "\<forall>k. rds_up w k" and c: "counter_at (limit_key l key) w = Some c"
  shows "(accepted (fst (consume l key t w)) \<longleftrightarrow> fst (counter_hit (limit_us l) t c) \<le> lim_capacity l) \<and>
    counter_at (limit_key l key) (snd (consume l key t w)) = Some (snd (counter_hit (limit_us l) t c)) \<and>
    (\<forall>k. rds_up (snd (consume l key t w)) k)"
proof -
  let ?k = "limit_key l key" and ?W = "lim_window_seconds l"
  define v where "v = w\<lparr>rds_tick := rds_tick w + 1\<rparr>"
  obtain n v1 where bm: "bump ?W ?k t v = (n, v1)" by (cases "bump ?W ?k t v")
  have "counter_at ?k v = Some c" "rds_up v = rds_up w" using c by (simp_all add: v_def counter_at_def)
  then have b: "n = fst (counter_hit (limit_us l) t c)" "counter_at ?k v1 = Some (snd (counter_hit (limit_us l) t c))" "\<forall>k. rds_up v1 k"
    using bump_refines [of ?k v c ?W t] bm up by (auto simp: limit_us_def)
  have r: "redis (bump ?W ?k t) w = (Inr n, v1)" using up bm by (simp add: redis_def v_def Let_def)
  have "redis (\<lambda>w. (key_ttl t ?k w, w)) v1 = (Inr (key_ttl t ?k (v1\<lparr>rds_tick := rds_tick v1 + 1\<rparr>)), v1\<lparr>rds_tick := rds_tick v1 + 1\<rparr>)"
    using b(3) by (simp add: redis_def Let_def)
  moreover have "counter_at ?k (v1\<lparr>rds_tick := m\<rparr>) = counter_at ?k v1" for m by (simp add: counter_at_def)
  ultimately show ?thesis
    using assms(1) b by (auto simp: consume_def bindM_app r accepted_def)
qed

lemma consume_all_hits:
  assumes "key \<noteq> []" and "\<forall>k. rds_up w k" and "counter_at (limit_key l key) w = Some c"
  shows "map accepted (fst (consume_all l key ts w)) = map (\<lambda>n. n \<le> lim_capacity l) (fst (wc.hits (limit_us l) ts c))"
  using assms(2,3)
proof (induction ts arbitrary: w c)
  case (Cons t ts)
  obtain r w1 where s: "consume l key t w = (r, w1)" by (cases "consume l key t w")
  obtain n c1 where h: "counter_hit (limit_us l) t c = (n, c1)" by (cases "counter_hit (limit_us l) t c")
  have "accepted r \<longleftrightarrow> n \<le> lim_capacity l" "counter_at (limit_key l key) w1 = Some c1" "\<forall>k. rds_up w1 k"
    using consume_step [OF assms(1) Cons.prems, of t] s h by simp_all
  then show ?case using Cons.IH [of w1 c1] s h
    by (cases "consume_all l key ts w1"; cases "wc.hits (limit_us l) ts c1") simp
qed simp

lemma consecutive_below: "length (filter (\<lambda>i. 1 + int i \<le> cap) [0 ..< n]) = min n (nat cap)"
proof (induction n)
  case (Suc n)
  then show ?case by (auto simp: min_def)
qed simp

text \<open>
  C26. The limiter admits exactly its capacity per window: of any number of requests with one key that arrive within one
  window of the first (and find no live counter), precisely the first \<open>capacity\<close> are admitted, in whatever order of times,
  and all others are refused.
\<close>

theorem rate_limit_window:
  assumes "key \<noteq> []" and "\<forall>k. rds_up w k" and "kv w (limit_key l key) = None"
    and "\<forall>x \<in> set ts. x < t + lim_window_seconds l * 1000000"
  shows "map accepted (fst (consume_all l key (t # ts) w)) = map (\<lambda>i. 1 + int i \<le> lim_capacity l) [0 ..< Suc (length ts)] \<and>
    length (filter accepted (fst (consume_all l key (t # ts) w))) = min (Suc (length ts)) (nat (lim_capacity l))"
proof -
  have c: "counter_at (limit_key l key) w = Some None" using assms(3) by (simp add: counter_at_def)
  have "fst (wc.hits (limit_us l) (t # ts) None) = map (\<lambda>i. 1 + int i) [0 ..< Suc (length ts)]"
    by (rule wc.hits_window) (use assms(4) in \<open>auto simp: counter_level_def limit_us_def\<close>)
  then have m: "map accepted (fst (consume_all l key (t # ts) w)) = map (\<lambda>i. 1 + int i \<le> lim_capacity l) [0 ..< Suc (length ts)]"
    using consume_all_hits [OF assms(1,2) c, of "t # ts"] by (simp add: comp_def del: wc.hits.simps consume_all.simps)
  have "length (filter accepted (fst (consume_all l key (t # ts) w))) = length (filter id (map accepted (fst (consume_all l key (t # ts) w))))"
    by (simp add: filter_map comp_def del: consume_all.simps)
  also have "\<dots> = length (filter (\<lambda>i. 1 + int i \<le> lim_capacity l) [0 ..< Suc (length ts)])"
    unfolding m by (simp add: filter_map comp_def)
  finally show ?thesis using m consecutive_below by simp
qed

theorem rate_limit_window_witness:
  "length (filter accepted (fst (consume_all \<lparr>lim_name = ''x'', lim_capacity = 2, lim_window_seconds = 60\<rparr> (u ''ip'') [7, 9, 8, 10]
     (idle_world sample_db)))) = 2"
proof -
  let ?l = "\<lparr>lim_name = ''x'', lim_capacity = 2, lim_window_seconds = 60\<rparr> :: limit"
  have "length (filter accepted (fst (consume_all ?l (u ''ip'') (7 # [9, 8, 10]) (idle_world sample_db)))) = min (Suc 3) (nat 2)"
    using rate_limit_window [of "u ''ip''" "idle_world sample_db" ?l "[9, 8, 10]" 7] by (simp add: idle_world_def del: consume_all.simps)
  then show ?thesis by simp
qed

text \<open>The key is the first element of a header the client writes: behind a proxy that appends, any text can be chosen.\<close>

lemma client_ip_first_element:
  assumes "x \<noteq> []" and "44 \<notin> set x" and "py_strip x = x"
  shows "client_ip (Some (x @ u '', '' @ proxied)) peer = x"
proof -
  have "split_all 44 (x @ 44 # r) = x # split_all 44 r" if "44 \<notin> set x" for x r
    using that by (induction x) auto
  then show ?thesis using assms by (simp add: client_ip_def)
qed

section \<open>Retention\<close>

definition RETENTION_BATCH :: nat where
  "RETENTION_BATCH = 5000"

lemma select_expired_set: "set (select_expired t n d) \<subseteq> msg_id ` {m \<in> set (msgs d). internal_date m < t}"
  by (auto simp: select_expired_def dest!: in_set_takeD)

lemma sort_key_Nil [simp]: "sort_key f xs = [] \<longleftrightarrow> xs = []"
  by (metis set_empty set_sort)

lemma select_expired_Nil: "0 < n \<Longrightarrow> select_expired t n d = [] \<longleftrightarrow> (\<forall>m \<in> set (msgs d). \<not> internal_date m < t)"
  by (auto simp: select_expired_def filter_empty_conv)

lemma delete_expired_less:
  assumes "select_expired t n d \<noteq> []"
  shows "length (msgs (snd (delete_messages (select_expired t n d) d))) < length (msgs d)"
proof -
  obtain i where "i \<in> set (select_expired t n d)" using assms by (cases "select_expired t n d") auto
  then obtain m where "m \<in> set (msgs d)" "msg_id m \<in> set (select_expired t n d)" using select_expired_set by fastforce
  then show ?thesis by (auto simp: delete_messages_def intro: length_filter_less)
qed

function retention_loop :: "int \<Rightarrow> db \<Rightarrow> int \<times> db" where
  "retention_loop threshold d = (let ids = select_expired threshold RETENTION_BATCH d
     in if ids = [] then (0, d)
        else (case delete_messages ids d of (deleted, d1) \<Rightarrow>
          (case retention_loop threshold d1 of (n, d2) \<Rightarrow> (deleted + n, d2))))"
  by pat_completeness auto
termination
  by (relation "measure (\<lambda>(_, d). length (msgs d))") (use delete_expired_less in \<open>auto, metis snd_conv\<close>)

declare retention_loop.simps [simp del]

definition retention_cleanup :: "settings \<Rightarrow> int \<Rightarrow> db \<Rightarrow> int \<times> db" where
  "retention_cleanup s now = retention_loop (now - RETENTION_DAYS s * 86400000000)"

lemma filter_split_length: "length (filter (\<lambda>x. \<not> P x) xs) + length (filter P (xs)) = length xs"
  by (induction xs) auto

lemma retention_loop_exact:
  assumes "msgs_ok d"
  shows "retention_loop t d = (int (length (filter (\<lambda>m. internal_date m < t) (msgs d))), d\<lparr>msgs := filter (\<lambda>m. \<not> internal_date m < t) (msgs d)\<rparr>)"
  using assms
proof (induction t d rule: retention_loop.induct)
  case (1 t d)
  let ?ids = "select_expired t RETENTION_BATCH d" and ?old = "\<lambda>m. internal_date m < t"
  have pos: "0 < RETENTION_BATCH" by (simp add: RETENTION_BATCH_def)
  show ?case
  proof (cases "?ids = []")
    case True
    then have "\<forall>m \<in> set (msgs d). \<not> ?old m" using select_expired_Nil [OF pos] by blast
    then have "filter ?old (msgs d) = []" "filter (\<lambda>m. \<not> ?old m) (msgs d) = msgs d" by (simp_all add: filter_id_conv)
    then show ?thesis using True by (subst retention_loop.simps) simp
  next
    case False
    define d1 where "d1 = d\<lparr>msgs := filter (\<lambda>m. msg_id m \<notin> set ?ids) (msgs d)\<rparr>"
    have del: "delete_messages ?ids d = (int (length (filter (\<lambda>m. msg_id m \<in> set ?ids) (msgs d))), d1)"
      by (simp add: delete_messages_def d1_def)
    have ok1: "msgs_ok d1" using 1(2) by (auto simp: msgs_ok_def d1_def distinct_map_filter)
    note IH = 1(1) [OF refl False del [symmetric] ok1]
    have inj: "inj_on msg_id (set (msgs d))" using 1(2) by (simp add: msgs_ok_def distinct_map)
    have hit: "?old m" if "m \<in> set (msgs d)" "msg_id m \<in> set ?ids" for m
      using select_expired_set [of t RETENTION_BATCH d] that inj by (auto dest: inj_onD)
    have keep: "filter (\<lambda>m. \<not> ?old m) (msgs d1) = filter (\<lambda>m. \<not> ?old m) (msgs d)"
      unfolding d1_def using hit by (simp add: conj_commute) (rule filter_cong [OF refl], blast)
    have "filter ?old (msgs d1) = filter (\<lambda>m. \<not> msg_id m \<in> set ?ids) (filter ?old (msgs d))" by (simp add: d1_def conj_commute)
    moreover have "filter (\<lambda>m. msg_id m \<in> set ?ids) (msgs d) = filter (\<lambda>m. msg_id m \<in> set ?ids) (filter ?old (msgs d))"
      using hit by (simp) (rule filter_cong [OF refl], blast)
    ultimately have "length (filter (\<lambda>m. msg_id m \<in> set ?ids) (msgs d)) + length (filter ?old (msgs d1)) = length (filter ?old (msgs d))"
      using filter_split_length [of "\<lambda>m. msg_id m \<in> set ?ids" "filter ?old (msgs d)"] by simp
    then have count: "int (length (filter (\<lambda>m. msg_id m \<in> set ?ids) (msgs d))) + int (length (filter ?old (msgs d1))) =
        int (length (filter ?old (msgs d)))" by linarith
    have rest: "d1\<lparr>msgs := filter (\<lambda>m. \<not> ?old m) (msgs d1)\<rparr> = d\<lparr>msgs := filter (\<lambda>m. \<not> ?old m) (msgs d)\<rparr>"
      unfolding keep by (simp add: d1_def)
    have "retention_loop t d = (int (length (filter (\<lambda>m. msg_id m \<in> set ?ids) (msgs d))) + int (length (filter ?old (msgs d1))),
        d1\<lparr>msgs := filter (\<lambda>m. \<not> ?old m) (msgs d1)\<rparr>)"
      using False by (subst retention_loop.simps) (simp only: Let_def del IH if_False prod.case)
    then show ?thesis unfolding count rest .
  qed
qed

text \<open>
  C19. The retention job terminates and deletes exactly the expired messages: what remains are the messages whose date lies
  within \<open>RETENTION_DAYS\<close>, in their order; every other table is untouched, all constraints still hold, and the number it
  reports is the number of deleted rows.
\<close>

theorem retention_deletes_exactly_expired:
  assumes "db_ok d" and "retention_cleanup s now d = (n, d')"
  shows "msgs d' = filter (\<lambda>m. now - RETENTION_DAYS s * 86400000000 \<le> internal_date m) (msgs d) \<and>
    n = int (length (msgs d)) - int (length (msgs d')) \<and> accounts d' = accounts d \<and> users d' = users d \<and> db_ok d'"
proof -
  let ?t = "now - RETENTION_DAYS s * 86400000000"
  have ok: "msgs_ok d" using assms(1) by (simp add: db_ok_def)
  have r: "n = int (length (filter (\<lambda>m. internal_date m < ?t) (msgs d)))" "d' = d\<lparr>msgs := filter (\<lambda>m. \<not> internal_date m < ?t) (msgs d)\<rparr>"
    using assms(2) retention_loop_exact [OF ok, of ?t] by (simp_all add: retention_cleanup_def)
  have "db_ok d'" using assms(1) by (auto simp: r(2) db_ok_def users_ok_def accounts_ok_def msgs_ok_def distinct_map_filter)
  moreover have "n = int (length (msgs d)) - int (length (msgs d'))"
    using r filter_split_length [of "\<lambda>m. internal_date m < ?t" "msgs d"] by simp
  ultimately show ?thesis using r(2) by (simp add: not_less)
qed

theorem retention_deletes_exactly_expired_witness:
  "\<exists>n d'. retention_cleanup (default_settings\<lparr>RETENTION_DAYS := 1\<rparr>) 86400000001 two_msgs = (n, d') \<and> msgs d' = [] \<and> n = 2"
proof -
  obtain n d' where d: "retention_cleanup (default_settings\<lparr>RETENTION_DAYS := 1\<rparr>) 86400000001 two_msgs = (n, d')" by (rule prod.exhaust)
  have ok: "db_ok two_msgs" by code_simp
  have "filter (\<lambda>m. (1::int) \<le> internal_date m) (msgs two_msgs) = [] \<and> length (msgs two_msgs) = 2" by code_simp
  with retention_deletes_exactly_expired [OF ok d] d show ?thesis by simp
qed

section \<open>The technical user\<close>

definition CRM_SERVICE_USERNAME :: pystr where
  "CRM_SERVICE_USERNAME = u ''crm-service''"

definition seed_crm_service_user :: "(db, string) prog" where
  \<comment> \<open>the insert runs in a savepoint: a constraint violation undoes the insert only\<close>
  "seed_crm_service_user = bindM (\<lambda>d. (user_by_username CRM_SERVICE_USERNAME d, d)) (\<lambda>existing. case existing of
       Some x \<Rightarrow> if usr_role x \<noteq> ''super_admin''
         then seqM (modifyM (\<lambda>d. d\<lparr>users := update_where (\<lambda>y. usr_id y = usr_id x) (\<lambda>y. y\<lparr>usr_role := ''super_admin''\<rparr>) (users d)\<rparr>)) (ret ''updated'')
         else ret ''unchanged''
     | None \<Rightarrow> catchM (seqM (transaction (create_user \<lparr>usr_id = 0, usr_username = CRM_SERVICE_USERNAME, usr_email = None,
             usr_display_name = None, usr_password_hash = None, usr_password_encrypted = None, usr_role = ''super_admin'',
             usr_password_reset_required = False\<rparr>)) (ret ''created''))
         (\<lambda>e. if isinstance e EIntegrityError then ret ''unchanged'' else throw e))"

lemma find_snoc: "find P (xs @ ys) = (case find P xs of None \<Rightarrow> find P ys | Some x \<Rightarrow> Some x)"
  by (induction xs) auto

lemma lower_crm [simp]: "py_lower CRM_SERVICE_USERNAME = CRM_SERVICE_USERNAME"
  by code_simp

lemma user_by_username_unique:
  assumes "users_ok d"
  shows "user_by_username n d = Inr (find (\<lambda>x. usr_username x = py_lower n) (users d))"
proof -
  have "distinct (map usr_username xs) \<Longrightarrow>
    scalar_one_or_none (filter (\<lambda>x. usr_username x = m) xs) = Inr (find (\<lambda>x. usr_username x = m) xs)" for xs m
  proof (induction xs)
    case (Cons a xs)
    then show ?case
      using filter_key_none [of m usr_username xs] by (auto simp: scalar_one_or_none_def image_iff)
  qed (simp add: scalar_one_or_none_def)
  from this [of "users d" "py_lower n"] show ?thesis using assms by (simp add: users_ok_def user_by_username_def)
qed

lemma seed_once:
  assumes ok: "users_ok d"
  shows "\<exists>r d'. seed_crm_service_user d = (Inr r, d') \<and> users_ok d' \<and> accounts d' = accounts d \<and> msgs d' = msgs d \<and>
    (\<exists>x. find (\<lambda>x. usr_username x = CRM_SERVICE_USERNAME) (users d') = Some x \<and> usr_role x = ''super_admin'' \<and>
      (\<forall>y. find (\<lambda>x. usr_username x = CRM_SERVICE_USERNAME) (users d) = Some y \<longrightarrow> usr_id x = usr_id y)) \<and>
    (r = ''unchanged'' \<longrightarrow> d' = d) \<and> usr_id ` set (users d) \<subseteq> usr_id ` set (users d')"
proof (cases "find (\<lambda>x. usr_username x = CRM_SERVICE_USERNAME) (users d)")
  case (Some x)
  have q: "user_by_username CRM_SERVICE_USERNAME d = Inr (Some x)" using user_by_username_unique [OF ok] Some by simp
  show ?thesis
  proof (cases "usr_role x = ''super_admin''")
    case True
    then show ?thesis using q Some ok by (auto simp: seed_crm_service_user_def bindM_app)
  next
    case False
    let ?f = "\<lambda>y. y\<lparr>usr_role := ''super_admin''\<rparr>"
    let ?us = "update_where (\<lambda>y. usr_id y = usr_id x) ?f (users d)"
    have m: "map usr_id ?us = map usr_id (users d)" "map usr_username ?us = map usr_username (users d)"
      by (rule map_update_where, simp)+
    have ok': "users_ok (d\<lparr>users := ?us\<rparr>)"
      using ok unfolding users_ok_def by (simp add: m) (auto simp: set_update_where user_checks_def)
    have "find (\<lambda>x. usr_username x = CRM_SERVICE_USERNAME) (update_where P ?f xs) =
        map_option (\<lambda>y. if P y then ?f y else y) (find (\<lambda>x. usr_username x = CRM_SERVICE_USERNAME) xs)" for P and xs :: "user list"
      by (induction xs) auto
    from this [of "\<lambda>y. usr_id y = usr_id x" "users d"]
    have f: "find (\<lambda>x. usr_username x = CRM_SERVICE_USERNAME) ?us = Some (?f x)" unfolding Some by simp
    have "usr_id ` set ?us = usr_id ` set (users d)" using arg_cong [OF m(1), of set] by simp
    then show ?thesis using q False ok' f Some by (auto simp: seed_crm_service_user_def bindM_app)
  qed
next
  case None
  define row where "row = \<lparr>usr_id = usr_seq d, usr_username = CRM_SERVICE_USERNAME, usr_email = None,
     usr_display_name = None, usr_password_hash = None, usr_password_encrypted = None, usr_role = ''super_admin'',
     usr_password_reset_required = False\<rparr>"
  have q: "user_by_username CRM_SERVICE_USERNAME d = Inr None" using user_by_username_unique [OF ok] None by simp
  have fresh: "CRM_SERVICE_USERNAME \<notin> usr_username ` set (users d)" using None by (auto simp: find_None_iff)
  let ?d2 = "d\<lparr>usr_seq := usr_seq d + 1, users := users d @ [row]\<rparr>"
  have ok': "users_ok ?d2"
    using ok fresh by (force simp: users_ok_def row_def user_checks_def opt_len_ok_def)
  have c: "create_user \<lparr>usr_id = 0, usr_username = CRM_SERVICE_USERNAME, usr_email = None, usr_display_name = None,
      usr_password_hash = None, usr_password_encrypted = None, usr_role = ''super_admin'', usr_password_reset_required = False\<rparr> d = (Inr row, ?d2)"
    using ok' by (simp add: create_user_def Let_def row_def)
  have "find (\<lambda>x. usr_username x = CRM_SERVICE_USERNAME) (users d @ [row]) = Some row"
    using None by (simp add: find_snoc row_def)
  then show ?thesis
    using q c ok' None by (simp add: seed_crm_service_user_def bindM_app catchM_app transaction_def row_def image_Un) blast
qed

text \<open>
  Seeding the technical user is idempotent: it always succeeds on a well-formed user table, after it there is exactly
  one \<open>crm-service\<close> user and it is super admin, an existing row keeps its id (so the mailboxes it owns), no other user is
  lost, and running it again reports \<open>unchanged\<close> and changes nothing.
\<close>

theorem seed_idempotent:
  assumes "users_ok d"
  shows "\<exists>r d' x. seed_crm_service_user d = (Inr r, d') \<and> seed_crm_service_user d' = (Inr ''unchanged'', d') \<and> users_ok d' \<and>
    accounts d' = accounts d \<and> filter (\<lambda>y. usr_username y = CRM_SERVICE_USERNAME) (users d') = [x] \<and> usr_role x = ''super_admin'' \<and>
    (\<forall>y. find (\<lambda>y. usr_username y = CRM_SERVICE_USERNAME) (users d) = Some y \<longrightarrow> usr_id x = usr_id y)"
proof -
  obtain r d' x where s: "seed_crm_service_user d = (Inr r, d')" "users_ok d'" "accounts d' = accounts d"
    "find (\<lambda>x. usr_username x = CRM_SERVICE_USERNAME) (users d') = Some x" "usr_role x = ''super_admin''"
    "\<forall>y. find (\<lambda>x. usr_username x = CRM_SERVICE_USERNAME) (users d) = Some y \<longrightarrow> usr_id x = usr_id y"
    using seed_once [OF assms] by blast
  have q: "user_by_username CRM_SERVICE_USERNAME d' = Inr (Some x)" using user_by_username_unique [OF s(2)] s(4) by simp
  then have "seed_crm_service_user d' = (Inr ''unchanged'', d')" using s(5) by (simp add: seed_crm_service_user_def bindM_app)
  moreover have "filter (\<lambda>y. usr_username y = CRM_SERVICE_USERNAME) (users d') = [x]"
    using q by (auto simp: user_by_username_def scalar_one_or_none_def split: list.splits)
  ultimately show ?thesis using s by blast
qed

theorem seed_idempotent_witness:
  "\<exists>r d' x. seed_crm_service_user empty_db = (Inr r, d') \<and> filter (\<lambda>y. usr_username y = CRM_SERVICE_USERNAME) (users d') = [x]"
proof -
  have "users_ok empty_db" by code_simp
  from seed_idempotent [OF this] show ?thesis by blast
qed

section \<open>Unflushed side effects\<close>

record session_guard =
  sg_event :: pystr
  sg_field :: pystr
  sg_owner :: pystr
  sg_pending :: "int list" \<comment> \<open>what the probe returns\<close>

definition TRUTHY :: "pystr list" where
  "TRUTHY = map u [''1'', ''true'', ''yes'', ''on'']"

definition strict_mode :: "pystr option \<Rightarrow> bool \<Rightarrow> bool" where
  \<comment> \<open>the environment variable, and whether pytest runs\<close>
  "strict_mode raw under_pytest = (case raw of Some r \<Rightarrow> py_lower (py_strip r) \<in> set TRUTHY | None \<Rightarrow> under_pytest)"

definition int_list_repr :: "int list \<Rightarrow> pystr" where
  "int_list_repr xs = u ''['' @ intersperse_concat (u '', '') (map str_of_int xs) @ u '']''"

definition guard_violations :: "session_guard list \<Rightarrow> pystr list" where
  "guard_violations guards = map (\<lambda>g. sg_owner g @ u ''.'' @ sg_event g @ u '': '' @ sg_field g @ u ''='' @ int_list_repr (sg_pending g))
     (filter (\<lambda>g. sg_pending g \<noteq> []) guards)"

definition check_session_guards :: "bool \<Rightarrow> session_guard list \<Rightarrow> pyexc + pystr list" where
  "check_session_guards strict guards =
     (if guard_violations guards \<noteq> [] \<and> strict
      then Inl (mk_exc EAssertionError (u ''deferred side effects dropped at session teardown '' @ u ''(a caller committed a status-writing change and never flushed it '' @ [8212]
             @ u '' ADR-0046 '' @ [167] @ u ''2.1.1 / TD-054): '' @ intersperse_concat (u ''; '') (guard_violations guards)))
      else Inr (guard_violations guards))"

lemma check_session_guards_silent:
  "check_session_guards strict guards = Inr [] \<longleftrightarrow> (\<forall>g \<in> set guards. sg_pending g = [])"
  by (auto simp: check_session_guards_def guard_violations_def filter_empty_conv)

lemma check_session_guards_prod: "\<exists>v. check_session_guards False guards = Inr v"
  by (simp add: check_session_guards_def)

end
