(* ===== verification/Account_Service.thy ===== *)
theory Account_Service
  imports Account_Probe Housekeeping
begin

text \<open>
  \<open>backend/app/accounts/service.py\<close>: creating, changing, toggling, deleting and testing mailboxes. The service runs in the
  transaction of its caller, so its state \<open>uow\<close> is the database as the transaction sees it together with the queue of
  deferred status events and the number of its leading entries that are committed; \<open>begin_block\<close> is the caller's
  \<open>async with db.begin()\<close> with the two session listeners. The probe is \<open>Account_Probe\<close>; it touches no state.
\<close>

section \<open>The unit of work\<close>

record uow =
  u_db :: db
  pending :: "int list"
  committed :: nat

definition in_tx :: "(db, 'a) prog \<Rightarrow> (uow, 'a) prog" where
  "in_tx m x = (case m (u_db x) of (r, d) \<Rightarrow> (r, x\<lparr>u_db := d\<rparr>))"

definition mark_pending_committed :: "uow \<Rightarrow> uow" where
  \<comment> \<open>\<open>after_commit\<close> of the outermost transaction\<close>
  "mark_pending_committed x = x\<lparr>committed := length (pending x)\<rparr>"

definition discard_pending :: "uow \<Rightarrow> uow" where
  \<comment> \<open>\<open>after_soft_rollback\<close> of the outermost transaction\<close>
  "discard_pending x = x\<lparr>pending := take (committed x) (pending x)\<rparr>"

definition begin_block :: "(uow, 'a) prog \<Rightarrow> (uow, 'a) prog" where
  "begin_block m x = (case m x of
       (Inr v, x1) \<Rightarrow> (Inr v, mark_pending_committed x1)
     | (Inl e, x1) \<Rightarrow> (Inl e, discard_pending (x1\<lparr>u_db := rollback (u_db x) (u_db x1)\<rparr>)))"

definition defer_status :: "int \<Rightarrow> (uow, unit) prog" where
  "defer_status i = modifyM (\<lambda>x. x\<lparr>pending := pending x @ [i]\<rparr>)"

section \<open>Parameters and results\<close>

record svc_env =
  sv_settings :: settings
  sv_cipher :: cipher
  sv_aead :: aead
  sv_iv :: "nat \<Rightarrow> bytes"
  sv_net :: net_env
  sv_token :: "account \<Rightarrow> pystr task"

record visibility_scope =
  vs_user_id :: int
  vs_role :: string

definition is_super_admin :: "visibility_scope \<Rightarrow> bool" where
  "is_super_admin sc \<longleftrightarrow> vs_role sc = ''super_admin''"

record owner_brief =
  ob_id :: int
  ob_username :: pystr
  ob_display_name :: "pystr option"

record mail_account_dto =
  dto_id :: int
  dto_user_id :: int
  dto_owner :: owner_brief
  dto_email :: pystr
  dto_display_name :: "pystr option"
  dto_auth_type :: string
  dto_oauth_needs_consent :: bool
  dto_imap_host :: pystr
  dto_imap_port :: int
  dto_imap_ssl :: bool
  dto_smtp_host :: pystr
  dto_smtp_port :: int
  dto_smtp_ssl :: bool
  dto_smtp_starttls :: bool
  dto_smtp_username :: "pystr option"
  dto_is_active :: bool
  dto_last_synced_at :: "int option"
  dto_last_sync_error :: "pystr option"
  dto_consecutive_failures :: int
  dto_created_at :: int

definition to_dto :: "account \<Rightarrow> user \<Rightarrow> mail_account_dto" where
  "to_dto a o1 = \<lparr>dto_id = acc_id a, dto_user_id = acc_user_id a,
     dto_owner = \<lparr>ob_id = usr_id o1, ob_username = usr_username o1, ob_display_name = usr_display_name o1\<rparr>,
     dto_email = email a, dto_display_name = display_name a, dto_auth_type = auth_type a,
     dto_oauth_needs_consent = oauth_needs_consent a, dto_imap_host = imap_host a, dto_imap_port = imap_port a,
     dto_imap_ssl = imap_ssl a, dto_smtp_host = smtp_host a, dto_smtp_port = smtp_port a, dto_smtp_ssl = smtp_ssl a,
     dto_smtp_starttls = smtp_starttls a, dto_smtp_username = normalize_optional_login (smtp_username a),
     dto_is_active = is_active a, dto_last_synced_at = last_synced_at a, dto_last_sync_error = last_sync_error a,
     dto_consecutive_failures = consecutive_failures a, dto_created_at = created_at a\<rparr>"

definition with_field :: "string \<Rightarrow> pyexc \<Rightarrow> pyexc" where
  "with_field f e = e\<lparr>efield := Some f\<rparr>"

definition not_found :: pyexc where
  "not_found = domain_error NotFoundError None"

definition email_conflict :: pyexc where
  "email_conflict = with_field ''email'' (raise_domain ConflictError ''Email already added'')"

definition assertion_error :: pyexc where
  "assertion_error = mk_exc EAssertionError []"

definition present :: "pyexc \<Rightarrow> 'a option \<Rightarrow> ('s, 'a) prog" where
  \<comment> \<open>\<open>if x is None: raise e\<close>\<close>
  "present e v = (case v of None \<Rightarrow> throw e | Some x \<Rightarrow> ret x)"

section \<open>Tests\<close>

definition run_task :: "'a task \<Rightarrow> pyexc + 'a" where
  "run_task m = (case m (0, []) of (Done r, _) \<Rightarrow> r | _ \<Rightarrow> Inl timeout_error)"

definition require :: "pystr option \<Rightarrow> string \<Rightarrow> pyexc + unit" where
  "require v f = (if given v then Inr () else Inl (with_field f (raise_domain ValidationError (f @ '' is required''))))"

fun first_error :: "(pyexc + unit) list \<Rightarrow> (pyexc + 'a) \<Rightarrow> pyexc + 'a" where
  "first_error [] r = r"
| "first_error (Inl e # cs) r = Inl e"
| "first_error (Inr _ # cs) r = first_error cs r"

definition visible_user_ids :: "visibility_scope \<Rightarrow> pyexc + int list option" where
  "visible_user_ids sc = (if is_super_admin sc then Inr None
     else Inl (raise_domain ForbiddenError ''Only the crm-service scope may manage mailboxes''))"

definition visible_account :: "visibility_scope \<Rightarrow> int \<Rightarrow> (uow, account) prog" where
  \<comment> \<open>the first lines of every operation on an existing mailbox\<close>
  "visible_account sc i = bindM (liftE (visible_user_ids sc)) (\<lambda>v.
     bindM (getM (\<lambda>x. get_for_user_ids v i (u_db x))) (present not_found))"

definition decrypt_for :: "svc_env \<Rightarrow> bytes \<Rightarrow> account \<Rightarrow> pyexc + pystr" where
  "decrypt_for E blob a = decrypt (sv_aead E) (sv_cipher E) blob (acc_id a)"

definition request_of_account :: "account \<Rightarrow> pystr \<Rightarrow> pystr \<Rightarrow> test_request" where
  "request_of_account a imap_pw smtp_pw = \<lparr>tr_account_id = None, tr_email = Some (email a), tr_password = Some imap_pw,
     tr_imap_host = Some (imap_host a), tr_imap_port = imap_port a, tr_imap_ssl = imap_ssl a, tr_smtp_host = Some (smtp_host a),
     tr_smtp_port = smtp_port a, tr_smtp_ssl = smtp_ssl a, tr_smtp_starttls = smtp_starttls a, tr_smtp_username = smtp_username a,
     tr_smtp_password = Some smtp_pw\<rparr>"

definition test_existing_account :: "svc_env \<Rightarrow> visibility_scope \<Rightarrow> int \<Rightarrow> (uow, test_result) prog" where
  "test_existing_account E sc i = bindM (visible_account sc i) (\<lambda>a.
     if auth_type a = ''oauth_outlook'' then liftE (run_task (test_oauth_account (sv_token E a) (sv_settings E) (sv_net E) a))
     else (case encrypted_password a of None \<Rightarrow> throw assertion_error | Some blob \<Rightarrow>
       bindM (liftE (decrypt_for E blob a)) (\<lambda>imap_pw.
       bindM (liftE (case smtp_encrypted_password a of None \<Rightarrow> Inr None
           | Some b \<Rightarrow> map_sum id (\<lambda>t. normalize_optional_secret (Some t)) (decrypt_for E b a))) (\<lambda>stored.
       liftE (run_task (test_credentials (sv_settings E) (sv_net E)
         (request_of_account a imap_pw (case stored of None \<Rightarrow> imap_pw | Some t \<Rightarrow> t))))))))"

definition test_mailbox :: "svc_env \<Rightarrow> test_request \<Rightarrow> visibility_scope option \<Rightarrow> (uow, test_result) prog" where
  "test_mailbox E q sc = (case tr_account_id q of
       Some i \<Rightarrow> (case sc of None \<Rightarrow> throw (raise_domain ValidationError ''account_id requires an authenticated scope'')
         | Some v \<Rightarrow> test_existing_account E v i)
     | None \<Rightarrow> liftE (first_error [require (tr_email q) ''email'', require (tr_password q) ''password'',
           require (tr_imap_host q) ''imap_host'', require (tr_smtp_host q) ''smtp_host'']
         (run_task (test_credentials (sv_settings E) (sv_net E) q))))"

section \<open>Create\<close>

definition resolve_target_user_id :: "visibility_scope \<Rightarrow> int option \<Rightarrow> (uow, int) prog" where
  "resolve_target_user_id sc target =
     (if \<not> is_super_admin sc then throw (raise_domain ForbiddenError ''Only the crm-service scope may manage mailboxes'')
      else (case target of None \<Rightarrow> ret (vs_user_id sc)
        | Some t \<Rightarrow> bindM (getM (\<lambda>x. user_by_id t (u_db x))) (\<lambda>v. case v of None \<Rightarrow> throw not_found | Some _ \<Rightarrow> ret t)))"

definition encrypt_for :: "svc_env \<Rightarrow> nat \<Rightarrow> pystr \<Rightarrow> int \<Rightarrow> pyexc + bytes" where
  "encrypt_for E k t i = encrypt (sv_aead E) (sv_cipher E) (sv_iv E k) t i"

definition new_row :: "create_request \<Rightarrow> int \<Rightarrow> int \<Rightarrow> bytes \<Rightarrow> bytes option \<Rightarrow> account" where
  \<comment> \<open>the keyword arguments of \<open>insert_with_id\<close>\<close>
  "new_row p i owner enc smtp_enc = blank_account\<lparr>acc_id := i, acc_user_id := owner, email := lf_email p,
     encrypted_password := Some enc, imap_host := lf_imap_host p, imap_port := lf_imap_port p, imap_ssl := lf_imap_ssl p,
     smtp_host := lf_smtp_host p, smtp_port := lf_smtp_port p, smtp_ssl := lf_smtp_ssl p, smtp_starttls := lf_smtp_starttls p,
     smtp_username := lf_smtp_username p, smtp_encrypted_password := smtp_enc, display_name := cr_display_name p\<rparr>"

definition store_mailbox :: "svc_env \<Rightarrow> int \<Rightarrow> int \<Rightarrow> create_request \<Rightarrow> (uow, mail_account_dto) prog" where
  \<comment> \<open>the part after the probe: owner, id, encryption, insert\<close>
  "store_mailbox E now target p =
     bindM (bindM (getM (\<lambda>x. user_by_id target (u_db x))) (present not_found)) (\<lambda>owner.
     bindM (in_tx next_account_id) (\<lambda>i.
     bindM (liftE (encrypt_for E 0 (lf_password p) i)) (\<lambda>enc.
     bindM (liftE (if given (lf_smtp_password p) then map_sum id Some (encrypt_for E 1 (the (lf_smtp_password p)) i) else Inr None)) (\<lambda>smtp_enc.
     bindM (catchM (in_tx (insert_with_id now (new_row p i target enc smtp_enc)))
        (\<lambda>e. if isinstance e EIntegrityError then throw email_conflict else throw e)) (\<lambda>a.
     ret (to_dto a owner))))))"

definition create_mailbox :: "svc_env \<Rightarrow> int \<Rightarrow> visibility_scope \<Rightarrow> create_request \<Rightarrow> (uow, mail_account_dto) prog" where
  "create_mailbox E now sc p =
     bindM (resolve_target_user_id sc (cr_target_user_id p)) (\<lambda>target.
     bindM (\<lambda>x. (find_by_user_email target (lf_email p) (u_db x), x)) (\<lambda>existing. if existing \<noteq> None then throw email_conflict else
     bindM (liftE (as_test_request p)) (\<lambda>q.
     bindM (test_mailbox E q None) (\<lambda>_. store_mailbox E now target p))))"

section \<open>Update\<close>

definition changed :: "'a option \<Rightarrow> 'a \<Rightarrow> bool" where
  "changed v x \<longleftrightarrow> v \<noteq> None \<and> v \<noteq> Some x"

definition oauth_forbidden_changes :: "update_request \<Rightarrow> account \<Rightarrow> bool" where
  "oauth_forbidden_changes p a \<longleftrightarrow> changed (pf_email p) (email a) \<or> given (pf_password p) \<or>
     changed (pf_imap_host p) (imap_host a) \<or> changed (pf_imap_port p) (imap_port a) \<or> changed (pf_imap_ssl p) (imap_ssl a) \<or>
     changed (pf_smtp_host p) (smtp_host a) \<or> changed (pf_smtp_port p) (smtp_port a) \<or> changed (pf_smtp_ssl p) (smtp_ssl a) \<or>
     changed (pf_smtp_starttls p) (smtp_starttls a) \<or> (pf_smtp_username p \<noteq> None \<and> pf_smtp_username p \<noteq> smtp_username a) \<or>
     given (pf_smtp_password p)"

definition or_int :: "int option \<Rightarrow> int \<Rightarrow> int" where
  "or_int v d = (case v of None \<Rightarrow> d | Some n \<Rightarrow> if n = 0 then d else n)"

definition or_kept :: "'a option \<Rightarrow> 'a \<Rightarrow> 'a" where
  "or_kept v d = (case v of None \<Rightarrow> d | Some x \<Rightarrow> x)"

definition merged :: "update_request \<Rightarrow> account \<Rightarrow> account" where
  \<comment> \<open>the nine \<open>new_...\<close> values, written over the row\<close>
  "merged p a = a\<lparr>email := or_else (pf_email p) (email a), imap_host := or_else (pf_imap_host p) (imap_host a),
     imap_port := or_int (pf_imap_port p) (imap_port a), imap_ssl := or_kept (pf_imap_ssl p) (imap_ssl a),
     smtp_host := or_else (pf_smtp_host p) (smtp_host a), smtp_port := or_int (pf_smtp_port p) (smtp_port a),
     smtp_ssl := or_kept (pf_smtp_ssl p) (smtp_ssl a), smtp_starttls := or_kept (pf_smtp_starttls p) (smtp_starttls a),
     smtp_username := (if pf_smtp_username p \<noteq> None then normalize_optional_login (pf_smtp_username p)
        else normalize_optional_login (smtp_username a))\<rparr>"

definition creds_changed :: "update_request \<Rightarrow> bool" where
  "creds_changed p \<longleftrightarrow> given (pf_password p) \<or> given (pf_smtp_password p)"

definition dn_fields :: "update_request \<Rightarrow> (account \<Rightarrow> account) list" where
  "dn_fields p = (if ur_clear_display_name p then [\<lambda>a. a\<lparr>display_name := None\<rparr>]
     else if pf_display_name p \<noteq> None then [\<lambda>a. a\<lparr>display_name := pf_display_name p\<rparr>] else [])"

definition reset_health :: "account \<Rightarrow> account" where
  "reset_health a = a\<lparr>is_active := True, last_sync_error := None, consecutive_failures := 0, disabled_alert_sent_at := None\<rparr>"

definition reloaded :: "int \<Rightarrow> (uow, mail_account_dto) prog" where
  \<comment> \<open>re-read the row and its owner\<close>
  "reloaded i = bindM (bindM (getM (\<lambda>x. get_by_id i (u_db x))) (present assertion_error)) (\<lambda>a.
     bindM (bindM (getM (\<lambda>x. user_by_id (acc_user_id a) (u_db x))) (present assertion_error)) (\<lambda>o1. ret (to_dto a o1)))"

definition retest :: "svc_env \<Rightarrow> update_request \<Rightarrow> account \<Rightarrow> (uow, unit) prog" where
  \<comment> \<open>the branch \<open>if creds_changed\<close>\<close>
  "retest E p a =
     bindM (liftE (if given (pf_password p) then Inr (the (pf_password p))
       else (case encrypted_password a of None \<Rightarrow> Inl assertion_error | Some b \<Rightarrow> decrypt_for E b a))) (\<lambda>imap_pw.
     bindM (liftE (if given (pf_smtp_password p) then Inr (the (pf_smtp_password p))
       else (case smtp_encrypted_password a of None \<Rightarrow> Inr imap_pw | Some b \<Rightarrow> decrypt_for E b a))) (\<lambda>smtp_pw.
     bindM (liftE (validate_test_request (request_of_account (merged p a) imap_pw smtp_pw))) (\<lambda>q.
     bindM (test_mailbox E q None) (\<lambda>_. ret ()))))"

definition update_mailbox :: "svc_env \<Rightarrow> int \<Rightarrow> visibility_scope \<Rightarrow> int \<Rightarrow> update_request \<Rightarrow> (uow, mail_account_dto) prog" where
  "update_mailbox E now sc i p = bindM (visible_account sc i) (\<lambda>a.
     if auth_type a = ''oauth_outlook'' then
       (if oauth_forbidden_changes p a
        then throw (with_field ''auth_type'' (raise_domain ValidationError ''OAuth accounts allow changing only the display name''))
        else seqM (in_tx (update_fields now i (dn_fields p))) (reloaded i))
     else if smtp_ssl (merged p a) \<and> smtp_starttls (merged p a)
       then throw (raise_domain ConflictError ''smtp_ssl and smtp_starttls are mutually exclusive'')
     else
       bindM (if creds_changed p then retest E p a else ret ()) (\<lambda>_.
       bindM (liftE (if given (pf_password p) then map_sum id (\<lambda>b. [\<lambda>r. r\<lparr>encrypted_password := Some b\<rparr>]) (encrypt_for E 0 (the (pf_password p)) (acc_id a)) else Inr [])) (\<lambda>pw.
       bindM (liftE (if given (pf_smtp_password p) then map_sum id (\<lambda>b. [\<lambda>r. r\<lparr>smtp_encrypted_password := Some b\<rparr>]) (encrypt_for E 1 (the (pf_smtp_password p)) (acc_id a)) else Inr [])) (\<lambda>spw.
       bindM (in_tx (update_fields now i ([\<lambda>r. r\<lparr>email := email (merged p a), imap_host := imap_host (merged p a),
            imap_port := imap_port (merged p a), imap_ssl := imap_ssl (merged p a), smtp_host := smtp_host (merged p a),
            smtp_port := smtp_port (merged p a), smtp_ssl := smtp_ssl (merged p a), smtp_starttls := smtp_starttls (merged p a),
            smtp_username := smtp_username (merged p a)\<rparr>] @ pw @ spw @ dn_fields p @ (if creds_changed p then [reset_health] else [])))) (\<lambda>_.
       bindM (bindM (getM (\<lambda>x. get_by_id i (u_db x))) (present assertion_error)) (\<lambda>r.
       bindM (if creds_changed p then defer_status i else ret ()) (\<lambda>_.
       bindM (bindM (getM (\<lambda>x. user_by_id (acc_user_id r) (u_db x))) (present assertion_error)) (\<lambda>o1. ret (to_dto r o1)))))))))"

definition set_active :: "int \<Rightarrow> visibility_scope \<Rightarrow> int \<Rightarrow> bool \<Rightarrow> (uow, mail_account_dto) prog" where
  "set_active now sc i b = bindM (visible_account sc i) (\<lambda>_.
     bindM (in_tx (update_fields now i (if b then [reset_health] else [\<lambda>a. a\<lparr>is_active := False\<rparr>]))) (\<lambda>_.
     bindM (bindM (getM (\<lambda>x. get_by_id i (u_db x))) (present assertion_error)) (\<lambda>r.
     bindM (defer_status i) (\<lambda>_.
     bindM (bindM (getM (\<lambda>x. user_by_id (acc_user_id r) (u_db x))) (present assertion_error)) (\<lambda>o1. ret (to_dto r o1))))))"

definition delete_mailbox :: "visibility_scope \<Rightarrow> int \<Rightarrow> (uow, unit) prog" where
  "delete_mailbox sc i = seqM (visible_account sc i) (in_tx (delete_account i))"

definition force_sync_key :: "int \<Rightarrow> pystr" where
  "force_sync_key i = u ''force_sync:'' @ str_of_int i"

definition flush_crm_status_events :: "settings \<Rightarrow> uow \<Rightarrow> (world, unit) prog" where
  \<comment> \<open>the queue is drained first; afterwards it is empty and nothing in it is committed\<close>
  "flush_crm_status_events s x = for_each (enqueue_crm_status_best_effort s) (pending x)"

definition drained :: "uow \<Rightarrow> uow" where
  "drained x = x\<lparr>pending := [], committed := 0\<rparr>"

end
