(* ===== verification/Html_Sanitize.thy ===== *)
theory Html_Sanitize
  imports Prelude
begin

text \<open>
  \<open>shared/html_sanitize.py\<close>: the pre-stripping of blocks whose content must go, and the removal of
  invisible padding. The three regular expressions are deterministic (each component stops at the first
  character that can end it), so each is a matcher that returns the text after a match at the current
  position. Case-insensitive matching of a literal also accepts the code points whose fold is ASCII
  (U+0130, U+0131, U+017F, U+212A). Parameters: \<open>ext_word\<close>, the Unicode word characters outside ASCII,
  and \<open>bleach\<close>, the third-party cleaner.
\<close>

definition INVISIBLE_PADDING :: "int list" where
  "INVISIBLE_PADDING = [0x200B, 0x200C, 0x200D, 0x200E, 0x200F, 0x2060, 0xFEFF]"

definition strip_invisible_padding :: "pystr \<Rightarrow> pystr" where
  "strip_invisible_padding s = filter (\<lambda>c. c \<notin> set INVISIBLE_PADDING) s"

definition re_lower :: "int \<Rightarrow> int" where
  \<comment> \<open>the lower-casing of the regular expression engine, where its result is an ASCII letter\<close>
  "re_lower c = (if 65 \<le> c \<and> c \<le> 90 then c + 32 else if c = 0x130 then 105 else if c = 0x212A then 107 else c)"

definition lit_matches :: "int \<Rightarrow> int \<Rightarrow> bool" where
  \<comment> \<open>literal letter \<open>l\<close> against the text character \<open>c\<close> under \<open>IGNORECASE\<close>\<close>
  "lit_matches l c \<longleftrightarrow> re_lower c = l \<or> l = 105 \<and> c = 0x131 \<or> l = 115 \<and> c = 0x17F"

fun match_lit :: "pystr \<Rightarrow> pystr \<Rightarrow> (pystr \<times> pystr) option" where
  \<comment> \<open>matched text and the rest\<close>
  "match_lit [] t = Some ([], t)"
| "match_lit (l # ls) [] = None"
| "match_lit (l # ls) (c # t) = (if lit_matches l c then map_option (\<lambda>(m, r). (c # m, r)) (match_lit ls t) else None)"

fun match_group :: "pystr \<Rightarrow> pystr \<Rightarrow> pystr option" where
  \<comment> \<open>the back reference\<close>
  "match_group [] t = Some t"
| "match_group (g # gs) [] = None"
| "match_group (g # gs) (c # t) = (if re_lower c = re_lower g then match_group gs t else None)"

definition is_word :: "(int \<Rightarrow> bool) \<Rightarrow> int \<Rightarrow> bool" where
  "is_word ext_word c \<longleftrightarrow> 48 \<le> c \<and> c \<le> 57 \<or> 65 \<le> c \<and> c \<le> 90 \<or> 97 \<le> c \<and> c \<le> 122 \<or> c = 95 \<or> 128 \<le> c \<and> ext_word c"

definition at_boundary :: "(int \<Rightarrow> bool) \<Rightarrow> pystr \<Rightarrow> bool" where
  "at_boundary ext_word t = (case t of [] \<Rightarrow> True | c # _ \<Rightarrow> \<not> is_word ext_word c)"

fun match_names :: "(int \<Rightarrow> bool) \<Rightarrow> pystr list \<Rightarrow> pystr \<Rightarrow> (pystr \<times> pystr) option" where
  "match_names w [] t = None"
| "match_names w (n # ns) t = (case match_lit n t of
       Some (m, r) \<Rightarrow> if at_boundary w r then Some (m, r) else match_names w ns t
     | None \<Rightarrow> match_names w ns t)"

fun after_gt :: "pystr \<Rightarrow> pystr option" where
  \<comment> \<open>\<open>[^>]*>\<close>\<close>
  "after_gt [] = None"
| "after_gt (c # t) = (if c = 62 then Some t else after_gt t)"

definition match_close :: "pystr \<Rightarrow> pystr \<Rightarrow> pystr option" where
  \<comment> \<open>\<open><\s*/\s*\1\s*>\<close>\<close>
  "match_close g t = (case t of
      [] \<Rightarrow> None
    | c # t1 \<Rightarrow> if c \<noteq> 60 then None else (case dropWhile is_space t1 of
        [] \<Rightarrow> None
      | d # t2 \<Rightarrow> if d \<noteq> 47 then None else (case match_group g (dropWhile is_space t2) of
          None \<Rightarrow> None
        | Some t3 \<Rightarrow> (case dropWhile is_space t3 of [] \<Rightarrow> None | e # t4 \<Rightarrow> if e = 62 then Some t4 else None))))"

fun find_close :: "pystr \<Rightarrow> pystr \<Rightarrow> pystr option" where
  \<comment> \<open>\<open>.*?\<close> followed by the closing tag\<close>
  "find_close g [] = None"
| "find_close g (c # t) = (case match_close g (c # t) of Some r \<Rightarrow> Some r | None \<Rightarrow> find_close g t)"

definition DROP_TAGS :: "pystr list" where
  "DROP_TAGS = map u [''style'', ''script'', ''head'', ''title'', ''meta'', ''link'', ''noscript'', ''svg'', ''canvas'', ''iframe'',
     ''object'', ''embed'', ''form'', ''input'', ''button'', ''select'', ''textarea'']"

definition VOID_TAGS :: "pystr list" where
  "VOID_TAGS = map u [''meta'', ''link'', ''base'']"

definition match_drop_block :: "(int \<Rightarrow> bool) \<Rightarrow> pystr \<Rightarrow> pystr option" where
  "match_drop_block w t = (case t of
      [] \<Rightarrow> None
    | c # t1 \<Rightarrow> if c \<noteq> 60 then None else (case match_names w DROP_TAGS (dropWhile is_space t1) of
        None \<Rightarrow> None
      | Some (g, t2) \<Rightarrow> (case after_gt t2 of None \<Rightarrow> None | Some t3 \<Rightarrow> find_close g t3)))"

fun find_comment_end :: "pystr \<Rightarrow> pystr option" where
  "find_comment_end [] = None"
| "find_comment_end (c # t) = (if py_startswith [45, 45, 62] (c # t) then Some (drop 2 t) else find_comment_end t)"

definition match_comment :: "pystr \<Rightarrow> pystr option" where
  "match_comment t = (if py_startswith [60, 33, 45, 45] t then find_comment_end (drop 4 t) else None)"

definition match_void :: "(int \<Rightarrow> bool) \<Rightarrow> pystr \<Rightarrow> pystr option" where
  "match_void w t = (case t of
      [] \<Rightarrow> None
    | c # t1 \<Rightarrow> if c \<noteq> 60 then None else (case match_names w VOID_TAGS (dropWhile is_space t1) of
        None \<Rightarrow> None | Some (g, t2) \<Rightarrow> after_gt t2))"

fun re_drop :: "nat \<Rightarrow> (pystr \<Rightarrow> pystr option) \<Rightarrow> pystr \<Rightarrow> pystr" where
  \<comment> \<open>\<open>pattern.sub(EMPTY, t)\<close>; every match consumes at least one character, so \<open>length t\<close> is enough fuel\<close>
  "re_drop 0 m t = t"
| "re_drop (Suc n) m t = (case m t of
       Some r \<Rightarrow> re_drop n m r
     | None \<Rightarrow> (case t of [] \<Rightarrow> [] | c # t' \<Rightarrow> c # re_drop n m t'))"

definition re_sub_empty :: "(pystr \<Rightarrow> pystr option) \<Rightarrow> pystr \<Rightarrow> pystr" where
  "re_sub_empty m t = re_drop (length t + 1) m t"

definition prestrip_unsafe_blocks :: "(int \<Rightarrow> bool) \<Rightarrow> pystr \<Rightarrow> pystr" where
  "prestrip_unsafe_blocks w html = (if html = [] then html
     else re_sub_empty (match_void w) (re_sub_empty match_comment (re_sub_empty (match_drop_block w) html)))"

definition sanitize_email_html :: "(int \<Rightarrow> bool) \<Rightarrow> (pystr \<Rightarrow> pystr) \<Rightarrow> pystr \<Rightarrow> pystr" where
  "sanitize_email_html w bleach html = (if html = [] then []
     else strip_invisible_padding (bleach (prestrip_unsafe_blocks w html)))"

section \<open>Facts\<close>

lemma strip_invisible_idem: "strip_invisible_padding (strip_invisible_padding s) = strip_invisible_padding s"
  by (simp add: strip_invisible_padding_def)

lemma strip_invisible_none: "c \<in> set (strip_invisible_padding s) \<Longrightarrow> c \<notin> set INVISIBLE_PADDING"
  by (simp add: strip_invisible_padding_def)

lemma sanitize_no_padding: "c \<in> set (sanitize_email_html w bleach html) \<Longrightarrow> c \<notin> set INVISIBLE_PADDING"
  by (auto simp: sanitize_email_html_def strip_invisible_none split: if_splits)

text \<open>A matcher only drops a non-empty prefix.\<close>

definition consumes :: "(pystr \<Rightarrow> pystr option) \<Rightarrow> bool" where
  "consumes m \<longleftrightarrow> (\<forall>t r. m t = Some r \<longrightarrow> (\<exists>p. p \<noteq> [] \<and> t = p @ r))"

lemma after_gt_suffix: "after_gt t = Some r \<Longrightarrow> \<exists>p. t = p @ r"
  by (induction t) (auto split: if_splits intro: exI [of _ "_ # _"])

lemma find_comment_end_suffix: "find_comment_end t = Some r \<Longrightarrow> \<exists>p. t = p @ r"
proof (induction t)
  case (Cons c t)
  show ?case
  proof (cases "py_startswith [45, 45, 62] (c # t)")
    case True
    then have "r = drop 2 t" using Cons.prems by simp
    then have "c # t = (c # take 2 t) @ r" by simp
    then show ?thesis by blast
  next
    case False
    then obtain p where "t = p @ r" using Cons by auto
    then show ?thesis by (metis append_Cons)
  qed
qed simp

lemma match_comment_consumes: "consumes match_comment"
proof (unfold consumes_def, intro allI impI)
  fix t r assume "match_comment t = Some r"
  then have s: "py_startswith [60, 33, 45, 45] t" and f: "find_comment_end (drop 4 t) = Some r"
    by (auto simp: match_comment_def split: if_splits)
  from f obtain p where "drop 4 t = p @ r" using find_comment_end_suffix by blast
  then have "t = (take 4 t @ p) @ r" by (metis append.assoc append_take_drop_id)
  moreover have "take 4 t \<noteq> []" using s by (auto simp: py_startswith_iff)
  ultimately show "\<exists>p. p \<noteq> [] \<and> t = p @ r" by (metis append_is_Nil_conv)
qed

text \<open>With a consuming matcher the fuel is never exhausted: what is left has no match at any position.\<close>

lemma re_drop_fuel:
  assumes "consumes m" and "length t < n" and "length t < k"
  shows "re_drop n m t = re_drop k m t"
  using assms(2,3)
proof (induction n arbitrary: t k)
  case (Suc n)
  obtain j where k: "k = Suc j" using Suc.prems(2) by (cases k) auto
  show ?case
  proof (cases "m t")
    case None
    then show ?thesis using Suc.IH [of "tl t" j] Suc.prems k by (cases t) auto
  next
    case (Some r)
    then obtain p where "p \<noteq> []" "t = p @ r" using assms(1) by (auto simp: consumes_def)
    then have "length r < length t" by simp
    then show ?thesis using Some Suc.IH [of r j] Suc.prems k by simp
  qed
qed simp

lemma set_re_drop: "consumes m \<Longrightarrow> set (re_drop n m t) \<subseteq> set t"
proof (induction n arbitrary: t)
  case (Suc n)
  show ?case
  proof (cases "m t")
    case (Some r)
    then obtain p where "t = p @ r" using Suc.prems by (auto simp: consumes_def)
    then show ?thesis using Some Suc.IH [OF Suc.prems, of r] by auto
  next
    case None
    then show ?thesis using Suc.IH [OF Suc.prems, of "tl t"] by (cases t) auto
  qed
qed simp

text \<open>
  The pre-stripping pass is not idempotent: removing a comment can complete a script tag that the
  first pass did not see, and a second pass removes it.
\<close>

theorem prestrip_not_idempotent:
  "prestrip_unsafe_blocks w (u ''<scr<!---->ipt>x</script>'') = u ''<script>x</script>'' \<and>
   prestrip_unsafe_blocks w (prestrip_unsafe_blocks w (u ''<scr<!---->ipt>x</script>'')) = []"
  by code_simp

end
