(* ===== verification/Imap_Fetch.thy ===== *)
theory Imap_Fetch
  imports Html_Sanitize World Settings
begin

text \<open>
  \<open>worker/app/imap_fetcher.py\<close>: opening the mailbox with retries, and the incremental fetch. The IMAP
  server and the two third-party converters are parameters: \<open>opens k\<close> and \<open>logins k\<close> are the failures (if any)
  of the k-th connection and login, \<open>imap_box\<close> the answers of the open mailbox. UIDs are numbers (\<open>int(u)\<close>).
  Backoffs are in milliseconds.
\<close>

section \<open>Connecting\<close>

definition RETRY_BACKOFFS :: "int list" where
  "RETRY_BACKOFFS = [500, 1000, 2000]"

definition RETRYABLE_ERRNOS :: "int list" where
  \<comment> \<open>\<open>ECONNREFUSED, ECONNRESET, EHOSTUNREACH, ENETUNREACH\<close> on Linux\<close>
  "RETRYABLE_ERRNOS = [111, 104, 113, 101]"

definition RETRYABLE_IMAP_SUBSTRINGS :: "pystr list" where
  "RETRYABLE_IMAP_SUBSTRINGS = map u [''authenticated but not connected'', ''not connected'', ''try again'', ''temporarily'', ''too many'']"

definition PERMANENT_IMAP_SUBSTRINGS_PASSWORD :: "pystr list" where
  "PERMANENT_IMAP_SUBSTRINGS_PASSWORD = map u [''authenticationfailed'', ''login failed'', ''invalid credentials'',
     ''account is disabled'', ''account has been blocked'']"

definition PERMANENT_IMAP_SUBSTRINGS_OAUTH :: "pystr list" where
  "PERMANENT_IMAP_SUBSTRINGS_OAUTH = map u [''invalid credentials'', ''account is disabled'', ''account has been blocked'']"

definition RETRYABLE_IMAP_SUBSTRINGS_OAUTH :: "pystr list" where
  "RETRYABLE_IMAP_SUBSTRINGS_OAUTH = RETRYABLE_IMAP_SUBSTRINGS @ map u [''login failed'', ''authenticationfailed'']"

definition is_retryable_connect_error :: "pyexc \<Rightarrow> bool" where
  "is_retryable_connect_error e =
     (if isinstance e ETimeoutError then False
      else if isinstance e EGaiError \<or> isinstance e EConnectionError then True
      else if isinstance e EOSError then (case eerrno e of None \<Rightarrow> False | Some n \<Rightarrow> n \<in> set RETRYABLE_ERRNOS)
      else False)"

definition is_retryable_imap_error :: "bool \<Rightarrow> pyexc \<Rightarrow> bool" where
  "is_retryable_imap_error oauth e =
     (if \<not> (isinstance e EImapError \<or> isinstance e EImapAbort) then False
      else let permanent = (if oauth then PERMANENT_IMAP_SUBSTRINGS_OAUTH else PERMANENT_IMAP_SUBSTRINGS_PASSWORD);
               retryable = (if oauth then RETRYABLE_IMAP_SUBSTRINGS_OAUTH else RETRYABLE_IMAP_SUBSTRINGS);
               t = py_lower (emsg e)
           in if list_ex (\<lambda>n. py_contains n t) permanent then False
              else list_ex (\<lambda>n. py_contains n t) retryable)"

record imap_conn =
  opens :: "nat \<Rightarrow> pyexc option"
  logins :: "nat \<Rightarrow> pyexc option"

definition backoff :: "nat \<Rightarrow> int" where
  "backoff attempt = RETRY_BACKOFFS ! min attempt (length RETRY_BACKOFFS - 1)"

function connect_loop :: "nat \<Rightarrow> bool \<Rightarrow> bool \<Rightarrow> imap_conn \<Rightarrow> nat \<Rightarrow> int list \<Rightarrow> (pyexc + unit) \<times> int list" where
  \<comment> \<open>\<open>creds\<close>: an access token or a password is present. The second result lists the sleeps taken.\<close>
  "connect_loop retries oauth creds srv attempt slept =
     (case opens srv attempt of
        Some e \<Rightarrow> (Inl e, slept)
      | None \<Rightarrow>
          (case (if creds then logins srv attempt else Some (mk_exc EAssertionError
                  (u ''fetch_blocking needs a password or an access_token''))) of
             None \<Rightarrow> (Inr (), slept)
           | Some e \<Rightarrow>
               if retries \<le> attempt \<or> \<not> (is_retryable_connect_error e \<or> is_retryable_imap_error oauth e)
               then (Inl e, slept)
               else connect_loop retries oauth creds srv (attempt + 1) (slept @ [backoff attempt])))"
  by pat_completeness auto
termination
  by (relation "measure (\<lambda>(retries, _, _, _, attempt, _). retries - attempt)") auto

definition connect_and_login ::
    "settings \<Rightarrow> imap_conn \<Rightarrow> pystr option \<Rightarrow> pystr option \<Rightarrow> (pyexc + unit) \<times> int list" where
  "connect_and_login s srv password access_token =
     connect_loop (nat (SYNC_CONNECT_RETRIES s))
       (access_token \<noteq> None \<and> SYNC_OAUTH_LOGIN_FAILED_TRANSIENT s)
       (access_token \<noteq> None \<or> password \<noteq> None) srv 0 []"

section \<open>One message\<close>

record raw_msg =
  rm_uid :: "int option"
  rm_text :: pystr
  rm_html :: pystr
  rm_date :: "int option"
  rm_from :: pystr
  rm_from_values :: "(pystr \<times> pystr) option" \<comment> \<open>address and name\<close>
  rm_to :: "pystr list"
  rm_cc :: "pystr list"
  rm_subject :: pystr
  rm_message_id :: "pystr option"
  rm_in_reply_to :: "pystr option"
  rm_references :: "pystr option"

record fetched_message =
  fm_uid :: int
  fm_message_id :: "pystr option"
  fm_from_addr :: pystr
  fm_from_name :: "pystr option"
  fm_to :: pystr
  fm_cc :: "pystr option"
  fm_subject :: "pystr option"
  fm_date :: int
  fm_body_text :: pystr
  fm_body_html :: "pystr option"
  fm_truncated :: bool
  fm_present :: bool
  fm_in_reply_to :: "pystr option"
  fm_refs :: "pystr option"

record fetched_box =
  fb_uidvalidity :: int
  fb_uidnext :: "int option"
  fb_new :: "fetched_message list"

definition truncate_body :: "pystr \<Rightarrow> nat \<Rightarrow> pyexc + pystr \<times> bool" where
  "truncate_body body max_bytes = (case utf8_encode body of
       Inl e \<Rightarrow> Inl e
     | Inr enc \<Rightarrow> if length enc \<le> max_bytes then Inr (body, False)
         else Inr (decode_ignore (take max_bytes enc), True))"

definition join_comma :: "pystr list \<Rightarrow> pystr" where
  "join_comma xs = concat (map2 (@) ([] # replicate (length xs - 1) (u '', '')) xs)"

definition nonempty_opt :: "pystr \<Rightarrow> pystr option" where
  \<comment> \<open>\<open>value or None\<close>\<close>
  "nonempty_opt t = (if t = [] then None else Some t)"

record converters =
  html2text :: "pystr \<Rightarrow> pystr"
  bleach_clean :: "pystr \<Rightarrow> pystr"
  ext_word :: "int \<Rightarrow> bool"

definition message_text :: "converters \<Rightarrow> raw_msg \<Rightarrow> pystr" where
  "message_text cv m = strip_invisible_padding
     (if rm_text m = [] \<and> rm_html m \<noteq> [] then html2text cv (rm_html m) else rm_text m)"

definition message_html :: "converters \<Rightarrow> nat \<Rightarrow> raw_msg \<Rightarrow> pyexc + pystr option" where
  "message_html cv max_bytes m =
     (if rm_html m = [] then Inr None
      else let sanitised = sanitize_email_html (ext_word cv) (bleach_clean cv) (rm_html m)
           in if sanitised = [] then Inr None
              else map_sum id (Some \<circ> fst) (truncate_body sanitised max_bytes))"

definition from_imap_msg :: "converters \<Rightarrow> int \<Rightarrow> nat \<Rightarrow> raw_msg \<Rightarrow> pyexc + fetched_message" where
  "from_imap_msg cv now max_bytes m =
     (case truncate_body (message_text cv m) max_bytes of
        Inl e \<Rightarrow> Inl e
      | Inr (text_clamped, truncated) \<Rightarrow>
          (case message_html cv max_bytes m of
             Inl e \<Rightarrow> Inl e
           | Inr html \<Rightarrow> Inr \<lparr>
               fm_uid = (case rm_uid m of None \<Rightarrow> 0 | Some i \<Rightarrow> i),
               fm_message_id = rm_message_id m,
               fm_from_addr = (case rm_from_values m of None \<Rightarrow> rm_from m
                  | Some (a, _) \<Rightarrow> if a = [] then rm_from m else a),
               fm_from_name = (case rm_from_values m of None \<Rightarrow> None | Some (_, n) \<Rightarrow> nonempty_opt n),
               fm_to = join_comma (rm_to m),
               fm_cc = (if rm_cc m = [] then None else Some (join_comma (rm_cc m))),
               fm_subject = nonempty_opt (rm_subject m),
               fm_date = (case rm_date m of None \<Rightarrow> now | Some t \<Rightarrow> t),
               fm_body_text = text_clamped,
               fm_body_html = html,
               fm_truncated = truncated,
               fm_present = (let t = (if rm_text m = [] \<and> rm_html m \<noteq> [] then html2text cv (rm_html m) else rm_text m)
                             in \<not> (t = [] \<and> rm_html m = [])),
               fm_in_reply_to = rm_in_reply_to m,
               fm_refs = rm_references m\<rparr>))"

section \<open>The fetch\<close>

record imap_box =
  st_uidvalidity :: "pyexc + int option"
  st_uidnext :: "pyexc + int option"
  search_since :: "int \<Rightarrow> pyexc + int list"  \<comment> \<open>\<open>SINCE <day number>\<close>\<close>
  search_from :: "int \<Rightarrow> pyexc + int list"   \<comment> \<open>\<open>UID <n>:*\<close>\<close>
  fetch_batch :: "int list \<Rightarrow> pyexc + raw_msg list"

function chunks :: "nat \<Rightarrow> 'a list \<Rightarrow> 'a list list" where
  "chunks n xs = (if xs = [] \<or> n = 0 then [] else take n xs # chunks n (drop n xs))"
  by pat_completeness auto
termination
  by (relation "measure (\<lambda>(_, xs). length xs)") auto

fun sequence_sum :: "(pyexc + 'a) list \<Rightarrow> pyexc + 'a list" where
  "sequence_sum [] = Inr []"
| "sequence_sum (Inl e # _) = Inl e"
| "sequence_sum (Inr x # r) = map_sum id ((#) x) (sequence_sum r)"

definition fetch_chunk :: "converters \<Rightarrow> int \<Rightarrow> nat \<Rightarrow> imap_box \<Rightarrow> int list \<Rightarrow> pyexc + fetched_message list" where
  "fetch_chunk cv now max_bytes box ids = (case fetch_batch box ids of
       Inl e \<Rightarrow> Inl e | Inr ms \<Rightarrow> sequence_sum (map (from_imap_msg cv now max_bytes) ms))"

definition fetch_all :: "converters \<Rightarrow> int \<Rightarrow> nat \<Rightarrow> imap_box \<Rightarrow> int list \<Rightarrow> pyexc + fetched_message list" where
  "fetch_all cv now max_bytes box ids = map_sum id concat (sequence_sum (map (fetch_chunk cv now max_bytes box) (chunks 50 ids)))"

definition do_initial :: "int option \<Rightarrow> int option \<Rightarrow> int \<Rightarrow> bool" where
  "do_initial last_uidnext last_uv uidvalidity \<longleftrightarrow>
     last_uidnext = None \<or> last_uv = None \<or> last_uv \<noteq> Some uidvalidity"

definition uids_to_fetch :: "imap_box \<Rightarrow> int option \<Rightarrow> int option \<Rightarrow> int \<Rightarrow> int \<Rightarrow> pyexc + int list" where
  "uids_to_fetch box last_uidnext last_uv uidvalidity since =
     (if do_initial last_uidnext last_uv uidvalidity then search_since box since
      else (case search_from box (the last_uidnext) of
          Inl e \<Rightarrow> if isinstance e EMailboxFetchError then Inr [] else Inl e
        | Inr raw \<Rightarrow> Inr (filter (\<lambda>x. the last_uidnext \<le> x) raw)))"

definition final_uidnext :: "int option \<Rightarrow> int option \<Rightarrow> fetched_message list \<Rightarrow> int option" where
  "final_uidnext status_uidnext last_uidnext ms =
     (case status_uidnext of Some n \<Rightarrow> Some n
      | None \<Rightarrow> if ms \<noteq> [] then Some (Max (fm_uid ` set ms) + 1) else last_uidnext)"

definition fetch_open_box ::
    "converters \<Rightarrow> int \<Rightarrow> int \<Rightarrow> int \<Rightarrow> nat \<Rightarrow> imap_box \<Rightarrow> int option \<Rightarrow> int option \<Rightarrow> pyexc + fetched_box" where
  \<comment> \<open>the \<open>try\<close> block of \<open>fetch_blocking\<close>; \<open>today\<close> is the UTC day number\<close>
  "fetch_open_box cv now today initial_days max_bytes box last_uidnext last_uv =
     (case st_uidvalidity box of
        Inl e \<Rightarrow> Inl e
      | Inr v \<Rightarrow>
         (let uidvalidity = (case v of None \<Rightarrow> 0 | Some n \<Rightarrow> n)
          in case st_uidnext box of
               Inl e \<Rightarrow> Inl e
             | Inr status_uidnext \<Rightarrow>
                (case uids_to_fetch box last_uidnext last_uv uidvalidity (today - initial_days) of
                   Inl e \<Rightarrow> Inl e
                 | Inr ids \<Rightarrow>
                    (case fetch_all cv now max_bytes box ids of
                       Inl e \<Rightarrow> Inl e
                     | Inr ms \<Rightarrow> Inr \<lparr>fb_uidvalidity = uidvalidity,
                          fb_uidnext = final_uidnext status_uidnext last_uidnext ms, fb_new = ms\<rparr>))))"

definition fetch_blocking ::
    "settings \<Rightarrow> converters \<Rightarrow> int \<Rightarrow> int \<Rightarrow> imap_conn \<Rightarrow> imap_box \<Rightarrow> pystr option \<Rightarrow> pystr option \<Rightarrow>
     int option \<Rightarrow> int option \<Rightarrow> pyexc + fetched_box" where
  "fetch_blocking s cv now today srv box password access_token last_uidnext last_uv =
     (case fst (connect_and_login s srv password access_token) of
        Inl e \<Rightarrow> Inl e
      | Inr _ \<Rightarrow> fetch_open_box cv now today (INITIAL_SYNC_DAYS s) (nat (MAX_BODY_BYTES s)) box last_uidnext last_uv)"

section \<open>Truncation\<close>

lemma truncate_body_cases:
  assumes "truncate_body body n = Inr (t, tr)"
  obtains q where "body = t @ q" "length (enc_str t) \<le> n" "list_all valid_cp body"
    "tr \<longleftrightarrow> n < length (enc_str body)" "q = [] \<or> n < length (enc_str (t @ [hd q]))" "\<not> tr \<longrightarrow> q = []"
proof -
  have v: "list_all valid_cp body" using assms by (auto simp: truncate_body_def utf8_encode_def split: if_splits sum.splits)
  show ?thesis
  proof (cases "length (enc_str body) \<le> n")
    case True
    then show ?thesis using that [of "[]"] assms v by (auto simp: truncate_body_def utf8_encode_def)
  next
    case False
    then have t: "t = decode_ignore (take n (enc_str body))" "tr"
      using assms v by (auto simp: truncate_body_def utf8_encode_def)
    obtain p q where "body = p @ q" "decode_ignore (take n (enc_str body)) = p" "length (enc_str p) \<le> n"
        "q = [] \<or> n < length (enc_str (p @ [hd q]))"
      using decode_ignore_take [OF v, of n] by blast
    then show ?thesis using that [of q] t v False by auto
  qed
qed

text \<open>
  C32. A stored body is the longest prefix of the text whose UTF-8 encoding fits the byte budget: it never
  exceeds it, never splits a character, is marked truncated exactly when the whole text does not fit, and is
  the whole text otherwise.
\<close>

theorem truncate_body_longest_prefix:
  assumes "truncate_body body n = Inr (t, tr)"
  shows "utf8_encode t = Inr (enc_str t) \<and> length (enc_str t) \<le> n \<and>
    (tr \<longleftrightarrow> n < length (enc_str body)) \<and> (\<not> tr \<longrightarrow> t = body) \<and>
    (\<exists>q. body = t @ q \<and> (\<forall>p. p \<noteq> [] \<and> prefix p q \<longrightarrow> n < length (enc_str (t @ p))))"
proof -
  from assms obtain q where q: "body = t @ q" "length (enc_str t) \<le> n" "list_all valid_cp body"
      "tr \<longleftrightarrow> n < length (enc_str body)" "q = [] \<or> n < length (enc_str (t @ [hd q]))" "\<not> tr \<longrightarrow> q = []"
    by (rule truncate_body_cases)
  have l: "n < length (enc_str (t @ p))" if "p \<noteq> []" "prefix p q" for p
  proof -
    from that obtain c p' where p: "p = c # p'" by (cases p) auto
    with that have "hd q = c" "q \<noteq> []" by (auto simp: prefix_def)
    then have "n < length (enc_str (t @ [c]))" using q(5) by auto
    then show ?thesis by (simp add: p)
  qed
  have e: "utf8_encode t = Inr (enc_str t)" using q(1,3) by (simp add: utf8_encode_def)
  have w: "\<not> tr \<longrightarrow> t = body" using q(1,6) by auto
  show ?thesis using e w l q(1,2,4) by blast
qed

theorem truncate_body_longest_prefix_witness:
  "truncate_body [1087, 1088, 33] 3 = Inr ([1087], True) \<and> length (enc_str [1087]) \<le> 3"
proof -
  have e: "truncate_body [1087, 1088, 33] 3 = Inr ([1087], True)" by code_simp
  show ?thesis using truncate_body_longest_prefix [OF e] e by blast
qed

section \<open>Retries\<close>

declare connect_loop.simps [simp del]

definition retryable :: "bool \<Rightarrow> pyexc \<Rightarrow> bool" where
  "retryable oauth e \<longleftrightarrow> is_retryable_connect_error e \<or> is_retryable_imap_error oauth e"

lemma connect_loop_trace:
  assumes "connect_loop retries oauth True srv attempt slept = (r, out)" and "attempt \<le> retries"
  shows "\<exists>k. attempt \<le> k \<and> k \<le> retries \<and> out = slept @ map backoff [attempt ..< k] \<and>
    (\<forall>i. attempt \<le> i \<and> i < k \<longrightarrow> opens srv i = None \<and> (\<exists>e. logins srv i = Some e \<and> retryable oauth e)) \<and>
    (case r of Inr _ \<Rightarrow> opens srv k = None \<and> logins srv k = None
     | Inl e \<Rightarrow> opens srv k = Some e \<or> opens srv k = None \<and> logins srv k = Some e \<and> (k = retries \<or> \<not> retryable oauth e))"
  using assms
proof (induction retries oauth True srv attempt slept rule: connect_loop.induct)
  case (1 retries oauth srv attempt slept)
  show ?case
  proof (cases "opens srv attempt")
    case (Some e)
    then show ?thesis using 1(2,3) by (subst (asm) connect_loop.simps) (auto intro!: exI [of _ attempt])
  next
    case op: None
    show ?thesis
    proof (cases "logins srv attempt")
      case None
      then show ?thesis using op 1(2,3) by (subst (asm) connect_loop.simps) (auto intro!: exI [of _ attempt])
    next
      case (Some e)
      show ?thesis
      proof (cases "retries \<le> attempt \<or> \<not> retryable oauth e")
        case True
        then show ?thesis using op Some 1(2,3)
          by (subst (asm) connect_loop.simps) (auto simp: retryable_def intro!: exI [of _ attempt])
      next
        case False
        then have rec: "connect_loop retries oauth True srv (attempt + 1) (slept @ [backoff attempt]) = (r, out)"
          using op Some 1(2) by (subst (asm) connect_loop.simps) (auto simp: retryable_def)
        obtain k where k: "attempt + 1 \<le> k" "k \<le> retries" "out = (slept @ [backoff attempt]) @ map backoff [attempt + 1 ..< k]"
          "\<forall>i. attempt + 1 \<le> i \<and> i < k \<longrightarrow> opens srv i = None \<and> (\<exists>e. logins srv i = Some e \<and> retryable oauth e)"
          "case r of Inr _ \<Rightarrow> opens srv k = None \<and> logins srv k = None
            | Inl e \<Rightarrow> opens srv k = Some e \<or> opens srv k = None \<and> logins srv k = Some e \<and> (k = retries \<or> \<not> retryable oauth e)"
          using 1(1) [OF op, of e] Some False rec by (auto simp: retryable_def)
        have "map backoff [attempt ..< k] = backoff attempt # map backoff [attempt + 1 ..< k]"
          using k(1) by (simp add: upt_conv_Cons)
        moreover have "opens srv i = None \<and> (\<exists>e. logins srv i = Some e \<and> retryable oauth e)"
          if "attempt \<le> i" "i < k" for i
          using that k(4) op Some False by (cases "i = attempt") auto
        ultimately show ?thesis using k by (intro exI [of _ k]) auto
      qed
    qed
  qed
qed

lemma timeout_not_retryable: "isinstance e ETimeoutError \<Longrightarrow> \<not> isinstance e EImapError \<Longrightarrow> \<not> isinstance e EImapAbort
    \<Longrightarrow> \<not> retryable oauth e"
  by (simp add: retryable_def is_retryable_connect_error_def is_retryable_imap_error_def)

lemma backoff_bound: "0 \<le> backoff k \<and> backoff k \<le> 2000"
proof -
  consider "k = 0" | "k = 1" | "min k 2 = 2" by linarith
  then show ?thesis by cases (simp_all add: backoff_def RETRY_BACKOFFS_def)
qed

lemma sum_backoff: "sum_list (map backoff [a ..< b]) \<le> 2000 * int (b - a)"
proof (induction b)
  case (Suc b)
  then show ?case using backoff_bound [of b] by (cases "a \<le> b") (auto simp: Suc_diff_le)
qed simp

text \<open>
  C31. Connecting with credentials ends after at most \<open>SYNC_CONNECT_RETRIES\<close> retries and at most two seconds of
  sleep per retry; every attempt before the last one had opened and failed in login with a retryable error
  (so a timeout or a permanent authentication error is never retried), and the outcome is that of the last
  attempt: success, a failure to open, an unretryable error, or the error of the attempt that exhausted the budget.
\<close>

theorem connect_retries_bounded:
  assumes "connect_and_login s srv password access_token = (r, slept)"
    and "password \<noteq> None \<or> access_token \<noteq> None"
  shows "let retries = nat (SYNC_CONNECT_RETRIES s);
             oauth = (access_token \<noteq> None \<and> SYNC_OAUTH_LOGIN_FAILED_TRANSIENT s);
             k = length slept in
    k \<le> retries \<and> sum_list slept \<le> 2000 * int k \<and>
    (\<forall>i < k. opens srv i = None \<and> (\<exists>e. logins srv i = Some e \<and> retryable oauth e)) \<and>
    (case r of Inr _ \<Rightarrow> opens srv k = None \<and> logins srv k = None
     | Inl e \<Rightarrow> opens srv k = Some e \<or> opens srv k = None \<and> logins srv k = Some e \<and> (k = retries \<or> \<not> retryable oauth e))"
proof -
  let ?R = "nat (SYNC_CONNECT_RETRIES s)"
  let ?o = "access_token \<noteq> None \<and> SYNC_OAUTH_LOGIN_FAILED_TRANSIENT s"
  have c: "(access_token \<noteq> None \<or> password \<noteq> None) = True" using assms(2) by blast
  have "connect_loop ?R ?o True srv 0 [] = (r, slept)"
    using assms(1) unfolding connect_and_login_def c .
  from connect_loop_trace [OF this] obtain k where k: "k \<le> ?R" "slept = map backoff [0 ..< k]"
    "\<forall>i. i < k \<longrightarrow> opens srv i = None \<and> (\<exists>e. logins srv i = Some e \<and> retryable ?o e)"
    "case r of Inr _ \<Rightarrow> opens srv k = None \<and> logins srv k = None
     | Inl e \<Rightarrow> opens srv k = Some e \<or> opens srv k = None \<and> logins srv k = Some e \<and> (k = ?R \<or> \<not> retryable ?o e)"
    by auto
  have len: "length slept = k" using k(2) by simp
  have "sum_list slept \<le> 2000 * int k" using sum_backoff [of 0 k] k(2) by simp
  then show ?thesis using k(1,3,4) unfolding Let_def len by blast
qed

definition flaky_conn :: imap_conn where
  "flaky_conn = \<lparr>opens = (\<lambda>_. None),
     logins = (\<lambda>k. if k = 0 then Some (mk_exc EImapError (u ''User is authenticated but not connected'')) else None)\<rparr>"

theorem connect_retries_bounded_witness:
  "connect_and_login default_settings flaky_conn None (Some (u ''tok'')) = (Inr (), [500]) \<and>
   sum_list [500] \<le> 2000 * (1::int)"
proof -
  have e: "connect_and_login default_settings flaky_conn None (Some (u ''tok'')) = (Inr (), [500])" by code_simp
  show ?thesis using connect_retries_bounded [OF e] e by (auto simp: Let_def)
qed

text \<open>
  A failure while opening the connection (where the DNS lookup and the TCP connect happen) is outside
  the retried block: whatever its class, a retryable \<open>gaierror\<close> or \<open>ConnectionError\<close> included, it is raised after a
  single attempt without any retry, for every configured number of retries.
\<close>

theorem open_failure_never_retried:
  assumes "opens srv 0 = Some e"
  shows "connect_and_login s srv password access_token = (Inl e, [])"
  using assms by (simp add: connect_and_login_def connect_loop.simps)

theorem open_failure_never_retried_witness:
  "is_retryable_connect_error (mk_exc EGaiError (u ''Temporary failure in name resolution'')) \<and>
   connect_and_login default_settings \<lparr>opens = (\<lambda>_. Some (mk_exc EGaiError (u ''Temporary failure in name resolution''))),
      logins = (\<lambda>_. None)\<rparr> (Some (u ''pw'')) None
     = (Inl (mk_exc EGaiError (u ''Temporary failure in name resolution'')), [])"
  using open_failure_never_retried
    [of "\<lparr>opens = (\<lambda>_. Some (mk_exc EGaiError (u ''Temporary failure in name resolution''))), logins = (\<lambda>_. None)\<rparr>"]
  by (simp add: is_retryable_connect_error_def)

section \<open>The incremental fetch\<close>

lemma concat_chunks: "0 < n \<Longrightarrow> concat (chunks n xs) = xs"
  by (induction n xs rule: chunks.induct) (subst chunks.simps, simp)

declare chunks.simps [simp del]

lemma sequence_sum_Inr: "sequence_sum xs = Inr ys \<longleftrightarrow> xs = map Inr ys"
proof (induction xs arbitrary: ys rule: sequence_sum.induct)
  case (3 x r)
  show ?case
  proof (cases "sequence_sum r")
    case (Inl e)
    then have "r \<noteq> map Inr zs" for zs using 3 [of zs] by simp
    then show ?thesis using Inl by (cases ys) auto
  next
    case (Inr zs)
    then have "r = map Inr zs" using 3 by simp
    then show ?thesis using Inr by (cases ys) (auto simp: inj_map_eq_map)
  qed
qed (auto simp: eq_commute [of "[]"])

text \<open>
  What the code relies on of an IMAP server holding \<open>mails\<close>: it reports its UIDVALIDITY \<open>v\<close>, a UIDNEXT (when it
  reports one) beyond every UID, a UID range search that returns the UIDs of the range and, by the meaning
  of \<open>*\<close>, possibly the last one below it, and it fetches the messages it is asked for.
\<close>

definition uid_of :: "raw_msg \<Rightarrow> int" where
  "uid_of m = (case rm_uid m of None \<Rightarrow> 0 | Some i \<Rightarrow> i)"

definition serves :: "imap_box \<Rightarrow> int \<Rightarrow> int option \<Rightarrow> raw_msg list \<Rightarrow> bool" where
  "serves box v un mails \<longleftrightarrow>
     st_uidvalidity box = Inr (Some v) \<and> st_uidnext box = Inr un \<and>
     (\<forall>x. un = Some x \<longrightarrow> (\<forall>m \<in> set mails. uid_of m < x)) \<and>
     (\<forall>n. \<exists>r. search_from box n = Inr r \<and> set r \<subseteq> uid_of ` set mails \<and> {x \<in> uid_of ` set mails. n \<le> x} \<subseteq> set r) \<and>
     (\<forall>ids. \<exists>ms. fetch_batch box ids = Inr ms \<and> set ms = {m \<in> set mails. uid_of m \<in> set ids})"

lemma serves_status: "serves box v un mails \<Longrightarrow> st_uidvalidity box = Inr (Some v) \<and> st_uidnext box = Inr un"
  and serves_top: "serves box v un mails \<Longrightarrow> un = Some x \<Longrightarrow> m \<in> set mails \<Longrightarrow> uid_of m < x"
  and serves_search: "serves box v un mails \<Longrightarrow>
     \<exists>r. search_from box n = Inr r \<and> set r \<subseteq> uid_of ` set mails \<and> {x \<in> uid_of ` set mails. n \<le> x} \<subseteq> set r"
  and serves_fetch: "serves box v un mails \<Longrightarrow>
     \<exists>ms. fetch_batch box ids = Inr ms \<and> set ms = {m \<in> set mails. uid_of m \<in> set ids}"
  unfolding serves_def by blast+

lemma from_imap_uid: "from_imap_msg cv now mb m = Inr fm \<Longrightarrow> fm_uid fm = uid_of m"
  by (auto simp: from_imap_msg_def uid_of_def split: sum.splits)

lemma fetch_chunk_uids:
  assumes "fetch_chunk cv now mb box ids = Inr fs" and "serves box v un mails"
  shows "fm_uid ` set fs = {x \<in> uid_of ` set mails. x \<in> set ids}"
proof -
  obtain ms where ms: "fetch_batch box ids = Inr ms" "set ms = {m \<in> set mails. uid_of m \<in> set ids}"
    using serves_fetch [OF assms(2)] by blast
  with assms(1) have "map (from_imap_msg cv now mb) ms = map Inr fs"
    by (simp add: fetch_chunk_def sequence_sum_Inr)
  then have "map fm_uid fs = map uid_of ms"
    by (induction fs arbitrary: ms) (auto simp: from_imap_uid Cons_eq_map_conv map_eq_Cons_conv)
  then have "fm_uid ` set fs = uid_of ` set ms" by (metis list.set_map)
  then show ?thesis using ms(2) by auto
qed

lemma fetch_all_uids:
  assumes "fetch_all cv now mb box ids = Inr fs" and "serves box v un mails"
  shows "fm_uid ` set fs = {x \<in> uid_of ` set mails. x \<in> set ids}"
proof -
  obtain fss where "sequence_sum (map (fetch_chunk cv now mb box) (chunks 50 ids)) = Inr fss" and fs: "fs = concat fss"
    using assms(1) by (cases "sequence_sum (map (fetch_chunk cv now mb box) (chunks 50 ids))") (auto simp: fetch_all_def)
  then have fss: "map (fetch_chunk cv now mb box) (chunks 50 ids) = map Inr fss"
    by (simp only: sequence_sum_Inr)
  have "fm_uid ` set (concat fss) = {x \<in> uid_of ` set mails. x \<in> set (concat cs)}"
    if "map (fetch_chunk cv now mb box) cs = map Inr fss" for cs fss
    using that
  proof (induction cs arbitrary: fss)
    case (Cons c cs)
    then obtain f fss' where "fss = f # fss'" "fetch_chunk cv now mb box c = Inr f"
        "map (fetch_chunk cv now mb box) cs = map Inr fss'"
      by (auto simp: Cons_eq_map_conv)
    then show ?case using Cons.IH [of fss'] fetch_chunk_uids [OF _ assms(2), of cv now mb c f] by (auto simp: image_Un)
  qed simp
  from this [OF fss] show ?thesis by (simp add: fs concat_chunks)
qed

lemma incremental_uids:
  assumes srv: "serves box v un mails"
    and f: "fetch_open_box cv now today days mb box (Some n) (Some v) = Inr fb"
  shows "fm_uid ` set (fb_new fb) = {x \<in> uid_of ` set mails. n \<le> x}"
    and "fb_uidvalidity fb = v"
    and "\<exists>u. fb_uidnext fb = Some u \<and> (\<forall>m \<in> set mails. uid_of m < u)"
proof -
  obtain r where r: "search_from box n = Inr r" "set r \<subseteq> uid_of ` set mails" "{x \<in> uid_of ` set mails. n \<le> x} \<subseteq> set r"
    using serves_search [OF srv] by blast
  have st: "st_uidvalidity box = Inr (Some v)" "st_uidnext box = Inr un" using serves_status [OF srv] by auto
  have ids: "uids_to_fetch box (Some n) (Some v) v (today - days) = Inr (filter ((\<le>) n) r)"
    by (simp add: uids_to_fetch_def do_initial_def r)
  obtain fs where fs: "fetch_all cv now mb box (filter ((\<le>) n) r) = Inr fs"
    and fb: "fb = \<lparr>fb_uidvalidity = v, fb_uidnext = final_uidnext un (Some n) fs, fb_new = fs\<rparr>"
    using f st ids by (auto simp: fetch_open_box_def split: sum.splits)
  have u: "fm_uid ` set fs = {x \<in> uid_of ` set mails. n \<le> x}"
    using fetch_all_uids [OF fs srv] r by auto
  then show "fm_uid ` set (fb_new fb) = {x \<in> uid_of ` set mails. n \<le> x}" by (simp add: fb)
  show "fb_uidvalidity fb = v" by (simp add: fb)
  show "\<exists>x. fb_uidnext fb = Some x \<and> (\<forall>m \<in> set mails. uid_of m < x)"
  proof (cases un)
    case (Some x)
    then show ?thesis using serves_top [OF srv] by (simp add: fb final_uidnext_def)
  next
    case un: None
    show ?thesis
    proof (cases "fs = []")
      case True
      then have "\<forall>m \<in> set mails. uid_of m < n" using u by fastforce
      then show ?thesis using un True by (simp add: fb final_uidnext_def)
    next
      case False
      have "uid_of m < Max (fm_uid ` set fs) + 1" if "m \<in> set mails" for m
      proof (cases "n \<le> uid_of m")
        case True
        then have "uid_of m \<in> fm_uid ` set fs" using u that by auto
        then have "uid_of m \<le> Max (fm_uid ` set fs)" by (intro Max_ge) auto
        then show ?thesis by simp
      next
        case small: False
        obtain y where "y \<in> fm_uid ` set fs" using False by (cases fs) auto
        then have "n \<le> y" "y \<le> Max (fm_uid ` set fs)" using u by (auto intro: Max_ge)
        then show ?thesis using small by simp
      qed
      then show ?thesis using un False by (simp add: fb final_uidnext_def)
    qed
  qed
qed


text \<open>
  When the range search raises \<open>MailboxFetchError\<close> the error is swallowed as ``no new mail'' while the
  cursor still advances to the server's UIDNEXT: the messages in between are not fetched, and the next
  incremental fetch, which starts at the new cursor, does not see them either.
\<close>

theorem fetch_error_skips_mail:
  assumes "st_uidvalidity box = Inr (Some v)" and "st_uidnext box = Inr (Some un1)"
    and "search_from box n = Inl e" and "isinstance e EMailboxFetchError"
    and "fetch_open_box cv now today days mb box (Some n) (Some v) = Inr fb"
    and "serves box2 v un2 mails" and "m \<in> set mails" and "n \<le> uid_of m" and "uid_of m < un1"
    and "fetch_open_box cv now2 today2 days mb box2 (fb_uidnext fb) (Some v) = Inr fb2"
  shows "fb_new fb = [] \<and> uid_of m \<notin> fm_uid ` set (fb_new fb2)"
proof -
  have "fb = \<lparr>fb_uidvalidity = v, fb_uidnext = Some un1, fb_new = []\<rparr>"
    using assms(1-5) by (simp add: fetch_open_box_def uids_to_fetch_def do_initial_def fetch_all_def chunks.simps final_uidnext_def)
  then show ?thesis
    using incremental_uids(1) [OF assms(6), of cv now2 today2 days mb un1 fb2] assms(9,10) by auto
qed

subsection \<open>A concrete server\<close>

definition raw :: "int \<Rightarrow> raw_msg" where
  "raw i = \<lparr>rm_uid = Some i, rm_text = u ''hi'', rm_html = [], rm_date = Some 0, rm_from = u ''a@b.co'',
     rm_from_values = None, rm_to = [], rm_cc = [], rm_subject = [], rm_message_id = None,
     rm_in_reply_to = None, rm_references = None\<rparr>"

definition toy_box :: "int \<Rightarrow> int \<Rightarrow> raw_msg list \<Rightarrow> imap_box" where
  "toy_box v un mails = \<lparr>st_uidvalidity = Inr (Some v), st_uidnext = Inr (Some un),
     search_since = (\<lambda>_. Inr (map uid_of mails)),
     search_from = (\<lambda>n. Inr (filter (\<lambda>x. n \<le> x) (map uid_of mails))),
     fetch_batch = (\<lambda>ids. Inr (filter (\<lambda>m. uid_of m \<in> set ids) mails))\<rparr>"

lemma toy_box_serves: "\<forall>m \<in> set mails. uid_of m < un \<Longrightarrow> serves (toy_box v un mails) v (Some un) mails"
  by (auto simp: serves_def toy_box_def)

definition plain_cv :: converters where
  "plain_cv = \<lparr>html2text = id, bleach_clean = id, ext_word = (\<lambda>_. False)\<rparr>"


theorem fetch_error_skips_mail_witness:
  "\<exists>fb fb2. fetch_open_box plain_cv 0 0 30 1024
        ((toy_box 9 4 [])\<lparr>search_from := (\<lambda>_. Inl (mk_exc EMailboxFetchError []))\<rparr>) (Some 2) (Some 9) = Inr fb \<and>
     fetch_open_box plain_cv 0 0 30 1024 (toy_box 9 4 [raw 3]) (fb_uidnext fb) (Some 9) = Inr fb2 \<and>
     fb_new fb = [] \<and> 3 \<notin> fm_uid ` set (fb_new fb2)"
proof -
  let ?b = "(toy_box 9 4 [])\<lparr>search_from := (\<lambda>_. Inl (mk_exc EMailboxFetchError []))\<rparr>"
  let ?fb = "\<lparr>fb_uidvalidity = 9, fb_uidnext = Some 4, fb_new = []\<rparr>"
  have f1: "fetch_open_box plain_cv 0 0 30 1024 ?b (Some 2) (Some 9) = Inr ?fb"
    by (simp add: toy_box_def fetch_open_box_def uids_to_fetch_def do_initial_def fetch_all_def chunks.simps final_uidnext_def)
  have f2: "fetch_open_box plain_cv 0 0 30 1024 (toy_box 9 4 [raw 3]) (fb_uidnext ?fb) (Some 9) = Inr ?fb"
    by (simp add: toy_box_def fetch_open_box_def uids_to_fetch_def do_initial_def fetch_all_def chunks.simps
        final_uidnext_def raw_def uid_of_def)
  have s: "serves (toy_box 9 4 [raw 3]) 9 (Some 4) [raw 3]" by (rule toy_box_serves) (simp add: raw_def uid_of_def)
  have st: "st_uidvalidity ?b = Inr (Some 9)" "st_uidnext ?b = Inr (Some 4)"
    "search_from ?b 2 = Inl (mk_exc EMailboxFetchError [])" by (simp_all add: toy_box_def)
  have i: "isinstance (mk_exc EMailboxFetchError []) EMailboxFetchError" by simp
  have u3: "raw 3 \<in> set [raw 3]" "2 \<le> uid_of (raw 3)" "uid_of (raw 3) < 4" by (simp_all add: raw_def uid_of_def)
  from fetch_error_skips_mail [OF st i f1 s u3 f2] show ?thesis
    using f1 f2 by (auto simp: raw_def uid_of_def)
qed

end
