(* ===== verification/Error_Classify.thy ===== *)
theory Error_Classify
  imports Errors
begin

text \<open>
  \<open>worker/app/error_classify.py\<close>: one substring table read by \<open>classify\<close>, \<open>error_prefix\<close> and
  \<open>is_explicit_permanent\<close>. The argument of the Python functions is an exception or a text:
  \<open>ExcArg e\<close> or \<open>TextArg t\<close>. The lemmas show that the three functions agree (a permanent class
  has a permanent prefix and is always an instant-disable permanent), that a transient marker
  wins over any authentication marker, and what the OAuth rules 7 and 7b do.
\<close>

section \<open>The table\<close>

datatype errno = ECONNREFUSED | ECONNRESET | ETIMEDOUT | EHOSTUNREACH | ENETUNREACH | EPIPE

fun errno_value :: "errno \<Rightarrow> int" where
  \<comment> \<open>the Linux values, as in the module \<open>errno\<close> of the deployed image\<close>
  "errno_value EPIPE = 32"
| "errno_value ENETUNREACH = 101"
| "errno_value ECONNRESET = 104"
| "errno_value ETIMEDOUT = 110"
| "errno_value ECONNREFUSED = 111"
| "errno_value EHOSTUNREACH = 113"

definition TIMEOUT_TYPES :: "exc_class list" where
  "TIMEOUT_TYPES = [ETimeoutError, ETimeoutError, ETimeoutError]"

definition NETWORK_TYPES :: "exc_class list" where
  "NETWORK_TYPES = [EConnectionError, ESSLError]"

definition DECRYPT_TYPES :: "exc_class list" where
  "DECRYPT_TYPES = [EInvalidTag, EAssertionError]"

definition TRANSIENT_INSTANCE_TYPES :: "exc_class list" where
  "TRANSIENT_INSTANCE_TYPES = TIMEOUT_TYPES @ [EGaiError] @ NETWORK_TYPES"

definition RESOLVE_SUBSTRINGS :: "pystr list" where
  "RESOLVE_SUBSTRINGS = map u [''could not resolve'', ''name or service not known'',
     ''temporary failure in name resolution'', ''nodename nor servname'']"

definition RATE_LIMIT_SUBSTRINGS :: "pystr list" where
  "RATE_LIMIT_SUBSTRINGS = map u [''too many'', ''simultaneous'', ''try again'', ''temporarily'',
     ''unavailable'', ''inuse'', ''system error'', ''rate'', ''throttl'']"

definition IMAP_CONN_FLAKE_SUBSTRINGS :: "pystr list" where
  "IMAP_CONN_FLAKE_SUBSTRINGS = map u [''authenticated but not connected'', ''not connected'']"

definition TIMEOUT_SUBSTRINGS :: "pystr list" where
  "TIMEOUT_SUBSTRINGS = map u [''timed out'', ''timeout'']"

definition NETWORK_SUBSTRINGS :: "pystr list" where
  "NETWORK_SUBSTRINGS = map u [''connection refused'', ''connection reset'', ''broken pipe'',
     ''network is unreachable'', ''no route to host'', ''ssl'']"

definition NETWORK_ERRNOS :: "errno list" where
  "NETWORK_ERRNOS = [ECONNREFUSED, ECONNRESET, ETIMEDOUT, EHOSTUNREACH, ENETUNREACH, EPIPE]"

definition AUTH_SUBSTRINGS :: "pystr list" where
  "AUTH_SUBSTRINGS = map u [''authenticationfailed'', ''invalid credentials'', ''login failed'',
     ''[alert]'', ''account is disabled'', ''account has been blocked'']"

definition OAUTH_IMAP_AUTH_FLAKE_SUBSTRINGS :: "pystr list" where
  "OAUTH_IMAP_AUTH_FLAKE_SUBSTRINGS = map u [''login failed'', ''authenticationfailed'']"

definition AUTH_MARKER_SUBSTRINGS :: "pystr list" where
  "AUTH_MARKER_SUBSTRINGS = map u [''auth'', ''login'', ''credential'', ''password'']"

definition OAUTH_TRANSIENT_SUBSTRINGS :: "pystr list" where
  "OAUTH_TRANSIENT_SUBSTRINGS = map u [''5xx'', ''429'', ''token_network'', ''network'', ''timeout'',
     ''unexpected'', ''oauth_exchange_failed'']"

section \<open>The rules\<close>

datatype classify_arg = ExcArg pyexc | TextArg pystr

fun normalise :: "classify_arg \<Rightarrow> pystr \<times> pyexc option" where
  "normalise (ExcArg e) = (py_lower (type_name (ecls e) @ u '': '' @ emsg e), Some e)"
| "normalise (TextArg t) = (py_lower t, None)"

definition has_any :: "pystr \<Rightarrow> pystr list \<Rightarrow> bool" where
  "has_any text needles \<longleftrightarrow> list_ex (\<lambda>n. py_contains n text) needles"

definition isinstance_any :: "pyexc option \<Rightarrow> exc_class list \<Rightarrow> bool" where
  "isinstance_any exc cs = (case exc of None \<Rightarrow> False | Some e \<Rightarrow> list_ex (isinstance e) cs)"

definition network_errno :: "pyexc option \<Rightarrow> bool" where
  \<comment> \<open>rule 6: \<open>isinstance(exc, OSError) and exc.errno in _NETWORK_ERRNOS\<close>\<close>
  "network_errno exc = (case exc of None \<Rightarrow> False
     | Some e \<Rightarrow> isinstance e EOSError \<and>
         (case eerrno e of None \<Rightarrow> False | Some n \<Rightarrow> n \<in> set (map errno_value NETWORK_ERRNOS)))"

definition is_oauth_transient :: "pystr \<Rightarrow> bool" where
  "is_oauth_transient text =
     (if \<not> py_contains (u ''oauth_token_error'') text \<and> \<not> py_contains (u ''oauth_token_unexpected'') text
      then False else has_any text OAUTH_TRANSIENT_SUBSTRINGS)"

definition is_oauth_imap_auth_flake :: "pystr \<Rightarrow> string option \<Rightarrow> bool" where
  "is_oauth_imap_auth_flake text auth_type =
     (if auth_type \<noteq> Some ''oauth_outlook'' then False
      else if py_contains (u ''invalid_grant'') text then False
      else has_any text OAUTH_IMAP_AUTH_FLAKE_SUBSTRINGS)"

definition matches_transient :: "pyexc option \<Rightarrow> pystr \<Rightarrow> string option \<Rightarrow> bool" where
  "matches_transient exc text auth_type \<longleftrightarrow>
     isinstance_any exc TRANSIENT_INSTANCE_TYPES
     \<or> has_any text RESOLVE_SUBSTRINGS
     \<or> has_any text RATE_LIMIT_SUBSTRINGS
     \<or> has_any text IMAP_CONN_FLAKE_SUBSTRINGS
     \<or> has_any text TIMEOUT_SUBSTRINGS
     \<or> has_any text NETWORK_SUBSTRINGS
     \<or> network_errno exc
     \<or> is_oauth_transient text
     \<or> is_oauth_imap_auth_flake text auth_type"

definition matches_permanent :: "pyexc option \<Rightarrow> pystr \<Rightarrow> bool" where
  "matches_permanent exc text \<longleftrightarrow>
     has_any text AUTH_SUBSTRINGS
     \<or> py_contains (u ''invalid_grant'') text
     \<or> isinstance_any exc DECRYPT_TYPES
     \<or> py_contains (u ''invalidtag'') text
     \<or> py_contains (u ''decrypt_fail'') text"

datatype error_class = Transient | Permanent

definition classify :: "classify_arg \<Rightarrow> string option \<Rightarrow> error_class" where
  "classify x auth_type =
     (let (text, exc) = normalise x in
      if matches_transient exc text auth_type then Transient
      else if matches_permanent exc text then Permanent
      else Transient)"

definition error_prefix :: "classify_arg \<Rightarrow> string option \<Rightarrow> string" where
  "error_prefix x auth_type =
     (let (text, exc) = normalise x in
      if isinstance_any exc TIMEOUT_TYPES then ''timeout''
      else if isinstance_any exc [EGaiError] \<or> has_any text RESOLVE_SUBSTRINGS then ''invalid_host''
      else if has_any text RATE_LIMIT_SUBSTRINGS
        then (if has_any text AUTH_MARKER_SUBSTRINGS then ''auth_failed'' else ''network'')
      else if has_any text IMAP_CONN_FLAKE_SUBSTRINGS then ''network''
      else if has_any text TIMEOUT_SUBSTRINGS then ''timeout''
      else if isinstance_any exc NETWORK_TYPES \<or> has_any text NETWORK_SUBSTRINGS then ''network''
      else if network_errno exc then ''network''
      else if is_oauth_transient text then ''oauth_token_error''
      else if is_oauth_imap_auth_flake text auth_type then ''network''
      else if has_any text AUTH_SUBSTRINGS \<or> py_contains (u ''invalid_grant'') text then ''auth_failed''
      else if isinstance_any exc DECRYPT_TYPES \<or> py_contains (u ''invalidtag'') text
           \<or> py_contains (u ''decrypt_fail'') text then ''decrypt_fail''
      else ''error'')"

definition is_explicit_permanent :: "classify_arg \<Rightarrow> string option \<Rightarrow> bool" where
  "is_explicit_permanent x auth_type =
     (let (text, exc) = normalise x in
      if matches_transient exc text auth_type then False else matches_permanent exc text)"

section \<open>The three readers agree\<close>

lemma transient_instance_split:
  "isinstance_any exc TRANSIENT_INSTANCE_TYPES \<longleftrightarrow>
     isinstance_any exc TIMEOUT_TYPES \<or> isinstance_any exc [EGaiError] \<or> isinstance_any exc NETWORK_TYPES"
  by (cases exc) (auto simp: isinstance_any_def TRANSIENT_INSTANCE_TYPES_def)

lemma isinstance_any_None [simp]: "\<not> isinstance_any None cs"
  by (simp add: isinstance_any_def)

lemma classify_permanent_iff:
  "classify x a = Permanent \<longleftrightarrow>
     (let (text, exc) = normalise x in \<not> matches_transient exc text a \<and> matches_permanent exc text)"
  by (auto simp: classify_def split: prod.splits)

lemma is_explicit_permanent_iff: "is_explicit_permanent x a \<longleftrightarrow> classify x a = Permanent"
  by (auto simp: classify_permanent_iff is_explicit_permanent_def split: prod.splits)

lemma error_prefix_not_transient:
  assumes "normalise x = (text, exc)" and "\<not> matches_transient exc text a"
  shows "error_prefix x a =
     (if has_any text AUTH_SUBSTRINGS \<or> py_contains (u ''invalid_grant'') text then ''auth_failed''
      else if isinstance_any exc DECRYPT_TYPES \<or> py_contains (u ''invalidtag'') text
           \<or> py_contains (u ''decrypt_fail'') text then ''decrypt_fail''
      else ''error'')"
  using assms unfolding matches_transient_def transient_instance_split
  by (simp add: error_prefix_def del: u_simps)

lemma error_prefix_transient:
  assumes "normalise x = (text, exc)" and "matches_transient exc text a"
  shows "error_prefix x a \<in> {''timeout'', ''invalid_host'', ''auth_failed'', ''network'', ''oauth_token_error''}"
proof -
  have "isinstance_any exc TIMEOUT_TYPES \<or> isinstance_any exc [EGaiError]
     \<or> isinstance_any exc NETWORK_TYPES \<or> has_any text RESOLVE_SUBSTRINGS
     \<or> has_any text RATE_LIMIT_SUBSTRINGS \<or> has_any text IMAP_CONN_FLAKE_SUBSTRINGS
     \<or> has_any text TIMEOUT_SUBSTRINGS \<or> has_any text NETWORK_SUBSTRINGS
     \<or> network_errno exc \<or> is_oauth_transient text \<or> is_oauth_imap_auth_flake text a"
    using assms(2) unfolding matches_transient_def transient_instance_split by blast
  then show ?thesis
    by (elim disjE) (simp_all add: error_prefix_def assms(1) del: u_simps)
qed

text \<open>
  The class and the prefix never diverge: a permanent failure is shown as
  \<open>auth_failed\<close> or \<open>decrypt_fail\<close>; the fail-open prefix \<open>error\<close> and every connectivity
  prefix belong to transient failures only.
\<close>

theorem classify_prefix_coherent:
  "(classify x a = Permanent \<longrightarrow> error_prefix x a \<in> {''auth_failed'', ''decrypt_fail''}) \<and>
   (error_prefix x a \<in> {''timeout'', ''invalid_host'', ''network'', ''oauth_token_error'', ''error''}
      \<longrightarrow> classify x a = Transient) \<and>
   (error_prefix x a = ''decrypt_fail'' \<longrightarrow> classify x a = Permanent)"
proof -
  obtain tx exc where n: "normalise x = (tx, exc)" by (cases "normalise x")
  show ?thesis
  proof (cases "matches_transient exc tx a")
    case True
    then show ?thesis
      using error_prefix_transient [OF n True] by (auto simp: classify_def n)
  next
    case False
    have "error_prefix x a = ''error'' \<or> matches_permanent exc tx"
      by (auto simp: error_prefix_not_transient [OF n False] matches_permanent_def)
    then show ?thesis
      unfolding classify_def n error_prefix_not_transient [OF n False]
      using False by (auto simp: matches_permanent_def)
  qed
qed

theorem classify_prefix_coherent_witness:
  "classify (ExcArg (mk_exc EInvalidTag [])) (Some ''password'') = Permanent \<and>
   error_prefix (ExcArg (mk_exc EInvalidTag [])) (Some ''password'') = ''decrypt_fail'' \<and>
   error_prefix (TextArg (u ''boom'')) None = ''error'' \<and>
   classify (TextArg (u ''boom'')) None = Transient"
proof -
  have a: "error_prefix (ExcArg (mk_exc EInvalidTag [])) (Some ''password'') = ''decrypt_fail''"
    by code_simp
  have b: "error_prefix (TextArg (u ''boom'')) None = ''error''" by code_simp
  from a b show ?thesis
    using classify_prefix_coherent [of "ExcArg (mk_exc EInvalidTag [])" "Some ''password''"]
      classify_prefix_coherent [of "TextArg (u ''boom'')" None] by simp
qed


section \<open>The OAuth rules\<close>

lemma matches_transient_mono_auth:
  "matches_transient exc text None \<Longrightarrow> matches_transient exc text a"
  by (auto simp: matches_transient_def is_oauth_imap_auth_flake_def)

lemma auth_type_irrelevant:
  "a \<noteq> Some ''oauth_outlook'' \<Longrightarrow> matches_transient exc text a = matches_transient exc text None"
  by (simp add: matches_transient_def is_oauth_imap_auth_flake_def)

text \<open>
  Rule 7b: for an \<open>oauth_outlook\<close> mailbox no text that reads like a failed login is permanent
  unless it carries \<open>invalid_grant\<close>; and the authentication type only ever turns a permanent
  failure into a transient one, never the other way round.
\<close>

theorem oauth_login_flake_never_permanent:
  assumes "normalise x = (text, exc)"
    and "has_any text OAUTH_IMAP_AUTH_FLAKE_SUBSTRINGS"
    and "\<not> py_contains (u ''invalid_grant'') text"
  shows "classify x (Some ''oauth_outlook'') = Transient \<and>
         error_prefix x (Some ''oauth_outlook'') \<noteq> ''decrypt_fail'' \<and>
         \<not> is_explicit_permanent x (Some ''oauth_outlook'') \<and>
         (\<forall>y b. classify y b = Permanent \<longrightarrow> classify y None = Permanent)"
proof -
  have flake: "matches_transient exc text (Some ''oauth_outlook'')"
    using assms(2,3) by (simp add: matches_transient_def is_oauth_imap_auth_flake_def)
  have "classify y None = Permanent" if "classify y b = Permanent" for y b
    using that matches_transient_mono_auth by (auto simp: classify_permanent_iff split: prod.splits)
  then show ?thesis
    using flake error_prefix_transient [OF assms(1) flake]
    by (auto simp: classify_def is_explicit_permanent_def assms(1))
qed

theorem oauth_login_flake_never_permanent_witness:
  "classify (ExcArg (mk_exc EImapError (u ''LOGIN failed.''))) (Some ''oauth_outlook'') = Transient \<and>
   classify (ExcArg (mk_exc EImapError (u ''LOGIN failed.''))) (Some ''password'') = Permanent"
proof -
  let ?x = "ExcArg (mk_exc EImapError (u ''LOGIN failed.''))"
  have n: "normalise ?x = (py_lower (u ''error: LOGIN failed.''), Some (mk_exc EImapError (u ''LOGIN failed.'')))"
    by simp
  have h: "has_any (py_lower (u ''error: LOGIN failed.'')) OAUTH_IMAP_AUTH_FLAKE_SUBSTRINGS" by code_simp
  have g: "\<not> py_contains (u ''invalid_grant'') (py_lower (u ''error: LOGIN failed.''))" by code_simp
  have p: "classify ?x (Some ''password'') = Permanent" by code_simp
  show ?thesis using oauth_login_flake_never_permanent [OF n h g] p by blast
qed

end
