(* ===== verification/Sync_Cycle.thy ===== *)
theory Sync_Cycle
  imports OAuth Imap_Fetch Error_Classify Ssrf
begin

text \<open>
  \<open>worker/app/sync_cycle.py\<close>: one mailbox sync, the two-phase cycle with its circuit breaker, and the forced sync.
  \<open>sync_env\<close> holds what the outside answers, per mailbox row: the IMAP connection and box, whether the fetch exceeds
  its \<open>wait_for\<close> limit, the DNS resolver, the OAuth environment, and what other processes do while a refresh is awaited.
  The clock is constant within a job (microseconds). The accounts of a cycle are run one after the other in list order:
  each touches its own row, its own messages and the shared queues, and the interleavings of \<open>asyncio.gather\<close> differ only
  in the order of the queue entries. The failure ratio is compared as an exact rational.
\<close>

record sync_env =
  se_settings :: settings
  se_cipher :: cipher
  se_oauth :: "int \<Rightarrow> oauth_env"
  se_conv :: converters
  se_resolver :: resolver
  se_conn :: "account \<Rightarrow> imap_conn"
  se_box :: "account \<Rightarrow> imap_box"
  se_stall :: "account \<Rightarrow> bool"
  se_lock_token :: "int \<Rightarrow> pystr"
  se_peers :: "int \<Rightarrow> (world \<Rightarrow> world) list"

datatype sync_outcome = SyncOk | SyncTransient | SyncPermanent

record account_result =
  ar_account_id :: int
  ar_user_id :: int
  ar_new :: nat
  ar_conflict :: nat
  ar_outcome :: sync_outcome
  ar_error :: "pystr option"
  ar_prefix :: "string option"
  ar_explicit :: bool

definition result_of :: "account \<Rightarrow> nat \<Rightarrow> nat \<Rightarrow> sync_outcome \<Rightarrow> account_result" where
  "result_of a n c out = \<lparr>ar_account_id = acc_id a, ar_user_id = acc_user_id a, ar_new = n, ar_conflict = c,
     ar_outcome = out, ar_error = None, ar_prefix = None, ar_explicit = False\<rparr>"

section \<open>Recording outcomes\<close>

definition classifier_auth_type :: "settings \<Rightarrow> account \<Rightarrow> string option" where
  "classifier_auth_type s a = (if auth_type a = ''oauth_outlook'' \<and> \<not> SYNC_OAUTH_LOGIN_FAILED_TRANSIENT s
     then None else Some (auth_type a))"

definition should_suppress_transient :: "settings \<Rightarrow> int \<Rightarrow> int option \<Rightarrow> bool" where
  "should_suppress_transient s now synced = (case synced of None \<Rightarrow> False
     | Some t \<Rightarrow> 0 < SYNC_TRANSIENT_SUPPRESS_MINUTES s \<and> now - t \<le> SYNC_TRANSIENT_SUPPRESS_MINUTES s * 60000000)"

definition record_transient :: "settings \<Rightarrow> int \<Rightarrow> int \<Rightarrow> pystr \<Rightarrow> (world, unit) prog" where
  "record_transient s now i err = seqM (on_db (mark_transient_error now i err)) (enqueue_crm_status_best_effort s i)"

definition record_failure :: "settings \<Rightarrow> int \<Rightarrow> int \<Rightarrow> pystr \<Rightarrow> bool \<Rightarrow> (world, int) prog" where
  "record_failure s now i err disable = bindM (on_db (mark_sync_failure now i err disable)) (\<lambda>n.
     seqM (enqueue_crm_status_best_effort s i) (ret n))"

definition record_needs_consent_marker :: "settings \<Rightarrow> int \<Rightarrow> int \<Rightarrow> (world, unit) prog" where
  "record_needs_consent_marker s now i = bindM (on_db (mark_oauth_needs_consent_error now i)) (\<lambda>written.
     if written then enqueue_crm_status_best_effort s i else ret ())"

definition disable_after_failures :: "settings \<Rightarrow> int \<Rightarrow> int \<Rightarrow> (world, unit) prog" where
  "disable_after_failures s now i = seqM (on_db (disable_and_stamp_alert now i)) (enqueue_crm_status_best_effort s i)"

definition error_text :: "settings \<Rightarrow> account \<Rightarrow> pyexc \<Rightarrow> pystr \<Rightarrow> pystr" where
  "error_text s a e detail = u (error_prefix (ExcArg e) (classifier_auth_type s a)) @ u '': '' @ take 200 (one_line detail)"

definition handle_sync_error :: "settings \<Rightarrow> int \<Rightarrow> account \<Rightarrow> pyexc \<Rightarrow> pystr \<Rightarrow> (world, account_result) prog" where
  "handle_sync_error s now a e detail =
     (let auth = classifier_auth_type s a; txt = error_text s a e detail
      in case classify (ExcArg e) auth of
           Transient \<Rightarrow> seqM (if should_suppress_transient s now (last_synced_at a) then ret () else record_transient s now (acc_id a) txt)
             (ret (result_of a 0 0 SyncTransient))
         | Permanent \<Rightarrow> seqM (record_transient s now (acc_id a) txt)
             (ret ((result_of a 0 0 SyncPermanent)\<lparr>ar_error := Some txt, ar_prefix := Some (error_prefix (ExcArg e) auth),
                ar_explicit := is_explicit_permanent (ExcArg e) auth\<rparr>)))"

section \<open>Credentials\<close>

datatype creds = SkipAccount | Creds "pystr option" "pystr option" | CredsFailed account_result

definition resolve_oauth_access_token :: "sync_env \<Rightarrow> int \<Rightarrow> account \<Rightarrow> (world, creds) prog" where
  "resolve_oauth_access_token E now a = catchM
     (bindM (get_valid_access_token (se_oauth E (acc_id a)) (se_settings E) (se_cipher E) now (se_lock_token E (acc_id a)) (se_peers E (acc_id a)) a)
        (\<lambda>t. ret (Creds None (Some t))))
     (\<lambda>e. if isinstance e EOAuthRefreshInvalidError then ret SkipAccount
       else if isinstance e EOAuthError then bindM (handle_sync_error (se_settings E) now a e (u ''oauth_token_error: '' @ u (ecode e))) (\<lambda>r. ret (CredsFailed r))
       else if isinstance e EException then bindM (handle_sync_error (se_settings E) now a e (u ''oauth_token_unexpected: '' @ type_name (ecls e))) (\<lambda>r. ret (CredsFailed r))
       else throw e)"

definition stored_password :: "sync_env \<Rightarrow> account \<Rightarrow> pyexc + pystr" where
  "stored_password E a = (case encrypted_password a of None \<Rightarrow> Inl (mk_exc EAssertionError [])
     | Some blob \<Rightarrow> decrypt (oe_aead (se_oauth E (acc_id a))) (se_cipher E) blob (acc_id a))"

definition resolve_credentials :: "sync_env \<Rightarrow> int \<Rightarrow> account \<Rightarrow> (world, creds) prog" where
  "resolve_credentials E now a =
     (if auth_type a = ''oauth_outlook''
      then (if oauth_needs_consent a then seqM (record_needs_consent_marker (se_settings E) now (acc_id a)) (ret SkipAccount)
            else resolve_oauth_access_token E now a)
      else (case stored_password E a of
          Inr p \<Rightarrow> ret (Creds (Some p) None)
        | Inl e \<Rightarrow> if isinstance e EInvalidTag \<or> isinstance e EAssertionError
            then bindM (handle_sync_error (se_settings E) now a e (u ''decrypt_fail'')) (\<lambda>r. ret (CredsFailed r))
            else throw e))"

section \<open>One mailbox\<close>

definition fetch_box :: "sync_env \<Rightarrow> int \<Rightarrow> account \<Rightarrow> pystr option \<Rightarrow> pystr option \<Rightarrow> pyexc + fetched_box" where
  "fetch_box E now a pw tok = (if se_stall E a then Inl (mk_exc ETimeoutError [])
     else fetch_blocking (se_settings E) (se_conv E) now (now div 86400000000) (se_conn E a) (se_box E a) pw tok
       (last_synced_uidnext a) (last_uidvalidity a))"

definition row_of :: "int \<Rightarrow> int \<Rightarrow> fetched_message \<Rightarrow> message" where
  \<comment> \<open>the keyword arguments of the insert; the columns it does not take are irrelevant\<close>
  "row_of i uv m = \<lparr>msg_id = 0, msg_account_id = i, msg_uid = fm_uid m, msg_uidvalidity = uv,
     message_id_header = fm_message_id m, from_addr = fm_from_addr m, from_name = fm_from_name m, to_addrs = fm_to m,
     cc_addrs = fm_cc m, msg_subject = fm_subject m, internal_date = fm_date m, body_text = fm_body_text m,
     body_html = fm_body_html m, body_truncated = fm_truncated m, body_present = fm_present m, msg_is_read = False,
     in_reply_to = fm_in_reply_to m, refs_header = fm_refs m, fetched_at = 0, pushed_at = None\<rparr>"

fun save_messages :: "int \<Rightarrow> int \<Rightarrow> int \<Rightarrow> fetched_message list \<Rightarrow> (db, int list \<times> nat) prog" where
  \<comment> \<open>the ids of the new rows and the number of conflicts\<close>
  "save_messages now i uv [] = ret ([], 0)"
| "save_messages now i uv (m # ms) = bindM (insert_message_idempotent now (row_of i uv m)) (\<lambda>r.
     bindM (save_messages now i uv ms) (\<lambda>(ids, conflicts). case r of
         None \<Rightarrow> ret (ids, conflicts + 1)
       | Some k \<Rightarrow> ret (k # ids, conflicts)))"

definition enqueue_new :: "settings \<Rightarrow> int list \<Rightarrow> (world, unit) prog" where
  "enqueue_new s ids = (if ids \<noteq> [] \<and> crm_push_enabled s
     then suppress_all (bindM (enqueue_push_ids ids ''sync'') (\<lambda>_. ret ())) else ret ())"

definition store_box :: "sync_env \<Rightarrow> int \<Rightarrow> account \<Rightarrow> fetched_box \<Rightarrow> (world, account_result) prog" where
  "store_box E now a box =
     bindM (on_db (save_messages now (acc_id a) (fb_uidvalidity box) (fb_new box))) (\<lambda>(ids, conflicts).
     bindM (on_db (mark_sync_success now (acc_id a) (fb_uidnext box) (Some (fb_uidvalidity box)))) (\<lambda>_.
     bindM (enqueue_crm_status_best_effort (se_settings E) (acc_id a)) (\<lambda>_.
     bindM (enqueue_new (se_settings E) ids) (\<lambda>_.
     ret (result_of a (length ids) conflicts SyncOk)))))"

definition sync_one_account :: "sync_env \<Rightarrow> int \<Rightarrow> account \<Rightarrow> (world, account_result) prog" where
  "sync_one_account E now a = bindM (resolve_credentials E now a) (\<lambda>cr. case cr of
       CredsFailed r \<Rightarrow> ret r
     | SkipAccount \<Rightarrow> ret (result_of a 0 0 SyncOk)
     | Creds pw tok \<Rightarrow>
         (case assert_public_host (se_settings E) (se_resolver E) (imap_host a) (imap_port a) of
            Inl e \<Rightarrow> if isinstance e (EDomain InvalidHostError) then handle_sync_error (se_settings E) now a e (emsg e) else throw e
          | Inr _ \<Rightarrow>
             (case fetch_box E now a pw tok of
                Inl e \<Rightarrow> if isinstance e EException then handle_sync_error (se_settings E) now a e (one_line (emsg e)) else throw e
              | Inr box \<Rightarrow> store_box E now a box)))"

section \<open>The cycle\<close>

fun gather_all :: "sync_env \<Rightarrow> int \<Rightarrow> account list \<Rightarrow> world \<Rightarrow> (account \<times> (pyexc + account_result)) list \<times> world" where
  \<comment> \<open>\<open>gather(..., return_exceptions=True)\<close> zipped with the accounts\<close>
  "gather_all E now [] w = ([], w)"
| "gather_all E now (a # as) w = (case sync_one_account E now a w of (r, w1) \<Rightarrow>
     (case gather_all E now as w1 of (rs, w2) \<Rightarrow> ((a, r) # rs, w2)))"

definition crash_text :: "pyexc \<Rightarrow> pystr" where
  "crash_text e = take 200 (u ''error: '' @ type_name (ecls e) @ u '': '' @ emsg e)"

fun collect :: "settings \<Rightarrow> int \<Rightarrow> (account \<times> (pyexc + account_result)) list \<Rightarrow> (world, account_result list \<times> nat) prog" where
  \<comment> \<open>phase 1: the results and the number of runs that crashed\<close>
  "collect s now [] = ret ([], 0)"
| "collect s now ((a, Inr r) # rs) = bindM (collect s now rs) (\<lambda>(results, unexpected). ret (r # results, unexpected))"
| "collect s now ((a, Inl e) # rs) = bindM (suppress_all (record_transient s now (acc_id a) (crash_text e))) (\<lambda>_.
     bindM (collect s now rs) (\<lambda>(results, unexpected). ret (results, unexpected + 1)))"

definition breaker_tripped :: "settings \<Rightarrow> account_result list \<Rightarrow> bool" where
  "breaker_tripped s results =
     (let total = length results; permanent = length (filter (\<lambda>r. ar_outcome r = SyncPermanent) results);
          ratio = (if total = 0 then 0 else of_nat permanent / of_nat total :: rat)
      in SYNC_MASS_FAILURE_MIN s \<le> int total \<and> SYNC_MASS_FAILURE_RATIO s \<le> ratio)"

definition apply_permanent :: "settings \<Rightarrow> int \<Rightarrow> account_result \<Rightarrow> (world, unit) prog" where
  "apply_permanent s now r =
     bindM (record_failure s now (ar_account_id r) (case ar_error r of None \<Rightarrow> u ''error'' | Some t \<Rightarrow> if t = [] then u ''error'' else t) False) (\<lambda>n.
       if ar_explicit r then disable_after_failures s now (ar_account_id r)
       else if SYNC_MAX_CONSECUTIVE_FAILURES s \<le> n then disable_after_failures s now (ar_account_id r)
       else ret ())"

definition run_for_accounts :: "sync_env \<Rightarrow> int \<Rightarrow> account list \<Rightarrow> (world, nat \<times> nat \<times> nat) prog" where
  "run_for_accounts E now accs w =
     (if accs = [] then (Inr (0, 0, 0), w)
      else (case gather_all E now accs w of (raws, w1) \<Rightarrow>
        bindM (collect (se_settings E) now raws) (\<lambda>(results, unexpected).
          let ok = length (filter (\<lambda>r. ar_outcome r = SyncOk) results);
              failed = length results - ok + unexpected;
              new_msgs = sum_list (map ar_new results)
          in seqM (if breaker_tripped (se_settings E) results then ret ()
                   else for_each (apply_permanent (se_settings E) now) (filter (\<lambda>r. ar_outcome r = SyncPermanent) results))
               (ret (ok, failed, new_msgs))) w1))"

definition sync_cycle :: "sync_env \<Rightarrow> int \<Rightarrow> (world, unit) prog" where
  "sync_cycle E now = bindM (getM (\<lambda>w. list_active (wdb w))) (\<lambda>accs.
     bindM (run_for_accounts E now accs) (\<lambda>_. ret ()))"

section \<open>Forced syncs\<close>

fun drain_marks :: "pystr list \<Rightarrow> (world, int list) prog" where
  "drain_marks [] = ret []"
| "drain_marks (k # ks) = (case py_int k of
       None \<Rightarrow> drain_marks ks
     | Some i \<Rightarrow> bindM (redis (\<lambda>w. ((), w\<lparr>force_marks := filter (\<lambda>x. x \<noteq> k) (force_marks w)\<rparr>))) (\<lambda>_.
         bindM (drain_marks ks) (\<lambda>is. ret (i # is))))"

definition drain_forced_account_ids :: "(world, int list) prog" where
  \<comment> \<open>\<open>force_marks\<close> holds the parts of the keys after \<open>force_sync:\<close>; the scan is one command\<close>
  "drain_forced_account_ids = bindM (redis (\<lambda>w. (force_marks w, w))) drain_marks"

definition force_sync_dispatch :: "sync_env \<Rightarrow> int \<Rightarrow> (world, unit) prog" where
  "force_sync_dispatch E now = bindM drain_forced_account_ids (\<lambda>ids.
     if ids = [] then ret ()
     else bindM (getM (\<lambda>w. list_active_by_ids (sort (remdups ids)) (wdb w))) (\<lambda>accs.
       bindM (run_for_accounts E now accs) (\<lambda>_. ret ())))"

section \<open>Frames on the account rows\<close>

text \<open>
  \<open>rows_related R d0 d\<close>: the same rows exist as in \<open>d0\<close>, each related by \<open>R\<close> to what it was. Two relations are used:
  \<open>same_sync\<close> (nothing of the sync state changed, only tokens and the displayed error) and \<open>soft\<close> (the mailbox was
  neither disabled nor charged with a failure).
\<close>

definition rows_related :: "(account \<Rightarrow> account \<Rightarrow> bool) \<Rightarrow> db \<Rightarrow> db \<Rightarrow> bool" where
  "rows_related R d0 d \<longleftrightarrow> accounts_ok d \<and> (\<forall>j. rel_option R (get_by_id j d0) (get_by_id j d))"

definition rframe :: "(account \<Rightarrow> account \<Rightarrow> bool) \<Rightarrow> db \<Rightarrow> world \<Rightarrow> bool" where
  "rframe R d0 w \<longleftrightarrow> rows_related R d0 (wdb w)"

definition same_sync :: "account \<Rightarrow> account \<Rightarrow> bool" where
  "same_sync a b \<longleftrightarrow> is_active b = is_active a \<and> disabled_alert_sent_at b = disabled_alert_sent_at a \<and>
     consecutive_failures b = consecutive_failures a \<and> last_synced_uidnext b = last_synced_uidnext a \<and>
     last_uidvalidity b = last_uidvalidity a \<and> last_synced_at b = last_synced_at a"

definition soft :: "account \<Rightarrow> account \<Rightarrow> bool" where
  "soft a b \<longleftrightarrow> is_active b = is_active a \<and> disabled_alert_sent_at b = disabled_alert_sent_at a \<and>
     (consecutive_failures b = consecutive_failures a \<or> consecutive_failures b = 0)"

definition quiet_peers :: "sync_env \<Rightarrow> bool" where
  \<comment> \<open>the processes a waiting refresh observes change tokens and errors only\<close>
  "quiet_peers E \<longleftrightarrow> (\<forall>i. \<forall>p \<in> set (se_peers E i). \<forall>w. accounts_ok (wdb w) \<longrightarrow> rows_related same_sync (wdb w) (wdb (p w)))"

lemma same_sync_refl [simp]: "same_sync a a" and soft_refl [simp]: "soft a a"
  by (simp_all add: same_sync_def soft_def)

lemma same_sync_trans: "same_sync a b \<Longrightarrow> same_sync b c \<Longrightarrow> same_sync a c"
  and soft_trans: "soft a b \<Longrightarrow> soft b c \<Longrightarrow> soft a c"
  and same_sync_soft: "same_sync a b \<Longrightarrow> soft a b"
  by (auto simp: same_sync_def soft_def)

lemma rows_related_refl: "accounts_ok d \<Longrightarrow> (\<And>a. R a a) \<Longrightarrow> rows_related R d d"
  by (simp add: rows_related_def option.rel_refl)

lemma rel_option_trans:
  "(\<And>a b c. R a b \<Longrightarrow> S b c \<Longrightarrow> T a c) \<Longrightarrow> rel_option R x y \<Longrightarrow> rel_option S y z \<Longrightarrow> rel_option T x z"
  by (cases x; cases y; cases z) auto

lemma rows_related_trans:
  "(\<And>a b c. R a b \<Longrightarrow> S b c \<Longrightarrow> T a c) \<Longrightarrow> rows_related R d0 d1 \<Longrightarrow> rows_related S d1 d2 \<Longrightarrow> rows_related T d0 d2"
  unfolding rows_related_def by (auto intro: rel_option_trans [where R = R and S = S and T = T])

lemma rows_related_mono: "(\<And>a b. R a b \<Longrightarrow> S a b) \<Longrightarrow> rows_related R d0 d \<Longrightarrow> rows_related S d0 d"
  unfolding rows_related_def using option.rel_mono [of R S] by (auto simp: le_fun_def)

lemma rows_related_cong:
  "accounts d = accounts d' \<Longrightarrow> users d = users d' \<Longrightarrow> rows_related R d0 d = rows_related R d0 d'"
  by (simp add: rows_related_def accounts_ok_def get_by_id_def)

lemma rows_related_row:
  "rows_related R d0 d \<Longrightarrow> get_by_id j d0 = Some a \<Longrightarrow> \<exists>b. get_by_id j d = Some b \<and> R a b"
  unfolding rows_related_def by (metis option_rel_Some1)

lemma get_by_id_key: "get_by_id j d = Some a \<Longrightarrow> acc_id a = j"
  by (auto simp: get_by_id_def dest: find_key)

lemma get_by_id_write:
  assumes "harmless f" and "accounts_ok d"
  shows "get_by_id j (d\<lparr>accounts := update_where P f (accounts d)\<rparr>) = map_option (\<lambda>a. if P a then f a else a) (get_by_id j d)"
proof -
  have k: "acc_id (f a) = acc_id a" for a using assms(1) by (simp add: harmless_def)
  have "find (\<lambda>a. acc_id a = j) (update_where P f xs) = map_option (\<lambda>a. if P a then f a else a) (find (\<lambda>a. acc_id a = j) xs)" for xs
    by (induction xs) (simp_all add: k)
  then show ?thesis by (simp add: get_by_id_def)
qed

lemma keeps_write_rows [intro]:
  assumes "harmless f" and "\<And>a. R a a" and "\<And>a. P a \<Longrightarrow> R a (f a)" and tr: "\<And>a b c. R a b \<Longrightarrow> R b c \<Longrightarrow> R a c"
  shows "keeps (rows_related R d0) (write_accounts (update_where P f))"
proof (rule keepsI)
  fix d assume d: "rows_related R d0 d"
  then have ok: "accounts_ok d" by (simp add: rows_related_def)
  have "rows_related R d (snd (write_accounts (update_where P f) d))"
    unfolding rows_related_def write_harmless [OF assms(1) ok]
    using assms(2,3) harmless_accounts_ok [OF assms(1) ok]
    by (auto simp: get_by_id_write [OF assms(1) ok] option.rel_map intro: option.rel_refl)
  then show "rows_related R d0 (snd (write_accounts (update_where P f) d))"
    using rows_related_trans [where R = R and S = R and T = R, of d0 d] d tr by blast
qed

lemma keeps_on_db_rows [intro]:
  assumes "keeps (rows_related R d0) m" shows "keeps (rframe R d0) (on_db m)"
proof (rule keepsI)
  fix w assume w: "rframe R d0 w"
  obtain r d1 where m: "m (wdb w) = (r, d1)" by (cases "m (wdb w)")
  then have "rows_related R d0 d1" using keepsD [OF assms, of "wdb w"] w by (simp add: rframe_def)
  moreover have "rows_related R d0 (rollback (wdb w) d1) = rows_related R d0 (wdb w)" by (rule rows_related_cong) simp_all
  ultimately show "rframe R d0 (snd (on_db m w))"
    using m w by (simp add: rframe_def on_db_def transaction_def split: sum.splits)
qed

lemma rframe_redis [intro]: "(\<And>w. wdb (snd (f w)) = wdb w) \<Longrightarrow> keeps (rframe R d0) (redis f)"
  by (rule keepsI) (auto simp: rframe_def redis_def Let_def split: prod.splits dest: arg_cong [of _ _ "\<lambda>p. wdb (snd p)"])

lemma keeps_suppress_all [intro]: "keeps P m \<Longrightarrow> keeps P (suppress_all m)"
  unfolding suppress_all_def by (intro keeps_catchM keeps_if) auto

lemma keeps_finallyM [intro]: "keeps P m \<Longrightarrow> keeps P f \<Longrightarrow> keeps P (finallyM m f)"
  by (auto simp: keeps_def finallyM_def split: prod.splits sum.splits)

lemma keeps_same_db: "(\<And>w. wdb (snd (m w)) = wdb w) \<Longrightarrow> keeps (rframe R d0) m"
  by (rule keepsI) (simp add: rframe_def)

lemma rframe_enqueue_status [intro]: "keeps (rframe R d0) (enqueue_crm_status_best_effort s i)"
  unfolding enqueue_crm_status_best_effort_def enqueue_crm_status_def by (intro keeps_if keeps_suppress_all rframe_redis) auto

lemma rframe_token_post [intro]: "keeps (rframe R d0) (token_post env data)"
  by (rule keepsI) (auto simp: rframe_def token_post_def Let_def split: sum.splits prod.splits if_splits)

lemma rframe_weaken:
  assumes "\<And>d. keeps (rframe R d) m" and "\<And>a. R a a" and "\<And>a b. R a b \<Longrightarrow> S a b"
    and "\<And>a b c. S a b \<Longrightarrow> S b c \<Longrightarrow> S a c"
  shows "keeps (rframe S d0) m"
proof (rule keepsI)
  fix w assume w: "rframe S d0 w"
  then have "rframe R (wdb w) w" by (simp add: rframe_def rows_related_def assms(2) option.rel_refl)
  then have "rframe R (wdb w) (snd (m w))" using keepsD [OF assms(1)] by blast
  then have "rows_related S (wdb w) (wdb (snd (m w)))" unfolding rframe_def by (rule rows_related_mono [rotated]) (rule assms(3))
  then show "rframe S d0 (snd (m w))"
    using rows_related_trans [where R = S and S = S and T = S, OF assms(4)] w unfolding rframe_def by simp
qed

section \<open>What each step may change\<close>

lemma same_sync_write [intro]:
  "harmless f \<Longrightarrow> (\<And>a. P a \<Longrightarrow> same_sync a (f a)) \<Longrightarrow> keeps (rows_related same_sync d0) (write_accounts (update_where P f))"
  by (rule keeps_write_rows) (auto intro: same_sync_trans)

lemma soft_write [intro]:
  "harmless f \<Longrightarrow> (\<And>a. P a \<Longrightarrow> soft a (f a)) \<Longrightarrow> keeps (rows_related soft d0) (write_accounts (update_where P f))"
  by (rule keeps_write_rows) (auto intro: soft_trans)

lemma harmless_error: "harmless (\<lambda>a. a\<lparr>last_sync_error := e, updated_at := now\<rparr>)"
  by (simp add: harmless_def account_checks_def)

lemma harmless_success: "harmless (\<lambda>a. a\<lparr>last_synced_uidnext := x, last_uidvalidity := v, last_synced_at := t,
    last_sync_error := e, consecutive_failures := 0, updated_at := now\<rparr>)"
  by (simp add: harmless_def account_checks_def)

lemma frame_tokens [intro]: "keeps (rows_related same_sync d0) (update_oauth_tokens now i r ac ex sc needs)"
  unfolding update_oauth_tokens_def update_row_def
  by (rule same_sync_write [OF harmless_update_tokens]) (auto simp: same_sync_def opt_set_def split: option.splits)

lemma frame_needs_consent [intro]: "keeps (rows_related same_sync d0) (mark_oauth_needs_consent now i)"
  unfolding mark_oauth_needs_consent_def update_row_def
  by (rule same_sync_write [OF harmless_needs_consent]) (simp add: same_sync_def)

lemma frame_transient [intro]: "keeps (rows_related same_sync d0) (mark_transient_error now i err)"
  unfolding mark_transient_error_def update_row_def
  by (rule same_sync_write [OF harmless_error]) (simp add: same_sync_def)

lemma frame_consent_error [intro]: "keeps (rows_related same_sync d0) (mark_oauth_needs_consent_error now i)"
proof (rule keepsI)
  fix d assume d: "rows_related same_sync d0 d"
  let ?P = "\<lambda>a. acc_id a = i \<and> last_sync_error a \<noteq> Some OAUTH_NEEDS_CONSENT_SYNC_ERROR"
  let ?f = "\<lambda>a. a\<lparr>last_sync_error := Some OAUTH_NEEDS_CONSENT_SYNC_ERROR, updated_at := now\<rparr>"
  have "keeps (rows_related same_sync d0) (seqM (write_accounts (update_where ?P ?f)) (ret (list_ex ?P (accounts d))))"
    by (intro keeps_bindM same_sync_write harmless_error keeps_ret) (simp add: same_sync_def)
  from keepsD [OF this d] show "rows_related same_sync d0 (snd (mark_oauth_needs_consent_error now i d))"
    unfolding mark_oauth_needs_consent_error_def Let_def .
qed

lemma frame_success [intro]: "keeps (rows_related soft d0) (mark_sync_success now i x v)"
  unfolding mark_sync_success_def update_row_def
  by (rule soft_write [OF harmless_success]) (simp add: soft_def)

lemma save_messages_keep: "keeps (\<lambda>d. accounts d = A \<and> users d = U) (save_messages now i uv ms)"
proof (induction ms)
  case (Cons m ms)
  have "keeps (\<lambda>d. accounts d = A \<and> users d = U) (insert_message_idempotent now (row_of i uv m))" by (rule keepsI) simp
  then show ?case using Cons by (auto intro!: keeps_bindM split: option.splits)
qed (simp add: keeps_def)

lemma save_messages_accounts [simp]:
  "accounts (snd (save_messages now i uv ms d)) = accounts d" "users (snd (save_messages now i uv ms d)) = users d"
  using keepsD [OF save_messages_keep [of "accounts d" "users d"], of d] by simp_all

lemma frame_save [intro]: "keeps (rows_related R d0) (save_messages now i uv ms)"
proof (rule keepsI)
  fix d assume "rows_related R d0 d"
  moreover have "rows_related R d0 (snd (save_messages now i uv ms d)) = rows_related R d0 d" by (rule rows_related_cong) simp_all
  ultimately show "rows_related R d0 (snd (save_messages now i uv ms d))" by simp
qed

lemma frame_record_transient [intro]: "keeps (rframe same_sync d0) (record_transient s now i err)"
  unfolding record_transient_def by (intro keeps_bindM keeps_on_db_rows frame_transient rframe_enqueue_status)

lemma frame_handle [intro]: "keeps (rframe same_sync d0) (handle_sync_error s now a e detail)"
  unfolding handle_sync_error_def Let_def
  by (auto intro!: keeps_bindM keeps_if keeps_ret frame_record_transient split: error_class.splits)

lemma frame_do_refresh [intro]: "keeps (rframe same_sync d0) (do_refresh env s c now a)"
  unfolding do_refresh_def refresh_grant_def mark_needs_consent_def
  by (cases "oauth_refresh_token_encrypted a")
    (auto intro!: keeps_bindM keeps_catchM keeps_if keeps_throw keeps_ret keeps_liftE keeps_on_db_rows rframe_token_post
      rframe_enqueue_status frame_tokens frame_needs_consent)

lemma frame_await:
  assumes "\<forall>p \<in> set peers. \<forall>w. accounts_ok (wdb w) \<longrightarrow> rows_related same_sync (wdb w) (wdb (p w))"
  shows "keeps (rframe same_sync d0) (await_refreshed_token env c now i peers)"
  using assms
proof (induction peers)
  case (Cons p ps)
  have "keeps (rframe same_sync d0) (modifyM p)"
  proof (rule keepsI)
    fix w assume w: "rframe same_sync d0 w"
    then have "rows_related same_sync (wdb w) (wdb (p w))" using Cons.prems by (simp add: rframe_def rows_related_def)
    then show "rframe same_sync d0 (snd (modifyM p w))"
      using w rows_related_trans [where R = same_sync and S = same_sync and T = same_sync, OF same_sync_trans]
      unfolding rframe_def by simp
  qed
  then show ?case
    using Cons unfolding await_refreshed_token.simps
    by (intro keeps_bindM keeps_getM) (auto intro!: keeps_bindM keeps_liftE split: option.splits)
qed (simp add: keeps_ret)

lemma frame_locked [intro]: "keeps (rframe same_sync d0) (locked_refresh env s c now a)"
  unfolding locked_refresh_def
  by (intro keeps_bindM keeps_getM) (auto intro!: keeps_bindM keeps_liftE split: option.splits)

lemma frame_access_token:
  assumes "\<forall>p \<in> set peers. \<forall>w. accounts_ok (wdb w) \<longrightarrow> rows_related same_sync (wdb w) (wdb (p w))"
  shows "keeps (rframe same_sync d0) (get_valid_access_token env s c now tok peers a)"
  unfolding get_valid_access_token_def try_acquire_lock_def release_lock_def kv_set_nx_ex_def kv_del_if_def
  by (auto intro!: keeps_bindM keeps_liftE keeps_catchM keeps_if keeps_finallyM rframe_redis frame_await [OF assms] frame_locked
      frame_do_refresh split: option.splits)

lemma frame_credentials:
  assumes "quiet_peers E"
  shows "keeps (rframe same_sync d0) (resolve_credentials E now a)"
proof -
  have "keeps (rframe same_sync d0) (resolve_oauth_access_token E now a)"
    unfolding resolve_oauth_access_token_def
    by (intro keeps_catchM keeps_bindM frame_access_token keeps_if) (use assms in \<open>auto simp: quiet_peers_def\<close>)
  moreover have "keeps (rframe same_sync d0) (record_needs_consent_marker (se_settings E) now (acc_id a))"
    unfolding record_needs_consent_marker_def by (auto intro!: keeps_bindM keeps_if)
  ultimately show ?thesis
    unfolding resolve_credentials_def by (auto intro!: keeps_bindM keeps_if split: sum.splits)
qed

lemma soften: "(\<And>d. keeps (rframe same_sync d) m) \<Longrightarrow> keeps (rframe soft d0) m"
  by (rule rframe_weaken [where R = same_sync]) (auto intro: same_sync_soft soft_trans)

lemma enqueue_new_wdb [simp]: "wdb (snd (enqueue_new s ids w)) = wdb w"
  by (auto simp: enqueue_new_def suppress_all_snd enqueue_push_ids_def redis_def Let_def bindM_app split: if_splits)

lemma frame_store [intro]: "keeps (rframe soft d0) (store_box E now a box)"
  unfolding store_box_def by (auto intro!: keeps_bindM keeps_on_db_rows keeps_same_db [OF enqueue_new_wdb])

lemma frame_sync_one:
  assumes "quiet_peers E"
  shows "keeps (rframe soft d0) (sync_one_account E now a)"
  unfolding sync_one_account_def
  by (auto intro!: keeps_bindM keeps_if soften [OF frame_credentials [OF assms]] soften [OF frame_handle] frame_store
      split: creds.splits sum.splits)

section \<open>What a run reports\<close>

definition fair_result :: "account \<Rightarrow> account_result \<Rightarrow> bool" where
  "fair_result a r \<longleftrightarrow> ar_account_id r = acc_id a \<and> (ar_outcome r = SyncPermanent \<longrightarrow> ar_explicit r)"

lemma fair_handle: "yields (fair_result a) (handle_sync_error s now a e detail)"
  unfolding handle_sync_error_def Let_def
  by (auto intro!: yields_seqM simp: fair_result_def result_of_def is_explicit_permanent_iff split: error_class.splits)

lemma fair_ok [simp]: "fair_result a (result_of a n c SyncOk)"
  by (simp add: fair_result_def result_of_def)

definition fair_creds :: "account \<Rightarrow> creds \<Rightarrow> bool" where
  "fair_creds a cr = (case cr of CredsFailed r \<Rightarrow> fair_result a r | _ \<Rightarrow> True)"

lemma fair_failed: "yields (fair_creds a) (bindM (handle_sync_error s now a e detail) (\<lambda>r. ret (CredsFailed r)))"
  by (rule yields_bindM [OF fair_handle]) (auto simp: fair_creds_def)

lemma fair_credentials: "yields (fair_creds a) (resolve_credentials E now a)"
  unfolding resolve_credentials_def resolve_oauth_access_token_def
  by (auto intro!: yields_catchM fair_failed yields_seqM split: sum.splits) (auto simp: fair_creds_def)

lemma fair_sync_one: "yields (fair_result a) (sync_one_account E now a)"
  unfolding sync_one_account_def
proof (rule yields_bindM [OF fair_credentials])
  fix cr assume "fair_creds a cr"
  then show "yields (fair_result a) (case cr of CredsFailed r \<Rightarrow> ret r | SkipAccount \<Rightarrow> ret (result_of a 0 0 SyncOk)
     | Creds pw tok \<Rightarrow> (case assert_public_host (se_settings E) (se_resolver E) (imap_host a) (imap_port a) of
            Inl e \<Rightarrow> if isinstance e (EDomain InvalidHostError) then handle_sync_error (se_settings E) now a e (emsg e) else throw e
          | Inr _ \<Rightarrow> (case fetch_box E now a pw tok of
                Inl e \<Rightarrow> if isinstance e EException then handle_sync_error (se_settings E) now a e (one_line (emsg e)) else throw e
              | Inr box \<Rightarrow> store_box E now a box)))"
    by (cases cr) (auto simp: fair_creds_def store_box_def fair_ok intro!: fair_handle yields_seqM split: sum.splits)
qed

definition results_of :: "(account \<times> (pyexc + account_result)) list \<Rightarrow> account_result list" where
  "results_of raws = List.map_filter (\<lambda>(a, r). case r of Inr x \<Rightarrow> Some x | Inl _ \<Rightarrow> None) raws"

definition permanent_ids :: "account_result list \<Rightarrow> int list" where
  "permanent_ids results = map ar_account_id (filter (\<lambda>r. ar_outcome r = SyncPermanent) results)"

lemma gather_all_run:
  assumes "quiet_peers E" and "gather_all E now accs w = (raws, w1)" and "accounts_ok (wdb w)"
  shows "rows_related soft (wdb w) (wdb w1) \<and> map fst raws = accs \<and> (\<forall>r \<in> set (results_of raws). \<exists>a \<in> set accs. fair_result a r)"
  using assms(2,3)
proof (induction accs arbitrary: w raws)
  case Nil
  then show ?case by (auto simp: results_of_def rows_related_def map_filter_simps option.rel_refl)
next
  case (Cons a accs)
  obtain r v where s: "sync_one_account E now a w = (r, v)" by (cases "sync_one_account E now a w")
  obtain rs where g: "gather_all E now accs v = (rs, w1)" and raws: "raws = (a, r) # rs"
    using Cons.prems(1) s by (auto split: prod.splits)
  have "rframe soft (wdb w) w" using Cons.prems(2) by (simp add: rframe_def rows_related_refl)
  then have f: "rows_related soft (wdb w) (wdb v)" using keepsD [OF frame_sync_one [OF assms(1)]] s unfolding rframe_def by (metis snd_conv)
  then have ok: "accounts_ok (wdb v)" by (simp add: rows_related_def)
  note IH = Cons.IH [OF g ok]
  have "rows_related soft (wdb w) (wdb w1)"
    using rows_related_trans [where R = soft and S = soft and T = soft, OF soft_trans f] IH by simp
  moreover have "fair_result a x" if "r = Inr x" for x using yieldsD [OF fair_sync_one] s that by blast
  ultimately show ?case using IH raws by (auto simp: results_of_def map_filter_simps split: sum.splits)
qed

lemma record_transient_returns: "accounts_ok (wdb w) \<Longrightarrow> fst (record_transient s now i err w) = Inr ()"
  using acc.upd_ok [OF _ harmless_error]
  by (auto simp: record_transient_def bindM_app on_db_def transaction_def mark_transient_error_def split: prod.splits sum.splits)
    (metis Inl_Inr_False fst_conv enqueue_returns)+

lemma collect_run:
  assumes "accounts_ok (wdb w)"
  shows "\<exists>n v. collect s now raws w = (Inr (results_of raws, n), v) \<and> rows_related same_sync (wdb w) (wdb v)"
  using assms
proof (induction s now raws arbitrary: w rule: collect.induct)
  case (1 s now)
  then show ?case by (simp add: results_of_def map_filter_simps rows_related_refl)
next
  case (2 s now a r rs)
  from 2(1) [OF 2(2)] show ?case by (auto simp: bindM_app results_of_def map_filter_simps)
next
  case (3 s now a e rs)
  let ?m = "record_transient s now (acc_id a) (crash_text e)"
  have "fst (suppress_all ?m w) = Inr ()" by (rule suppress_all_Inr) (use record_transient_returns [OF 3(2)] in simp)
  then obtain v where v: "suppress_all ?m w = (Inr (), v)" by (metis prod.collapse)
  have "rframe same_sync (wdb w) w" using 3(2) by (simp add: rframe_def rows_related_refl)
  then have f: "rows_related same_sync (wdb w) (wdb v)"
    using keepsD [OF keeps_suppress_all [OF frame_record_transient]] v unfolding rframe_def by (metis snd_conv)
  then have "accounts_ok (wdb v)" by (simp add: rows_related_def)
  from 3(1) [OF this] obtain n v' where c: "collect s now rs v = (Inr (results_of rs, n), v')" "rows_related same_sync (wdb v) (wdb v')" by blast
  then have "rows_related same_sync (wdb w) (wdb v')"
    using rows_related_trans [where R = same_sync and S = same_sync and T = same_sync, OF same_sync_trans f] by simp
  then show ?case using v c by (auto simp: bindM_app results_of_def map_filter_simps)
qed

section \<open>The second phase\<close>

text \<open>\<open>charged ids a b\<close>: row \<open>b\<close> is row \<open>a\<close> after the failures of the mailboxes \<open>ids\<close> were applied.\<close>

definition charged :: "int list \<Rightarrow> account \<Rightarrow> account \<Rightarrow> bool" where
  "charged ids a b \<longleftrightarrow> acc_id b = acc_id a \<and>
     (is_active b \<longleftrightarrow> is_active a \<and> (acc_id a \<notin> set ids \<or> disabled_alert_sent_at a \<noteq> None)) \<and>
     (disabled_alert_sent_at b = None \<longleftrightarrow> disabled_alert_sent_at a = None \<and> acc_id a \<notin> set ids) \<and>
     consecutive_failures b = consecutive_failures a + int (count_list ids (acc_id a))"

lemma charged_Nil [simp]: "charged [] a a"
  by (simp add: charged_def)

lemma charged_append: "charged xs a b \<Longrightarrow> charged ys b c \<Longrightarrow> charged (xs @ ys) a c"
  by (auto simp: charged_def)

lemma harmless_failure: "harmless (\<lambda>a. a\<lparr>consecutive_failures := consecutive_failures a + 1, last_sync_error := e,
    updated_at := now\<rparr>)"
  and harmless_disable: "harmless (\<lambda>a. a\<lparr>is_active := False, disabled_alert_sent_at := t, updated_at := now\<rparr>)"
  by (simp_all add: harmless_def account_checks_def)

lemma enqueue_run: "\<exists>v. enqueue_crm_status_best_effort s i w = (Inr (), v) \<and> wdb v = wdb w"
  by (rule exI [of _ "snd (enqueue_crm_status_best_effort s i w)"]) (simp add: prod_eq_iff)

lemma record_failure_run:
  assumes "accounts_ok (wdb w)"
  shows "\<exists>n v. record_failure s now i err False w = (Inr n, v) \<and> accounts_ok (wdb v) \<and>
    (\<forall>j. get_by_id j (wdb v) = map_option (\<lambda>a. if acc_id a = i then a\<lparr>consecutive_failures := consecutive_failures a + 1,
       last_sync_error := Some (take 500 err), updated_at := now\<rparr> else a) (get_by_id j (wdb w)))"
proof -
  let ?f = "\<lambda>a. a\<lparr>consecutive_failures := consecutive_failures a + 1, last_sync_error := Some (take 500 err),
        updated_at := now\<rparr>"
  let ?d = "(wdb w)\<lparr>accounts := update_where (\<lambda>a. acc_id a = i) ?f (accounts (wdb w))\<rparr>"
  obtain n where "mark_sync_failure now i err False (wdb w) = (Inr n, ?d)"
    unfolding mark_sync_failure_def update_row_def
    by (simp add: bindM_app write_harmless [OF harmless_failure assms])
  moreover obtain v where "enqueue_crm_status_best_effort s i (w\<lparr>wdb := ?d\<rparr>) = (Inr (), v)" "wdb v = ?d" using enqueue_run by force
  ultimately have "record_failure s now i err False w = (Inr n, v)" "wdb v = ?d"
    by (simp_all add: record_failure_def bindM_app on_db_def transaction_def)
  then show ?thesis
    using get_by_id_write [OF harmless_failure assms]
      harmless_accounts_ok [OF harmless_failure assms] by simp
qed

lemma disable_run:
  assumes "accounts_ok (wdb w)"
  shows "\<exists>v. disable_after_failures s now i w = (Inr (), v) \<and> accounts_ok (wdb v) \<and>
    (\<forall>j. get_by_id j (wdb v) = map_option (\<lambda>a. if acc_id a = i \<and> disabled_alert_sent_at a = None
       then a\<lparr>is_active := False, disabled_alert_sent_at := Some now, updated_at := now\<rparr> else a) (get_by_id j (wdb w)))"
proof -
  let ?P = "\<lambda>a. acc_id a = i \<and> disabled_alert_sent_at a = None"
  let ?f = "\<lambda>a. a\<lparr>is_active := False, disabled_alert_sent_at := Some now, updated_at := now\<rparr>"
  let ?d = "(wdb w)\<lparr>accounts := update_where ?P ?f (accounts (wdb w))\<rparr>"
  obtain b where "disable_and_stamp_alert now i (wdb w) = (Inr b, ?d)"
    unfolding disable_and_stamp_alert_def
    by (simp add: Let_def bindM_app write_harmless [OF harmless_disable assms])
  moreover obtain v where "enqueue_crm_status_best_effort s i (w\<lparr>wdb := ?d\<rparr>) = (Inr (), v)" "wdb v = ?d" using enqueue_run by force
  ultimately have "disable_after_failures s now i w = (Inr (), v)" "wdb v = ?d"
    by (simp_all add: disable_after_failures_def bindM_app on_db_def transaction_def)
  then show ?thesis
    using get_by_id_write [OF harmless_disable assms] harmless_accounts_ok [OF harmless_disable assms] by simp
qed

lemma apply_permanent_run:
  assumes "accounts_ok (wdb w)" and "ar_explicit r"
  shows "\<exists>v. apply_permanent s now r w = (Inr (), v) \<and> rows_related (charged [ar_account_id r]) (wdb w) (wdb v)"
proof -
  define err where "err = (case ar_error r of None \<Rightarrow> u ''error'' | Some t \<Rightarrow> if t = [] then u ''error'' else t)"
  obtain n v where f: "record_failure s now (ar_account_id r) err False w = (Inr n, v)" "accounts_ok (wdb v)"
    "\<forall>j. get_by_id j (wdb v) = map_option (\<lambda>a. if acc_id a = ar_account_id r then a\<lparr>consecutive_failures := consecutive_failures a + 1,
       last_sync_error := Some (take 500 err), updated_at := now\<rparr> else a) (get_by_id j (wdb w))"
    using record_failure_run [OF assms(1), of s now "ar_account_id r" err] by blast
  obtain v' where d: "disable_after_failures s now (ar_account_id r) v = (Inr (), v')" "accounts_ok (wdb v')"
    "\<forall>j. get_by_id j (wdb v') = map_option (\<lambda>a. if acc_id a = ar_account_id r \<and> disabled_alert_sent_at a = None
       then a\<lparr>is_active := False, disabled_alert_sent_at := Some now, updated_at := now\<rparr> else a) (get_by_id j (wdb v))"
    using disable_run [OF f(2), of s now "ar_account_id r"] by blast
  have "apply_permanent s now r w = (Inr (), v')" using f(1) d(1) assms(2) by (simp add: apply_permanent_def bindM_app err_def)
  moreover have "rows_related (charged [ar_account_id r]) (wdb w) (wdb v')"
    unfolding rows_related_def using d(2,3) f(3)
    by (auto simp: option.rel_map charged_def intro!: option.rel_refl)
  ultimately show ?thesis by blast
qed

lemma apply_all_run:
  assumes "accounts_ok (wdb w)" and "\<forall>r \<in> set rs. ar_explicit r"
  shows "\<exists>v. for_each (apply_permanent s now) rs w = (Inr (), v) \<and> rows_related (charged (map ar_account_id rs)) (wdb w) (wdb v)"
  using assms
proof (induction rs arbitrary: w)
  case Nil
  then show ?case by (simp add: rows_related_refl)
next
  case (Cons r rs)
  obtain v where v: "apply_permanent s now r w = (Inr (), v)" "rows_related (charged [ar_account_id r]) (wdb w) (wdb v)"
    using apply_permanent_run [of w r s now] Cons.prems by auto
  obtain v' where v': "for_each (apply_permanent s now) rs v = (Inr (), v')" "rows_related (charged (map ar_account_id rs)) (wdb v) (wdb v')"
    using Cons.IH [of v] v(2) Cons.prems(2) by (auto simp: rows_related_def [of "charged [ar_account_id r]"])
  have "rows_related (charged (map ar_account_id (r # rs))) (wdb w) (wdb v')"
    using rows_related_trans [where R = "charged [ar_account_id r]" and S = "charged (map ar_account_id rs)", OF _ v(2) v'(2)]
      charged_append [of "[ar_account_id r]"] by simp
  then show ?case using v(1) v'(1) by (auto simp: bindM_app)
qed

text \<open>
  C9. The cycle disables exactly the permanently failing mailboxes, and none when the breaker trips. For any connection
  behaviour of every mailbox, the run returns (a mailbox whose sync crashes does not abort the others); a mailbox that was
  active before is disabled afterwards if and only if its own sync ended permanent and the circuit breaker did not trip
  on the results of the cycle; and every other mailbox keeps its failure counter or has it reset to zero.
\<close>

theorem cycle_disables_exactly_permanent:
  assumes ok: "accounts_ok (wdb w)" and quiet: "quiet_peers E" and ne: "accs \<noteq> []"
    and run: "gather_all E now accs w = (raws, w1)"
  shows "\<exists>stats w'. run_for_accounts E now accs w = (Inr stats, w') \<and>
    (\<forall>j a. get_by_id j (wdb w) = Some a \<and> is_active a \<and> disabled_alert_sent_at a = None \<longrightarrow>
      (\<exists>b. get_by_id j (wdb w') = Some b \<and>
        (\<not> is_active b \<longleftrightarrow> \<not> breaker_tripped (se_settings E) (results_of raws) \<and> j \<in> set (permanent_ids (results_of raws))) \<and>
        (is_active b \<longrightarrow> consecutive_failures b \<in> {consecutive_failures a, 0})))"
proof -
  let ?s = "se_settings E" and ?rs = "results_of raws"
  let ?perm = "filter (\<lambda>r. ar_outcome r = SyncPermanent) ?rs"
  have g: "rows_related soft (wdb w) (wdb w1)" "\<forall>r \<in> set ?rs. \<exists>a \<in> set accs. fair_result a r"
    using gather_all_run [OF quiet run ok] by auto
  then have ok1: "accounts_ok (wdb w1)" by (simp add: rows_related_def)
  obtain n v where c: "collect ?s now raws w1 = (Inr (?rs, n), v)" "rows_related same_sync (wdb w1) (wdb v)"
    using collect_run [OF ok1] by blast
  then have okv: "accounts_ok (wdb v)" by (simp add: rows_related_def)
  have soft: "rows_related soft (wdb w) (wdb v)"
    using rows_related_trans [where R = soft and S = same_sync and T = soft, OF _ g(1) c(2)] same_sync_soft soft_trans by blast
  define ids where "ids = (if breaker_tripped ?s ?rs then [] else permanent_ids ?rs)"
  have ex: "\<forall>r \<in> set ?perm. ar_explicit r" using g(2) by (auto simp: fair_result_def)
  obtain v' where v': "(if breaker_tripped ?s ?rs then ret () else for_each (apply_permanent ?s now) ?perm) v = (Inr (), v')"
    "rows_related (charged ids) (wdb v) (wdb v')"
  proof (cases "breaker_tripped ?s ?rs")
    case True
    then show ?thesis using that [of v] okv by (simp add: ids_def rows_related_refl)
  next
    case False
    then show ?thesis using that apply_all_run [OF okv ex, of ?s now] by (auto simp: ids_def permanent_ids_def)
  qed
  obtain stats where "run_for_accounts E now accs w = (Inr stats, v')"
    using ne run c(1) v'(1) by (simp add: run_for_accounts_def bindM_app Let_def)
  moreover have "\<exists>b. get_by_id j (wdb v') = Some b \<and>
      (\<not> is_active b \<longleftrightarrow> \<not> breaker_tripped ?s ?rs \<and> j \<in> set (permanent_ids ?rs)) \<and> (is_active b \<longrightarrow> consecutive_failures b \<in> {consecutive_failures a, 0})"
    if "get_by_id j (wdb w) = Some a" "is_active a" "disabled_alert_sent_at a = None" for j a
  proof -
    note row = that
    obtain x where x: "get_by_id j (wdb v) = Some x" "soft a x" using rows_related_row [OF soft row(1)] by blast
    obtain b where b: "get_by_id j (wdb v') = Some b" "charged ids x b" using rows_related_row [OF v'(2) x(1)] by blast
    have "acc_id x = j" using x(1) by (auto simp: get_by_id_def dest: find_key)
    moreover have "j \<in> set ids \<longleftrightarrow> \<not> breaker_tripped ?s ?rs \<and> j \<in> set (permanent_ids ?rs)" by (simp add: ids_def)
    ultimately show ?thesis using row x(2) b by (auto simp: soft_def charged_def count_list_0_iff)
  qed
  ultimately show ?thesis by blast
qed

section \<open>Storing what was fetched\<close>

lemma row_of_key [simp]: "msg_key (row_of i uv m) = (i, uv, fm_uid m)"
  by (simp add: msg_key_def row_of_def)

lemma save_messages_run:
  assumes "save_messages now i uv ms d = (Inr (ids, c), d')"
  shows "\<exists>new. msgs d' = msgs d @ new \<and> map msg_id new = ids \<and> length ids + c = length ms \<and>
    (\<forall>x \<in> set new. pushed_at x = None \<and> fetched_at x = now) \<and>
    (\<forall>m \<in> set ms. (i, uv, fm_uid m) \<in> msg_key ` set (msgs d'))"
  using assms
proof (induction ms arbitrary: d ids c)
  case Nil
  then show ?case by simp
next
  case (Cons m ms)
  obtain r d1 ids1 c1 where ins: "insert_message_idempotent now (row_of i uv m) d = (Inr r, d1)"
    and rest: "save_messages now i uv ms d1 = (Inr (ids1, c1), d')"
    and out: "(case r of None \<Rightarrow> (ids1, c1 + 1) | Some k \<Rightarrow> (k # ids1, c1)) = (ids, c)"
    using Cons.prems by (auto simp: bindM_app split: prod.splits sum.splits option.splits)
  obtain new where new: "msgs d' = msgs d1 @ new" "map msg_id new = ids1" "length ids1 + c1 = length ms"
    "\<forall>x \<in> set new. pushed_at x = None \<and> fetched_at x = now"
    "\<forall>m \<in> set ms. (i, uv, fm_uid m) \<in> msg_key ` set (msgs d')"
    using Cons.IH [OF rest] by blast
  from ins show ?case
  proof (cases rule: insert_cases)
    case conflict
    then have "(i, uv, fm_uid m) \<in> msg_key ` set (msgs d')" using new(1) by auto
    with conflict new out show ?thesis by auto
  next
    case stored
    define row where "row = (row_of i uv m)\<lparr>msg_id := msg_seq d, fetched_at := now, pushed_at := None, msg_is_read := False\<rparr>"
    have "msgs d' = msgs d @ (row # new)" using stored(2) new(1) by (simp add: row_def)
    moreover have "msg_key row = (i, uv, fm_uid m)" "msg_id row = msg_seq d" "pushed_at row = None" "fetched_at row = now"
      by (simp_all add: row_def)
    ultimately show ?thesis using stored(1) new out by (intro exI [of _ "row # new"]) auto
  qed simp_all
qed

lemma save_messages_db_ok: "keeps db_ok (save_messages now i uv ms)"
proof (induction ms)
  case (Cons m ms)
  have "keeps db_ok (insert_message_idempotent now (row_of i uv m))"
    by (rule keepsI) (metis insert_keeps_db_ok prod.collapse)
  then show ?case using Cons by (auto intro!: keeps_bindM split: option.splits)
qed (simp add: keeps_def)

lemma mark_success_run:
  assumes "accounts_ok d"
  shows "mark_sync_success now i x v d = (Inr (), d\<lparr>accounts := update_where (\<lambda>a. acc_id a = i) (\<lambda>a. a\<lparr>last_synced_uidnext := x,
     last_uidvalidity := v, last_synced_at := Some now, last_sync_error := None, consecutive_failures := 0, updated_at := now\<rparr>) (accounts d)\<rparr>)"
  unfolding mark_sync_success_def update_row_def by (rule write_harmless [OF harmless_success assms])

lemma mark_success_facts:
  assumes "mark_sync_success now i x v d = (Inr (), d2)" and "accounts_ok d"
  shows "msgs d2 = msgs d" and "users d2 = users d" and "accounts_ok d2"
    and "get_by_id j d2 = map_option (\<lambda>a. if acc_id a = i then a\<lparr>last_synced_uidnext := x, last_uidvalidity := v,
     last_synced_at := Some now, last_sync_error := None, consecutive_failures := 0, updated_at := now\<rparr> else a) (get_by_id j d)"
proof -
  have d2: "d2 = d\<lparr>accounts := update_where (\<lambda>a. acc_id a = i) (\<lambda>a. a\<lparr>last_synced_uidnext := x,
     last_uidvalidity := v, last_synced_at := Some now, last_sync_error := None, consecutive_failures := 0, updated_at := now\<rparr>) (accounts d)\<rparr>"
    using assms(1) mark_success_run [OF assms(2), of now i x v] by simp
  show "msgs d2 = msgs d" "users d2 = users d" by (simp_all add: d2)
  show "accounts_ok d2" unfolding d2 by (rule harmless_accounts_ok [OF harmless_success assms(2)])
  show "get_by_id j d2 = map_option (\<lambda>a. if acc_id a = i then a\<lparr>last_synced_uidnext := x, last_uidvalidity := v,
     last_synced_at := Some now, last_sync_error := None, consecutive_failures := 0, updated_at := now\<rparr> else a) (get_by_id j d)"
    unfolding d2 by (rule get_by_id_write [OF harmless_success assms(2)])
qed

text \<open>Storing a box either fails and leaves every row as it was, or stores all its messages and moves the cursor.\<close>

lemma store_box_cases:
  assumes "store_box E now a box w = (r, w1)" and ok: "accounts_ok (wdb w)"
  obtains (failed) e d1 where "r = Inl e" "w1 = w\<lparr>wdb := rollback (wdb w) d1\<rparr>"
      "save_messages now (acc_id a) (fb_uidvalidity box) (fb_new box) (wdb w) = (Inl e, d1)"
    | (stored) ids c d1 d2 w3 where "save_messages now (acc_id a) (fb_uidvalidity box) (fb_new box) (wdb w) = (Inr (ids, c), d1)"
      "accounts_ok d1" "mark_sync_success now (acc_id a) (fb_uidnext box) (Some (fb_uidvalidity box)) d1 = (Inr (), d2)"
      "enqueue_crm_status_best_effort (se_settings E) (acc_id a) (w\<lparr>wdb := d2\<rparr>) = (Inr (), w3)" "wdb w1 = d2"
      "w1 = snd (enqueue_new (se_settings E) ids w3)" "r = Inr (result_of a (length ids) c SyncOk)"
proof -
  obtain q d1 where s: "save_messages now (acc_id a) (fb_uidvalidity box) (fb_new box) (wdb w) = (q, d1)"
    by (cases "save_messages now (acc_id a) (fb_uidvalidity box) (fb_new box) (wdb w)")
  show ?thesis
  proof (cases q)
    case (Inl e)
    then have "r = Inl e" "w1 = w\<lparr>wdb := rollback (wdb w) d1\<rparr>"
      using assms(1) s by (auto simp: store_box_def bindM_app on_db_def transaction_def)
    then show ?thesis using failed [of e d1] s Inl by simp
  next
    case (Inr p)
    obtain ids c where p: "p = (ids, c)" by (cases p)
    have "accounts d1 = accounts (wdb w)" "users d1 = users (wdb w)"
      using save_messages_accounts [of now "acc_id a" "fb_uidvalidity box" "fb_new box" "wdb w"] s by simp_all
    then have ok1: "accounts_ok d1" using ok by (simp add: accounts_ok_def)
    obtain d2 where m: "mark_sync_success now (acc_id a) (fb_uidnext box) (Some (fb_uidvalidity box)) d1 = (Inr (), d2)"
      using mark_success_run [OF ok1] by blast
    obtain w3 where e: "enqueue_crm_status_best_effort (se_settings E) (acc_id a) (w\<lparr>wdb := d2\<rparr>) = (Inr (), w3)" "wdb w3 = d2"
      using enqueue_run by force
    obtain w4 where n: "enqueue_new (se_settings E) ids w3 = (Inr (), w4)"
    proof -
      have "fst (enqueue_new (se_settings E) ids w3) = Inr ()"
        unfolding enqueue_new_def by (auto intro!: suppress_all_Inr simp: enqueue_push_ids_def bindM_app redis_def Let_def split: if_splits)
      then show ?thesis using that by (metis prod.collapse)
    qed
    have "wdb w4 = d2" using enqueue_new_wdb [of "se_settings E" ids w3] n e(2) by simp
    moreover have "r = Inr (result_of a (length ids) c SyncOk)" "w1 = w4"
      using assms(1) s Inr p m e n by (auto simp: store_box_def bindM_app on_db_def transaction_def)
    ultimately show ?thesis using stored [of ids c d1 d2 w3] s Inr p ok1 m e n by simp
  qed
qed


lemma enqueue_status_frame [simp]:
  "push_q (snd (enqueue_crm_status_best_effort s i w)) = push_q w" "rds_up (snd (enqueue_crm_status_best_effort s i w)) = rds_up w"
  by (simp_all add: enqueue_crm_status_best_effort_def suppress_all_snd enqueue_crm_status_def redis_def Let_def)

lemma enqueue_new_queued:
  assumes "\<forall>k. rds_up w k" and "crm_push_enabled s"
  shows "mset (queued_ids (push_q (snd (enqueue_new s ids w)))) = mset ids + mset (queued_ids (push_q w))"
  using assms by (simp add: enqueue_new_def suppress_all_snd enqueue_push_ids_def bindM_app redis_def Let_def lpush_def)


section \<open>Two ways a mailbox stays broken\<close>

lemma save_unstorable:
  assumes "m \<in> set ms" and "\<not> message_storable (row_of i uv m)"
  shows "\<exists>e. fst (save_messages now i uv ms d) = Inl e"
  using assms(1)
proof (induction ms arbitrary: d)
  case (Cons x xs)
  show ?case
  proof (cases "m = x")
    case True
    then show ?thesis using assms(2) by (simp add: bindM_app insert_message_idempotent_def)
  next
    case False
    then have "\<exists>e. fst (save_messages now i uv xs d1) = Inl e" for d1 using Cons by simp
    then show ?thesis by (auto simp: bindM_app split: prod.splits sum.splits) (metis Inl_Inr_False fst_conv)
  qed
qed simp

text \<open>
  One message PostgreSQL cannot store (a NUL character in a header or body) blocks its mailbox: the sync raises, every
  row of \<open>messages\<close> and \<open>mail_accounts\<close> is as before it (the storable messages of the same fetch are rolled back, the cursor
  does not move), so the next sync fetches the same message again.
\<close>

theorem nul_message_blocks_mailbox:
  assumes "resolve_credentials E now a w = (Inr (Creds pw tok), v)"
    and "assert_public_host (se_settings E) (se_resolver E) (imap_host a) (imap_port a) = Inr ()"
    and "fetch_box E now a pw tok = Inr box" and "m \<in> set (fb_new box)"
    and "\<not> message_storable (row_of (acc_id a) (fb_uidvalidity box) m)"
  shows "\<exists>e w1. sync_one_account E now a w = (Inl e, w1) \<and> accounts (wdb w1) = accounts (wdb v) \<and> msgs (wdb w1) = msgs (wdb v)"
proof -
  obtain e where "fst (save_messages now (acc_id a) (fb_uidvalidity box) (fb_new box) (wdb v)) = Inl e"
    using save_unstorable [OF assms(4,5)] by blast
  then obtain d1 where "save_messages now (acc_id a) (fb_uidvalidity box) (fb_new box) (wdb v) = (Inl e, d1)" by (metis prod.collapse)
  then show ?thesis
    using assms(1-3) by (simp add: sync_one_account_def store_box_def bindM_app on_db_def transaction_def)
qed

text \<open>
  A token endpoint failure is displayed under the wrong prefix: the text written for the \<open>OAuthError\<close> of a failed token
  call begins with \<open>error: oauth_token_error\<close>, because the classifier reads the exception (whose text lacks the marker
  \<open>oauth_token_error\<close> of rule 7) and not the detail that carries it; a throttled or failing token service is transient by
  the fail-open rule only. On the detail itself rule 7 answers \<open>oauth_token_error\<close>.
\<close>

theorem oauth_failure_misses_rule_7:
  "error_text s a (oauth_error ''oauth_exchange_failed'' (Some (u ''Token endpoint returned an error'')))
     (u ''oauth_token_error: oauth_exchange_failed'') = u ''error: oauth_token_error: oauth_exchange_failed'' \<and>
   error_prefix (TextArg (u ''oauth_token_error: oauth_exchange_failed 503'')) (Some ''oauth_outlook'') = ''oauth_token_error''"
proof -
  let ?e = "oauth_error ''oauth_exchange_failed'' (Some (u ''Token endpoint returned an error''))"
  have none: "error_prefix (ExcArg ?e) None = ''error''" by code_simp
  have flake: "\<not> has_any (fst (normalise (ExcArg ?e))) OAUTH_IMAP_AUTH_FLAKE_SUBSTRINGS" by code_simp
  have "error_prefix (ExcArg ?e) (classifier_auth_type s a) = error_prefix (ExcArg ?e) None"
    using flake by (simp add: error_prefix_def is_oauth_imap_auth_flake_def Let_def del: u_simps)
  moreover have "take 200 (one_line (u ''oauth_token_error: oauth_exchange_failed'')) = u ''oauth_token_error: oauth_exchange_failed''"
    by code_simp
  moreover have "u ''error'' @ u '': '' @ u ''oauth_token_error: oauth_exchange_failed'' = u ''error: oauth_token_error: oauth_exchange_failed''"
    by simp
  moreover have "error_prefix (TextArg (u ''oauth_token_error: oauth_exchange_failed 503'')) (Some ''oauth_outlook'') = ''oauth_token_error''"
    by code_simp
  ultimately show ?thesis unfolding error_text_def none by metis
qed

section \<open>Concrete runs\<close>

definition plain_aead :: aead where
  \<comment> \<open>an executable stand-in: no secrecy, but decryption inverts encryption\<close>
  "plain_aead = \<lparr>aes_enc = (\<lambda>k iv p ad. p @ replicate 16 0), aes_dec = (\<lambda>k iv c ad. Some (take (length c - 16) c))\<rparr>"

definition dev_settings :: settings where
  "dev_settings = push_settings\<lparr>APP_ENV := Dev, MAX_BODY_BYTES := 64\<rparr>"

definition mail_row :: "int \<Rightarrow> account" where
  "mail_row i = blank_account\<lparr>acc_id := i, acc_user_id := 1, email := u ''a'' @ str_of_int i, imap_host := u ''h'',
     encrypted_password := Some (1 # replicate 12 0 @ u ''pw'' @ replicate 16 0)\<rparr>"

definition toy_sync :: "(account \<Rightarrow> pyexc option) \<Rightarrow> imap_box \<Rightarrow> sync_env" where
  "toy_sync login box = \<lparr>se_settings = dev_settings, se_cipher = toy_cipher, se_oauth = (\<lambda>_. toy_env\<lparr>oe_aead := plain_aead\<rparr>),
     se_conv = plain_cv, se_resolver = (\<lambda>_. Inr []), se_conn = (\<lambda>a. \<lparr>opens = (\<lambda>_. None), logins = (\<lambda>_. login a)\<rparr>),
     se_box = (\<lambda>_. box), se_stall = (\<lambda>_. False), se_lock_token = (\<lambda>_. u ''t''), se_peers = (\<lambda>_. [])\<rparr>"

definition mail_world :: "int list \<Rightarrow> world" where
  "mail_world is = idle_world (sample_db\<lparr>accounts := map mail_row is, acc_seq := 100\<rparr>)"

definition bad_login :: "account \<Rightarrow> pyexc option" where
  \<comment> \<open>mailbox 2 has a wrong password\<close>
  "bad_login a = (if acc_id a = 2 then Some (mk_exc EMailboxLoginError (u ''authenticationfailed'')) else None)"

lemma quiet_toy [simp]: "quiet_peers (toy_sync l b)"
  by (simp add: quiet_peers_def toy_sync_def)

lemma mail_world_ok: "accounts_ok (wdb (mail_world [1, 2]))" "accounts_ok (wdb (mail_world [1]))"
  by code_simp+

theorem cycle_disables_exactly_permanent_witness:
  "\<exists>stats w' x y. run_for_accounts (toy_sync bad_login (toy_box 9 3 [raw 1, raw 2])) 7 [mail_row 1, mail_row 2] (mail_world [1, 2])
      = (Inr stats, w') \<and> get_by_id 1 (wdb w') = Some x \<and> is_active x \<and> get_by_id 2 (wdb w') = Some y \<and> \<not> is_active y"
proof -
  let ?E = "toy_sync bad_login (toy_box 9 3 [raw 1, raw 2])" and ?w = "mail_world [1, 2]"
  let ?g = "gather_all ?E 7 [mail_row 1, mail_row 2] ?w"
  obtain raws w1 where g: "?g = (raws, w1)" by (rule prod.exhaust)
  have "permanent_ids (results_of (fst ?g)) = [2]" by code_simp
  then have p: "permanent_ids (results_of raws) = [2]" unfolding g fst_conv .
  have "\<not> breaker_tripped (se_settings ?E) (results_of (fst ?g))" by code_simp
  then have b: "\<not> breaker_tripped (se_settings ?E) (results_of raws)" unfolding g fst_conv .
  have rows: "get_by_id 1 (wdb ?w) = Some (mail_row 1)" "get_by_id 2 (wdb ?w) = Some (mail_row 2)"
    "is_active (mail_row i)" "disabled_alert_sent_at (mail_row i) = None" for i
    by (simp_all add: mail_world_def idle_world_def get_by_id_def mail_row_def blank_account_def)
  from cycle_disables_exactly_permanent [OF mail_world_ok(1) quiet_toy _ g]
  obtain stats w' where r: "run_for_accounts ?E 7 [mail_row 1, mail_row 2] ?w = (Inr stats, w')"
    and all: "\<forall>j a. get_by_id j (wdb ?w) = Some a \<and> is_active a \<and> disabled_alert_sent_at a = None \<longrightarrow>
      (\<exists>b. get_by_id j (wdb w') = Some b \<and>
        (\<not> is_active b \<longleftrightarrow> \<not> breaker_tripped (se_settings ?E) (results_of raws) \<and> j \<in> set (permanent_ids (results_of raws))) \<and>
        (is_active b \<longrightarrow> consecutive_failures b \<in> {consecutive_failures a, 0}))"
    by blast
  obtain x where x: "get_by_id 1 (wdb w') = Some x" "is_active x"
    using all [rule_format, of 1 "mail_row 1"] rows unfolding p by auto
  obtain y where "get_by_id 2 (wdb w') = Some y" "\<not> is_active y"
    using all [rule_format, of 2 "mail_row 2"] rows b unfolding p by auto
  with r x show ?thesis by blast
qed



theorem nul_message_blocks_mailbox_witness:
  "\<exists>e w1. sync_one_account (toy_sync (\<lambda>_. None) (toy_box 9 3 [raw 1, (raw 2)\<lparr>rm_subject := [0]\<rparr>])) 7 (mail_row 1) (mail_world [1]) = (Inl e, w1) \<and>
     msgs (wdb w1) = []"
proof -
  let ?E = "toy_sync (\<lambda>_. None) (toy_box 9 3 [raw 1, (raw 2)\<lparr>rm_subject := [0]\<rparr>])"
  let ?a = "mail_row 1" and ?w = "mail_world [1]"
  have "case stored_password ?E ?a of Inr p \<Rightarrow> p = u ''pw'' | _ \<Rightarrow> False" by code_simp
  then have "stored_password ?E ?a = Inr (u ''pw'')" by (auto split: sum.splits)
  moreover have "auth_type ?a = ''password''" by (simp add: mail_row_def blank_account_def)
  ultimately have c: "resolve_credentials ?E 7 ?a ?w = (Inr (Creds (Some (u ''pw'')) None), ?w)"
    by (simp add: resolve_credentials_def del: u_simps)
  have h: "assert_public_host (se_settings ?E) (se_resolver ?E) (imap_host ?a) (imap_port ?a) = Inr ()" by code_simp
  have "case fetch_box ?E 7 ?a (Some (u ''pw'')) None of Inr b \<Rightarrow> list_ex (\<lambda>m. \<not> message_storable (row_of (acc_id ?a) (fb_uidvalidity b) m)) (fb_new b)
     | Inl _ \<Rightarrow> False" by code_simp
  then obtain box m where f: "fetch_box ?E 7 ?a (Some (u ''pw'')) None = Inr box" "m \<in> set (fb_new box)"
    "\<not> message_storable (row_of (acc_id ?a) (fb_uidvalidity box) m)" by (auto simp: list_ex_iff split: sum.splits)
  have "msgs (wdb ?w) = []" by (simp add: mail_world_def idle_world_def sample_db_def)
  moreover obtain e w1 where "sync_one_account ?E 7 ?a ?w = (Inl e, w1)" "msgs (wdb w1) = msgs (wdb ?w)"
    using nul_message_blocks_mailbox [OF c h f] by blast
  ultimately show ?thesis by (intro exI [of _ e] exI [of _ w1]) (simp only:)
qed

end
