(* ===== verification/Send.thy ===== *)
theory Send
  imports Account_Service Sync_Cycle
begin

text \<open>
  Sending mail: \<open>backend/app/send/schemas.py\<close>, \<open>send/mime.py\<close>, \<open>send/service.py\<close> and the request body
  \<open>ExternalSendRequest\<close> of \<open>external/schemas.py\<close>. A MIME message is its header list and its text body; the stdlib
  \<open>EmailMessage\<close> refuses a header whose \<open>splitlines()\<close> has more than one line. SMTP and IMAP servers are parameters; the
  state is the \<open>world\<close> with the deliveries the SMTP servers accepted and the copies appended to Sent folders.
\<close>

section \<open>Addresses and header values\<close>

definition email_re :: "pystr \<Rightarrow> bool" where
  \<comment> \<open>\<open>_EMAIL_RE\<close>: one at sign, no white space, a dot strictly inside the domain\<close>
  "email_re a = (case split_once 64 a of None \<Rightarrow> False
     | Some (local, domain) \<Rightarrow> local \<noteq> [] \<and> 64 \<notin> set domain \<and> \<not> list_ex is_space a \<and> 46 \<in> set (butlast (tl domain)))"

fun validate_addresses :: "pystr list \<Rightarrow> pyexc + pystr list" where
  "validate_addresses [] = Inr []"
| "validate_addresses (v # vs) = (let a = py_strip v in
     if a = [] then validate_addresses vs
     else if \<not> email_re a then Inl pydantic_error
     else map_sum id (Cons a) (validate_addresses vs))"

definition is_wsp :: "int \<Rightarrow> bool" where
  "is_wsp c \<longleftrightarrow> c = 32 \<or> c = 9"

definition starts_wsp :: "pystr \<Rightarrow> bool" where
  "starts_wsp s = (case s of [] \<Rightarrow> False | c # _ \<Rightarrow> is_wsp c)"

definition after_break :: "int \<Rightarrow> pystr \<Rightarrow> pystr option" where
  \<comment> \<open>what follows a line break starting with this character\<close>
  "after_break c s = (if c = 13 then Some (case s of d # r \<Rightarrow> if d = 10 then r else s | [] \<Rightarrow> [])
     else if c = 10 then Some s else None)"

lemma after_break_length: "after_break c s = Some r \<Longrightarrow> length r \<le> length s"
  by (auto simp: after_break_def split: if_splits list.splits)

function unfold_fws :: "pystr \<Rightarrow> pystr" where
  \<comment> \<open>\<open>_FWS_RE.sub(BLANK, value)\<close>\<close>
  "unfold_fws [] = []"
| "unfold_fws (c # s) = (case after_break c s of
      Some r \<Rightarrow> if starts_wsp r then 32 # unfold_fws (dropWhile is_wsp r) else c # unfold_fws s
    | None \<Rightarrow> c # unfold_fws s)"
  by pat_completeness auto
termination
  by (relation "measure length") (auto dest!: after_break_length intro: le_less_trans [OF length_dropWhile_le])

definition control_char :: "int \<Rightarrow> bool" where
  "control_char c \<longleftrightarrow> c \<noteq> 9 \<and> (c < 32 \<or> 127 \<le> c \<and> c \<le> 159)"

definition clean_header :: "pystr option \<Rightarrow> pyexc + pystr option" where
  "clean_header v = (case v of None \<Rightarrow> Inr None
     | Some t \<Rightarrow> if list_ex control_char (unfold_fws t) then Inl pydantic_error else Inr (Some (unfold_fws t)))"

record send_request =
  sr_to :: "pystr list"
  sr_cc :: "pystr list option"
  sr_subject :: "pystr option"
  sr_body_text :: pystr
  sr_in_reply_to :: "pystr option"
  sr_refs :: "pystr option"

definition validate_opt_addresses :: "pystr list option \<Rightarrow> pyexc + pystr list option" where
  "validate_opt_addresses v = (case v of None \<Rightarrow> Inr None | Some l \<Rightarrow> map_sum id Some (validate_addresses l))"

definition send_lengths_ok :: "send_request \<Rightarrow> bool" where
  "send_lengths_ok r \<longleftrightarrow> length (sr_to r) \<le> 100 \<and> opt_ok (\<lambda>l. length l \<le> 100) (sr_cc r) \<and> opt_ok (len_in 0 998) (sr_subject r) \<and>
     length (sr_body_text r) \<le> 1048576 \<and> opt_ok (len_in 0 998) (sr_in_reply_to r) \<and> opt_ok (len_in 0 65536) (sr_refs r)"

definition cc_list :: "pystr list option \<Rightarrow> pystr list" where
  "cc_list v = (case v of None \<Rightarrow> [] | Some l \<Rightarrow> l)"

definition validate_send_request :: "send_request \<Rightarrow> pyexc + send_request" where
  "validate_send_request r = (if \<not> send_lengths_ok r then Inl pydantic_error
     else (case (validate_addresses (sr_to r), validate_opt_addresses (sr_cc r), clean_header (sr_subject r),
              clean_header (sr_in_reply_to r), clean_header (sr_refs r)) of
         (Inr to, Inr cc, Inr subj, Inr irt, Inr refs) \<Rightarrow>
           if py_strip (sr_body_text r) = [] then Inl pydantic_error
           else (let total = length to + length (cc_list cc) in
             if total = 0 \<or> 100 < total then Inl pydantic_error
             else Inr \<lparr>sr_to = to, sr_cc = cc, sr_subject = subj, sr_body_text = sr_body_text r, sr_in_reply_to = irt, sr_refs = refs\<rparr>)
       | _ \<Rightarrow> Inl pydantic_error))"

section \<open>The MIME message\<close>

record mime =
  mm_headers :: "(string \<times> pystr) list"
  mm_body :: pystr

definition is_line_break :: "int \<Rightarrow> bool" where
  \<comment> \<open>the boundaries of \<open>str.splitlines\<close>\<close>
  "is_line_break c \<longleftrightarrow> 10 \<le> c \<and> c \<le> 13 \<or> 28 \<le> c \<and> c \<le> 30 \<or> c = 133 \<or> c = 8232 \<or> c = 8233"

fun multi_line :: "pystr \<Rightarrow> bool" where
  \<comment> \<open>\<open>len(s.splitlines()) > 1\<close>: something follows a line break\<close>
  "multi_line [] = False"
| "multi_line (c # s) = (if is_line_break c
     then (case s of [] \<Rightarrow> False | d # r \<Rightarrow> if c = 13 \<and> d = 10 then r \<noteq> [] else True)
     else multi_line s)"

definition set_header :: "string \<Rightarrow> pystr \<Rightarrow> mime \<Rightarrow> pyexc + mime" where
  \<comment> \<open>\<open>msg[name] = value\<close>\<close>
  "set_header n v m = (if multi_line v
     then Inl (mk_exc EValueError (u ''Header values may not contain linefeed or carriage return characters''))
     else Inr (m\<lparr>mm_headers := mm_headers m @ [(n, v)]\<rparr>))"

fun set_headers :: "(string \<times> pystr) list \<Rightarrow> mime \<Rightarrow> pyexc + mime" where
  "set_headers [] m = Inr m"
| "set_headers ((n, v) # hs) m = (case set_header n v m of Inl e \<Rightarrow> Inl e | Inr m' \<Rightarrow> set_headers hs m')"

definition generate_message_id :: "pystr option \<Rightarrow> pystr \<Rightarrow> pystr" where
  \<comment> \<open>the host name of the base URL, and the random UUID\<close>
  "generate_message_id host uuid = u ''<'' @ uuid @ u ''@'' @ or_else host (u ''mail-aggregator.local'') @ u ''>''"

definition header_if :: "string \<Rightarrow> pystr option \<Rightarrow> (string \<times> pystr) list" where
  "header_if n v = (if given v then [(n, the v)] else [])"

definition mime_headers :: "pystr \<Rightarrow> send_request \<Rightarrow> pystr \<Rightarrow> (string \<times> pystr) list" where
  "mime_headers sender r mid = [(''From'', sender), (''To'', intersperse_concat (u '', '') (sr_to r))]
     @ (if cc_list (sr_cc r) \<noteq> [] then [(''Cc'', intersperse_concat (u '', '') (cc_list (sr_cc r)))] else [])
     @ header_if ''Subject'' (sr_subject r) @ [(''Message-ID'', mid)]
     @ header_if ''In-Reply-To'' (sr_in_reply_to r) @ header_if ''References'' (sr_refs r)"

definition build_mime :: "pystr \<Rightarrow> send_request \<Rightarrow> pystr \<Rightarrow> pyexc + mime" where
  "build_mime sender r mid = set_headers (mime_headers sender r mid) \<lparr>mm_headers = [], mm_body = sr_body_text r\<rparr>"

section \<open>The transport\<close>

record delivery =
  dl_account :: int
  dl_auth :: "pystr \<times> pystr" \<comment> \<open>SMTP user and password, or \<open>XOAUTH2\<close> and the SASL string\<close>
  dl_message :: mime
  dl_recipients :: "pystr list"

record mail_world =
  mw :: world
  wire :: "delivery list"
  copies :: "(int \<times> string) list" \<comment> \<open>account and folder of each appended copy\<close>

record send_env =
  nd_settings :: settings
  nd_cipher :: cipher
  nd_oauth :: oauth_env
  nd_resolver :: resolver
  nd_lock_token :: "nat \<Rightarrow> pystr"
  nd_peers :: "nat \<Rightarrow> (world \<Rightarrow> world) list"
  nd_base_host :: "pystr option"
  nd_uuid :: pystr
  nd_smtp :: "delivery \<Rightarrow> pyexc + unit"
  nd_smtp_oauth :: "account \<Rightarrow> pystr \<Rightarrow> pyexc + int" \<comment> \<open>the reply code of AUTH XOAUTH2\<close>
  nd_imap_login :: "account \<Rightarrow> pystr \<Rightarrow> pyexc + unit" \<comment> \<open>password or access token\<close>
  nd_append :: "account \<Rightarrow> string \<Rightarrow> pyexc + unit"
  nd_append_stalls :: bool \<comment> \<open>the append exceeds its 35 seconds\<close>

definition in_world :: "(world, 'a) prog \<Rightarrow> (mail_world, 'a) prog" where
  "in_world m x = (case m (mw x) of (r, w) \<Rightarrow> (r, x\<lparr>mw := w\<rparr>))"

definition put_on_wire :: "send_env \<Rightarrow> delivery \<Rightarrow> (mail_world, unit) prog" where
  "put_on_wire E d x = (case nd_smtp E d of Inl e \<Rightarrow> (Inl e, x) | Inr _ \<Rightarrow> (Inr (), x\<lparr>wire := wire x @ [d]\<rparr>))"

definition smtp_failed :: "string \<Rightarrow> pystr \<Rightarrow> pyexc" where
  "smtp_failed msg detail = domain_with SMTPSendFailedError msg [(''detail'', detail)]"

definition translate_send :: "(mail_world, 'a) prog \<Rightarrow> (mail_world, 'a) prog" where
  \<comment> \<open>the except clauses around the two SMTP conversations\<close>
  "translate_send m = catchM m (\<lambda>e. if isinstance e ESMTPException \<or> isinstance e ETimeoutError \<or> isinstance e EOSError
     then throw (smtp_failed ''SMTP send failed'' (safe_error_text e)) else throw e)"

definition reconsent :: pyexc where
  "reconsent = raise_domain OAuthReconsentRequiredError ''Reconnect Outlook to send from this account''"

definition access_token_for :: "send_env \<Rightarrow> int \<Rightarrow> nat \<Rightarrow> account \<Rightarrow> (mail_world, pystr) prog" where
  \<comment> \<open>the k-th call of the token service in this request\<close>
  "access_token_for E now k a = (if oauth_needs_consent a then throw reconsent
     else in_world (get_valid_access_token (nd_oauth E) (nd_settings E) (nd_cipher E) now (nd_lock_token E k) (nd_peers E k) a))"

definition smtp_send_oauth :: "send_env \<Rightarrow> account \<Rightarrow> pystr \<Rightarrow> mime \<Rightarrow> pystr list \<Rightarrow> (mail_world, unit) prog" where
  "smtp_send_oauth E a token m rcpts = bindM (liftE (build_xoauth2_string (email a) token)) (\<lambda>auth.
     translate_send (bindM (liftE (nd_smtp_oauth E a auth)) (\<lambda>code.
       if code \<noteq> 235 then throw (smtp_failed ''SMTP XOAUTH2 authentication failed'' (u ''smtp_code_'' @ str_of_int code))
       else put_on_wire E \<lparr>dl_account = acc_id a, dl_auth = (u ''XOAUTH2'', auth), dl_message = m, dl_recipients = rcpts\<rparr>)))"

definition dec :: "send_env \<Rightarrow> bytes \<Rightarrow> account \<Rightarrow> pyexc + pystr" where
  "dec E blob a = decrypt (oe_aead (nd_oauth E)) (nd_cipher E) blob (acc_id a)"

definition stored_smtp_password :: "send_env \<Rightarrow> account \<Rightarrow> pyexc + pystr" where
  "stored_smtp_password E a =
     (case (case smtp_encrypted_password a of None \<Rightarrow> Inr None
         | Some b \<Rightarrow> map_sum id (\<lambda>t. normalize_optional_secret (Some t)) (dec E b a)) of
        Inl e \<Rightarrow> Inl e
      | Inr (Some t) \<Rightarrow> Inr t
      | Inr None \<Rightarrow> (case encrypted_password a of None \<Rightarrow> Inl assertion_error | Some b \<Rightarrow> dec E b a))"

definition smtp_send_message :: "send_env \<Rightarrow> int \<Rightarrow> account \<Rightarrow> mime \<Rightarrow> pystr list \<Rightarrow> (mail_world, unit) prog" where
  "smtp_send_message E now a m rcpts =
     bindM (liftE (assert_public_host (nd_settings E) (nd_resolver E) (smtp_host a) (smtp_port a))) (\<lambda>_.
     if auth_type a = ''oauth_outlook'' then bindM (access_token_for E now 1 a) (\<lambda>token. smtp_send_oauth E a token m rcpts)
     else bindM (liftE (stored_smtp_password E a)) (\<lambda>pw.
       translate_send (put_on_wire E \<lparr>dl_account = acc_id a, dl_auth = (or_else (normalize_optional_login (smtp_username a)) (email a), pw),
          dl_message = m, dl_recipients = rcpts\<rparr>)))"

section \<open>The copy in the Sent folder\<close>

definition SENT_PASSWORD :: "string list" where
  "SENT_PASSWORD = [''Sent'', ''[Gmail]/Sent Mail'', ''INBOX.Sent'', ''Sent Items'']"

definition SENT_OAUTH :: "string list" where
  "SENT_OAUTH = [''Sent'', ''Sent Items'', ''[Gmail]/Sent Mail'', ''INBOX.Sent'']"

fun append_first :: "send_env \<Rightarrow> account \<Rightarrow> pyexc option \<Rightarrow> string list \<Rightarrow> (mail_world, unit) prog" where
  \<comment> \<open>the second argument is \<open>last_exc\<close>\<close>
  "append_first E a last_exc [] = (case last_exc of None \<Rightarrow> ret () | Some e \<Rightarrow> throw e)"
| "append_first E a last_exc (f # fs) = (case nd_append E a f of
      Inr _ \<Rightarrow> modifyM (\<lambda>x. x\<lparr>copies := copies x @ [(acc_id a, f)]\<rparr>)
    | Inl e \<Rightarrow> if isinstance e EMailboxAppendError then append_first E a (Some e) fs else throw e)"

definition imap_append :: "send_env \<Rightarrow> account \<Rightarrow> pystr \<Rightarrow> string list \<Rightarrow> (mail_world, unit) prog" where
  \<comment> \<open>\<open>_imap_append_blocking\<close> and \<open>_imap_append_oauth_blocking\<close> under \<open>wait_for\<close>; a stalled thread is given up\<close>
  "imap_append E a cred folders = (if nd_append_stalls E then throw timeout_error
     else seqM (liftE (nd_imap_login E a cred)) (append_first E a None folders))"

record transport_result =
  tp_message_id :: pystr
  tp_appended :: bool
  tp_appended_error :: "pystr option"

definition append_copy :: "send_env \<Rightarrow> account \<Rightarrow> pystr option \<Rightarrow> (mail_world, unit) prog" where
  "append_copy E a token = bindM (liftE (assert_public_host (nd_settings E) (nd_resolver E) (imap_host a) (imap_port a))) (\<lambda>_.
     if auth_type a = ''oauth_outlook'' then (case token of None \<Rightarrow> throw assertion_error | Some t \<Rightarrow> imap_append E a t SENT_OAUTH)
     else (case encrypted_password a of None \<Rightarrow> throw assertion_error
       | Some b \<Rightarrow> bindM (liftE (dec E b a)) (\<lambda>pw. imap_append E a pw SENT_PASSWORD)))"

definition best_effort :: "(mail_world, unit) prog \<Rightarrow> (mail_world, bool \<times> pystr option) prog" where
  "best_effort m = catchM (seqM m (ret (True, None)))
     (\<lambda>e. if isinstance e EException then ret (False, Some (safe_error_text e)) else throw e)"

definition send_transport :: "send_env \<Rightarrow> int \<Rightarrow> account \<Rightarrow> send_request \<Rightarrow> (mail_world, transport_result) prog" where
  "send_transport E now a r =
     bindM (if auth_type a = ''oauth_outlook'' then bindM (access_token_for E now 0 a) (\<lambda>t. ret (Some t)) else ret None) (\<lambda>token.
     (let mid = generate_message_id (nd_base_host E) (nd_uuid E) in
     bindM (liftE (build_mime (email a) r mid)) (\<lambda>m.
     bindM (smtp_send_message E now a m (sr_to r @ cc_list (sr_cc r))) (\<lambda>_.
     bindM (best_effort (append_copy E a token)) (\<lambda>(appended, err).
     ret \<lparr>tp_message_id = mid, tp_appended = appended, tp_appended_error = err\<rparr>)))))"

definition send_from_mailbox :: "send_env \<Rightarrow> int \<Rightarrow> int \<Rightarrow> send_request \<Rightarrow> (mail_world, pystr) prog" where
  "send_from_mailbox E now i r = bindM (getM (\<lambda>x. get_by_id i (wdb (mw x)))) (\<lambda>v. case v of
       None \<Rightarrow> throw (raise_domain NotFoundError ''Mailbox not found'')
     | Some a \<Rightarrow> bindM (send_transport E now a r) (\<lambda>t. ret (tp_message_id t)))"

section \<open>Frames\<close>

definition same_mail :: "mail_world \<Rightarrow> mail_world \<Rightarrow> bool" where
  "same_mail x y \<longleftrightarrow> wire y = wire x \<and> copies y = copies x"

lemma in_world_mail [simp]: "wire (snd (in_world m x)) = wire x" "copies (snd (in_world m x)) = copies x"
  by (simp_all add: in_world_def split: prod.splits)

lemma access_token_mail: "wire (snd (access_token_for E now k a x)) = wire x" "copies (snd (access_token_for E now k a x)) = copies x"
  by (simp_all add: access_token_for_def)

lemma translate_send_run:
  "snd (translate_send m x) = snd (m x) \<and> ((\<exists>v. fst (translate_send m x) = Inr v) \<longleftrightarrow> (\<exists>v. fst (m x) = Inr v))"
  by (auto simp: translate_send_def catchM_app split: prod.splits sum.splits)

lemma translate_put_on_wire:
  assumes "translate_send (put_on_wire E d) x = (r, x')"
  obtains e where "r = Inl e" "x' = x" | "r = Inr ()" "x' = x\<lparr>wire := wire x @ [d]\<rparr>"
proof (cases "nd_smtp E d")
  case (Inl e)
  then have "\<exists>e'. translate_send (put_on_wire E d) x = (Inl e', x)" by (simp add: translate_send_def catchM_app put_on_wire_def)
  then show thesis using assms that(1) by auto
qed (use assms that(2) in \<open>simp add: translate_send_def catchM_app put_on_wire_def\<close>)

lemma smtp_send_oauth_once:
  assumes "smtp_send_oauth E a token m rcpts x = (r, x')"
  obtains e where "r = Inl e" "x' = x"
    | d where "r = Inr ()" "x' = x\<lparr>wire := wire x @ [d]\<rparr>" "dl_account d = acc_id a" "dl_message d = m" "dl_recipients d = rcpts"
proof (cases "build_xoauth2_string (email a) token")
  case (Inl e)
  then show thesis using assms that(1) by (auto simp: smtp_send_oauth_def bindM_app)
next
  case auth: (Inr auth)
  let ?d = "\<lparr>dl_account = acc_id a, dl_auth = (u ''XOAUTH2'', auth), dl_message = m, dl_recipients = rcpts\<rparr>"
  show thesis
  proof (cases "nd_smtp_oauth E a auth = Inr 235")
    case True
    have "smtp_send_oauth E a token m rcpts x = translate_send (put_on_wire E ?d) x"
      by (simp add: smtp_send_oauth_def bindM_app auth True translate_send_def catchM_app)
    with assms have "translate_send (put_on_wire E ?d) x = (r, x')" by simp
    then show thesis by (rule translate_put_on_wire) (use that in auto)
  next
    case False
    then show thesis using assms that(1) auth
      by (cases "nd_smtp_oauth E a auth") (auto simp: smtp_send_oauth_def bindM_app translate_send_def catchM_app split: if_splits)
  qed
qed

text \<open>One SMTP conversation: an error means nothing was accepted, success means exactly this delivery was.\<close>

lemma smtp_send_once:
  assumes "smtp_send_message E now a m rcpts x = (r, x')"
  shows "copies x' = copies x \<and> (case r of Inl e \<Rightarrow> wire x' = wire x
    | Inr _ \<Rightarrow> \<exists>d. wire x' = wire x @ [d] \<and> dl_account d = acc_id a \<and> dl_message d = m \<and> dl_recipients d = rcpts \<and>
        (auth_type a \<noteq> ''oauth_outlook'' \<longrightarrow> fst (dl_auth d) = or_else (normalize_optional_login (smtp_username a)) (email a) \<and>
           stored_smtp_password E a = Inr (snd (dl_auth d)))) \<and>
    (auth_type a \<noteq> ''oauth_outlook'' \<longrightarrow> mw x' = mw x)"
proof (cases "assert_public_host (nd_settings E) (nd_resolver E) (smtp_host a) (smtp_port a)")
  case (Inl e)
  then have "smtp_send_message E now a m rcpts x = (Inl e, x)" by (simp add: smtp_send_message_def bindM_app)
  then show ?thesis using assms by auto
next
  case host: (Inr v)
  show ?thesis
  proof (cases "auth_type a = ''oauth_outlook''")
    case True
    obtain t x1 where t: "access_token_for E now 1 a x = (t, x1)" by (rule prod.exhaust)
    have x1: "wire x1 = wire x" "copies x1 = copies x" using access_token_mail [of E now 1 a x] t by simp_all
    show ?thesis
    proof (cases t)
      case (Inl e)
      then have "smtp_send_message E now a m rcpts x = (Inl e, x1)" using True t host by (simp add: smtp_send_message_def bindM_app)
      then show ?thesis using assms x1 True by auto
    next
      case (Inr token)
      then have "smtp_send_oauth E a token m rcpts x1 = (r, x')" using assms True t host by (simp add: smtp_send_message_def bindM_app)
      then show ?thesis by (rule smtp_send_oauth_once) (use x1 True in auto)
    qed
  next
    case False
    show ?thesis
    proof (cases "stored_smtp_password E a")
      case (Inl e)
      then have "smtp_send_message E now a m rcpts x = (Inl e, x)" using False host by (simp add: smtp_send_message_def bindM_app)
      then show ?thesis using assms by auto
    next
      case (Inr pw)
      then have "translate_send (put_on_wire E \<lparr>dl_account = acc_id a, dl_auth = (or_else (normalize_optional_login (smtp_username a)) (email a), pw),
          dl_message = m, dl_recipients = rcpts\<rparr>) x = (r, x')"
        using assms False host by (simp add: smtp_send_message_def bindM_app)
      then show ?thesis by (rule translate_put_on_wire) (use Inr in auto)
    qed
  qed
qed

lemma append_first_frame:
  assumes "append_first E a last_exc fs x = (r, x')"
  shows "wire x' = wire x \<and> mw x' = mw x \<and> length (copies x') \<le> length (copies x) + 1"
  using assms by (induction fs arbitrary: last_exc) (auto split: option.splits sum.splits if_splits)

definition polite :: "send_env \<Rightarrow> bool" where
  \<comment> \<open>resolver and IMAP client raise \<open>Exception\<close>s, never a bare \<open>BaseException\<close>\<close>
  "polite E \<longleftrightarrow> (\<forall>h e. nd_resolver E h = Inl e \<longrightarrow> isinstance e EException) \<and>
     (\<forall>a c e. nd_imap_login E a c = Inl e \<longrightarrow> isinstance e EException) \<and> (\<forall>a f e. nd_append E a f = Inl e \<longrightarrow> isinstance e EException)"

lemma decrypt_raises_exception: "decrypt a c b i = Inl e \<Longrightarrow> isinstance e EException"
  by (auto simp: decrypt_def aad_for_def decrypt_with_aad_def select_key_def Let_def split: sum.splits option.splits if_splits)

lemma domain_is_exception [simp]: "isinstance (raise_domain c m) EException"
  by (simp add: isinstance_def)

lemma scan_raises_exception: "scan_addresses seen l = Inl e \<Longrightarrow> isinstance e EException"
  by (induction l arbitrary: seen) (auto simp: resolved_entry_def ssrf_error_def split: sum.splits option.splits if_splits prod.splits)

lemma host_raises_exception:
  assumes "\<And>h e. f h = Inl e \<Longrightarrow> isinstance e EException" and "assert_public_host s f host port = Inl e"
  shows "isinstance e EException"
  using assms(2) by (auto simp: assert_public_host_def isinstance_def split: if_splits sum.splits
      dest: scan_raises_exception [unfolded isinstance_def] assms(1) [unfolded isinstance_def])

lemma append_first_raises:
  assumes "polite E" and "append_first E a last_exc fs x = (Inl e, x')" and "\<forall>e0. last_exc = Some e0 \<longrightarrow> isinstance e0 EException"
  shows "isinstance e EException"
  using assms(2,3)
proof (induction fs arbitrary: last_exc)
  case (Cons f fs)
  then show ?case using assms(1) by (auto simp: polite_def split: sum.splits if_splits)
qed (auto split: option.splits)

lemma append_copy_frame:
  assumes "append_copy E a token x = (r, x')"
  shows "wire x' = wire x \<and> mw x' = mw x \<and> length (copies x') \<le> length (copies x) + 1"
  using assms append_first_frame
  by (auto simp: append_copy_def imap_append_def bindM_app assertion_error_def split: sum.splits if_splits option.splits)

lemma append_copy_raises:
  assumes "polite E" and "append_copy E a token x = (Inl e, x')"
  shows "isinstance e EException"
proof -
  have h: "isinstance e EException" if "assert_public_host (nd_settings E) (nd_resolver E) h p1 = Inl e" for h p1 e
    using host_raises_exception [OF _ that] assms(1) by (auto simp: polite_def)
  have i: "isinstance e EException" if "imap_append E a c fs x = (Inl e, x')" for c fs x x' e
    using that assms(1) append_first_raises [OF assms(1), of a None fs]
    by (auto simp: imap_append_def bindM_app timeout_error_def polite_def split: if_splits sum.splits)
  show ?thesis using assms(2) h i
    by (auto simp: append_copy_def bindM_app assertion_error_def dec_def split: sum.splits if_splits option.splits dest: decrypt_raises_exception)
qed

lemma best_effort_returns:
  assumes "polite E" and "best_effort (append_copy E a token) x = (r, x')"
  shows "(\<exists>v. r = Inr v) \<and> wire x' = wire x \<and> mw x' = mw x \<and> length (copies x') \<le> length (copies x) + 1"
proof -
  obtain r0 x0 where a: "append_copy E a token x = (r0, x0)" by (rule prod.exhaust)
  show ?thesis using assms(2) append_copy_frame [OF a] append_copy_raises [OF assms(1), of a token x] a
    by (cases r0) (auto simp: best_effort_def catchM_app bindM_app)
qed

lemma set_headers_Inr: "set_headers hs m = Inr m' \<Longrightarrow> mm_headers m' = mm_headers m @ hs \<and> mm_body m' = mm_body m"
proof (induction hs arbitrary: m)
  case (Cons h hs)
  obtain n v where h: "h = (n, v)" by (rule prod.exhaust)
  then have "set_headers hs (m\<lparr>mm_headers := mm_headers m @ [(n, v)]\<rparr>) = Inr m'"
    using Cons.prems by (simp add: set_header_def split: if_splits)
  from Cons.IH [OF this] show ?case by (simp add: h)
qed simp

section \<open>What an answer says\<close>


section \<open>The gap between the header guards\<close>

lemma clean_no_control: "clean_header (Some v) = Inr (Some t) \<Longrightarrow> \<forall>c \<in> set t. \<not> control_char c"
  by (auto simp: clean_header_def list_ex_iff split: if_splits)

lemma multi_line_clean:
  assumes "\<forall>c \<in> set t. \<not> control_char c"
  shows "multi_line t \<longleftrightarrow> (\<exists>a c b. t = a @ c # b \<and> (c = 8232 \<or> c = 8233) \<and> b \<noteq> [])"
  using assms
proof (induction t)
  case (Cons d t)
  have lb: "is_line_break d \<longleftrightarrow> d = 8232 \<or> d = 8233"
    using Cons.prems by (auto simp: is_line_break_def control_char_def)
  have split: "(\<exists>a c b. d # t = a @ c # b \<and> (c = 8232 \<or> c = 8233) \<and> b \<noteq> []) \<longleftrightarrow>
      ((d = 8232 \<or> d = 8233) \<and> t \<noteq> []) \<or> (\<exists>a c b. t = a @ c # b \<and> (c = 8232 \<or> c = 8233) \<and> b \<noteq> [])"
    by (auto simp: Cons_eq_append_conv)
  have drop: "t \<noteq> []" if "t = a @ c # b" for a c b using that by simp
  show ?case
  proof (cases "is_line_break d")
    case True
    then show ?thesis unfolding split using lb by (cases t) auto
  next
    case False
    then show ?thesis unfolding split using lb Cons by simp
  qed
qed simp

text \<open>
  The header check of the send endpoint and the one of the MIME builder differ in exactly two characters: a value the
  endpoint accepts makes the builder raise \<open>ValueError\<close> if and only if U+2028 or U+2029 occurs in it before its end.
  Such a subject therefore gets a 500 instead of the 400 the check was written for, and nothing is sent.
\<close>

theorem header_guard_gap:
  assumes "clean_header (Some v) = Inr (Some t)" and "get_by_id i (wdb (mw x)) = Some a" and "auth_type a \<noteq> ''oauth_outlook''"
    and "\<not> multi_line (email a)" and "\<not> multi_line (intersperse_concat (u '', '') (sr_to r))" and "cc_list (sr_cc r) = []"
    and "sr_subject r = Some t"
  shows "((\<exists>e. set_header ''Subject'' t m = Inl e) \<longleftrightarrow> (\<exists>y c z. t = y @ c # z \<and> (c = 8232 \<or> c = 8233) \<and> z \<noteq> [])) \<and>
    ((\<exists>e. set_header ''Subject'' t m = Inl e) \<longrightarrow>
       (\<exists>e. send_from_mailbox E now i r x = (Inl e, x) \<and> rs_status (dispatch_handler e) = 500))"
proof -
  have iff: "multi_line t \<longleftrightarrow> (\<exists>y c z. t = y @ c # z \<and> (c = 8232 \<or> c = 8233) \<and> z \<noteq> [])"
    using multi_line_clean [OF clean_no_control [OF assms(1)]] .
  have "\<exists>e. send_from_mailbox E now i r x = (Inl e, x) \<and> rs_status (dispatch_handler e) = 500" if "multi_line t"
  proof -
    have "t \<noteq> []" using that by auto
    then have "build_mime (email a) r mid = Inl (mk_exc EValueError (u ''Header values may not contain linefeed or carriage return characters''))" for mid
      using assms(4-7) that by (simp add: build_mime_def mime_headers_def set_header_def header_if_def given_def)
    then show ?thesis using assms(2,3)
      by (simp add: send_from_mailbox_def send_transport_def bindM_app Let_def dispatch_handler_def unhandled_handler_def)
  qed
  then show ?thesis unfolding iff [symmetric] by (auto simp: set_header_def)
qed

text \<open>
  When the refresh token of an Outlook mailbox has died since its last use, the send endpoint does not answer the
  documented 409 of a mailbox that needs consent but an opaque 500: the exception of the token service is not a domain
  error and the send path has no handler for it. Nothing is sent.
\<close>

theorem send_with_dead_consent_is_500:
  assumes "get_by_id i (wdb (mw x)) = Some a" and "auth_type a = ''oauth_outlook''" and "\<not> oauth_needs_consent a"
    and "get_valid_access_token (nd_oauth E) (nd_settings E) (nd_cipher E) now (nd_lock_token E 0) (nd_peers E 0) a (mw x) = (Inl e, w')"
    and "ecls e = EOAuthRefreshInvalidError"
  shows "send_from_mailbox E now i r x = (Inl e, x\<lparr>mw := w'\<rparr>) \<and> rs_status (dispatch_handler e) = 500 \<and>
    status_code OAuthReconsentRequiredError = 409"
  using assms by (simp add: send_from_mailbox_def send_transport_def access_token_for_def in_world_def bindM_app dispatch_handler_def unhandled_handler_def)

section \<open>Concrete runs\<close>

definition toy_send :: send_env where
  \<comment> \<open>the SMTP server accepts everything, the IMAP server drops the connection\<close>
  "toy_send = \<lparr>nd_settings = dev_settings, nd_cipher = toy_cipher, nd_oauth = toy_env\<lparr>oe_aead := plain_aead\<rparr>, nd_resolver = (\<lambda>_. Inr []),
     nd_lock_token = (\<lambda>_. u ''t''), nd_peers = (\<lambda>_. []), nd_base_host = None, nd_uuid = u ''1'', nd_smtp = (\<lambda>_. Inr ()),
     nd_smtp_oauth = (\<lambda>_ _. Inr 235), nd_imap_login = (\<lambda>_ _. Inl (mk_exc EImapAbort [])), nd_append = (\<lambda>_ _. Inr ()),
     nd_append_stalls = False\<rparr>"

definition toy_mail :: "world \<Rightarrow> mail_world" where
  "toy_mail w = \<lparr>mw = w, wire = [], copies = []\<rparr>"

definition toy_letter :: "pystr option \<Rightarrow> send_request" where
  "toy_letter subject = \<lparr>sr_to = [u ''b@c.de''], sr_cc = None, sr_subject = subject, sr_body_text = u ''hi'', sr_in_reply_to = None, sr_refs = None\<rparr>"

definition send_world :: world where
  "send_world = idle_world (sample_db\<lparr>accounts := [(mail_row 1)\<lparr>smtp_host := u ''s''\<rparr>], acc_seq := 100\<rparr>)"

definition dead_row :: account where
  "dead_row = outlook_row (1 # replicate 12 0 @ u ''rt'' @ replicate 16 0)"

definition dead_world :: world where
  "dead_world = outlook_world (1 # replicate 12 0 @ u ''rt'' @ replicate 16 0) (Inr (400, Some (JObj [(''error'', JStr (u ''invalid_grant''))])))"


theorem header_guard_gap_witness:
  "\<exists>e. send_from_mailbox toy_send 0 1 (toy_letter (Some (u ''a'' @ [8232] @ u ''b''))) (toy_mail (mail_world [1])) = (Inl e, toy_mail (mail_world [1])) \<and>
     rs_status (dispatch_handler e) = 500"
proof -
  let ?t = "u ''a'' @ [8232] @ u ''b''" and ?x = "toy_mail (mail_world [1])"
  have c: "clean_header (Some ?t) = Inr (Some ?t)" by code_simp
  have g: "get_by_id 1 (wdb (mw ?x)) = Some (mail_row 1)" by (simp add: toy_mail_def mail_world_def idle_world_def get_by_id_def mail_row_def)
  have a: "auth_type (mail_row 1) \<noteq> ''oauth_outlook''" "\<not> multi_line (email (mail_row 1))" by code_simp+
  have l: "\<not> multi_line (intersperse_concat (u '', '') (sr_to (toy_letter (Some ?t))))" "cc_list (sr_cc (toy_letter (Some ?t))) = []"
    "sr_subject (toy_letter (Some ?t)) = Some ?t" by code_simp+
  have "\<exists>y c z. ?t = y @ c # z \<and> (c = 8232 \<or> c = 8233) \<and> z \<noteq> []"
    by (rule exI [of _ "u ''a''"], rule exI [of _ 8232], rule exI [of _ "u ''b''"]) simp
  with header_guard_gap [OF c g a l] show ?thesis by blast
qed

theorem send_with_dead_consent_is_500_witness:
  "\<exists>e x'. send_from_mailbox toy_send 0 1 (toy_letter None) (toy_mail dead_world) = (Inl e, x') \<and> rs_status (dispatch_handler e) = 500 \<and> wire x' = []"
proof -
  let ?g = "get_valid_access_token (nd_oauth toy_send) (nd_settings toy_send) (nd_cipher toy_send) 0 (nd_lock_token toy_send 0)
     (nd_peers toy_send 0) dead_row (mw (toy_mail dead_world))"
  obtain r w' where d: "?g = (r, w')" by (rule prod.exhaust)
  have "fst ?g = Inl (mk_exc EOAuthRefreshInvalidError (u ''invalid_grant''))" by code_simp
  then have e: "?g = (Inl (mk_exc EOAuthRefreshInvalidError (u ''invalid_grant'')), w')" unfolding d fst_conv by simp
  have row: "get_by_id 1 (wdb (mw (toy_mail dead_world))) = Some dead_row"
    by (simp add: toy_mail_def dead_world_def dead_row_def outlook_world_row)
  have a: "auth_type dead_row = ''oauth_outlook''" "\<not> oauth_needs_consent dead_row" by (simp_all add: dead_row_def outlook_row_def blank_account_def)
  have cls: "ecls (mk_exc EOAuthRefreshInvalidError (u ''invalid_grant'')) = EOAuthRefreshInvalidError" by simp
  from send_with_dead_consent_is_500 [OF row a e cls, of "toy_letter None"] show ?thesis by (auto simp: toy_mail_def)
qed

end
