(* ===== verification/External_Api.thy ===== *)
theory External_Api
  imports Send
begin

text \<open>
  The machine surface of the connector: \<open>backend/app/external/router.py\<close> (authentication, the endpoints),
  \<open>external/write_service.py\<close> and \<open>external/service.py\<close> (the pull). An endpoint is a program over the \<open>world\<close>; it
  returns the value FastAPI serialises or raises, and \<open>http_status\<close> is the status the client sees. A request body is
  \<open>None\<close> when it is not JSON of the body's types. Typed query parameters are validated by the framework before the
  endpoint runs.
\<close>

section \<open>Authentication\<close>

record http_req =
  rq_xff :: "pystr option"
  rq_peer :: "pystr option"
  rq_api_key :: "pystr option"
  rq_authorization :: "pystr option"

definition bearer :: "pystr option \<Rightarrow> pystr option" where
  "bearer v = (if \<not> given v then None else (case split_once 32 (the v) of
       None \<Rightarrow> None
     | Some (scheme, tok) \<Rightarrow> if py_lower scheme \<noteq> u ''bearer'' \<or> py_strip tok = [] then None else Some (py_strip tok)))"

definition api_key_matches :: "pystr \<Rightarrow> pystr \<Rightarrow> pyexc + bool" where
  \<comment> \<open>\<open>secrets.compare_digest\<close> refuses text outside ASCII\<close>
  "api_key_matches provided expected = (if expected = [] then Inr False
     else if list_ex (\<lambda>c. 128 \<le> c) (provided @ expected)
       then Inl (mk_exc ETypeError (u ''comparing strings with non-ASCII characters is not supported''))
     else Inr (provided = expected))"

definition request_key :: "http_req \<Rightarrow> pystr option" where
  "request_key rq = (if given (rq_api_key rq) then rq_api_key rq else bearer (rq_authorization rq))"

definition not_authenticated :: pyexc where
  "not_authenticated = domain_error NotAuthenticatedError None"

definition authenticate :: "settings \<Rightarrow> http_req \<Rightarrow> pyexc + unit" where
  "authenticate s rq = (if \<not> external_api_enabled s then Inl not_authenticated
     else (case request_key rq of None \<Rightarrow> Inl not_authenticated
       | Some k \<Rightarrow> (case api_key_matches k (EXTERNAL_API_KEY s) of
             Inl e \<Rightarrow> Inl e | Inr b \<Rightarrow> if b then Inr () else Inl not_authenticated)))"

definition ip_key :: "http_req \<Rightarrow> pystr" where
  "ip_key rq = u ''ip:'' @ client_ip (rq_xff rq) (rq_peer rq)"

definition authorize_read :: "settings \<Rightarrow> int \<Rightarrow> http_req \<Rightarrow> (world, unit) prog" where
  \<comment> \<open>steps 1 to 4 of the two read endpoints\<close>
  "authorize_read s now rq = seqM (consume (LIMIT_EXTERNAL_API\<lparr>lim_capacity := EXTERNAL_API_RATE_LIMIT_PER_MINUTE s\<rparr>) (ip_key rq) now)
     (liftE (authenticate s rq))"

definition write_limit :: "settings \<Rightarrow> limit" where
  "write_limit s = LIMIT_EXTERNAL_WRITE\<lparr>lim_capacity := EXTERNAL_WRITE_RATE_LIMIT_PER_MINUTE s\<rparr>"

definition authorize_write :: "settings \<Rightarrow> int \<Rightarrow> http_req \<Rightarrow> (world, unit) prog" where
  "authorize_write s now rq = seqM (consume (write_limit s) (ip_key rq) now) (seqM (liftE (authenticate s rq))
     (if EXTERNAL_WRITE_ENABLED s then ret () else throw (raise_domain ForbiddenError ''External write is disabled'')))"

definition request_validation_error :: pyexc where
  "request_validation_error = mk_exc ERequestValidationError []"

definition parse_json_body :: "('raw \<Rightarrow> pyexc + 'b) \<Rightarrow> 'raw option \<Rightarrow> pyexc + 'b" where
  "parse_json_body validate b0 = (case b0 of None \<Rightarrow> Inl request_validation_error
     | Some r \<Rightarrow> (case validate r of Inr b \<Rightarrow> Inr b
         | Inl e \<Rightarrow> if isinstance e EPydanticValidationError then Inl request_validation_error else Inl e))"

definition http_status :: "int \<Rightarrow> pyexc + 'a \<Rightarrow> int" where
  "http_status ok r = (case r of Inr _ \<Rightarrow> ok | Inl e \<Rightarrow> rs_status (dispatch_handler e))"

section \<open>The mailbox service\<close>

record ext_mailbox_dto =
  em_id :: int
  em_email :: pystr
  em_display_name :: "pystr option"
  em_is_active :: bool
  em_last_synced_at :: "int option"
  em_last_sync_error :: "pystr option"
  em_consecutive_failures :: int

definition to_external_mailbox_dto :: "account \<Rightarrow> ext_mailbox_dto" where
  "to_external_mailbox_dto a = \<lparr>em_id = acc_id a, em_email = email a, em_display_name = display_name a, em_is_active = is_active a,
     em_last_synced_at = last_synced_at a, em_last_sync_error = last_sync_error a, em_consecutive_failures = consecutive_failures a\<rparr>"

definition crm_scope :: "(uow, visibility_scope) prog" where
  "crm_scope = bindM (\<lambda>x. (user_by_username CRM_SERVICE_USERNAME (u_db x), x)) (\<lambda>v. case v of
       None \<Rightarrow> throw (raise_domain DependencyUnavailableError ''crm-service technical user is not provisioned'')
     | Some y \<Rightarrow> ret \<lparr>vs_user_id = usr_id y, vs_role = ''super_admin''\<rparr>)"

definition ext_test :: "svc_env \<Rightarrow> login_fields \<Rightarrow> (uow, test_result) prog" where
  "ext_test E p = bindM (liftE (as_test_request p)) (\<lambda>q. test_mailbox E q None)"

definition ext_create :: "svc_env \<Rightarrow> int \<Rightarrow> ext_create_request \<Rightarrow> (uow, ext_mailbox_dto) prog" where
  "ext_create E now p = bindM crm_scope (\<lambda>sc.
     bindM (liftE (validate_create_request (login_fields.extend (login_fields.truncate p)
        \<lparr>cr_display_name = xc_display_name p, cr_target_user_id = Some (vs_user_id sc)\<rparr>))) (\<lambda>q.
     bindM (create_mailbox E now sc q) (\<lambda>dto.
     bindM (bindM (getM (\<lambda>x. get_by_id (dto_id dto) (u_db x))) (present not_found)) (\<lambda>a. ret (to_external_mailbox_dto a)))))"

definition ext_update :: "svc_env \<Rightarrow> int \<Rightarrow> int \<Rightarrow> ext_update_request \<Rightarrow> (uow, ext_mailbox_dto) prog" where
  "ext_update E now i p = bindM crm_scope (\<lambda>sc.
     bindM (if has_account_fields p
       then bindM (liftE (validate_update_request (patch_fields.extend (patch_fields.truncate p) \<lparr>ur_clear_display_name = False\<rparr>)))
         (\<lambda>q. bindM (update_mailbox E now sc i q) (\<lambda>_. ret ()))
       else ret ()) (\<lambda>_.
     bindM (if xu_set_is_active p then bindM (set_active now sc i (xu_is_active p = Some True)) (\<lambda>_. ret ())
       else if \<not> has_account_fields p then bindM (visible_account sc i) (\<lambda>_. ret ()) else ret ()) (\<lambda>_.
     bindM (bindM (getM (\<lambda>x. get_by_id i (u_db x))) (present not_found)) (\<lambda>a. ret (to_external_mailbox_dto a)))))"

definition ext_delete :: "int \<Rightarrow> (uow, unit) prog" where
  "ext_delete i = bindM crm_scope (\<lambda>sc. delete_mailbox sc i)"

definition ext_sync :: "int \<Rightarrow> (world, unit) prog" where
  \<comment> \<open>\<open>crm_scope\<close> and \<open>force_sync\<close>; the marker expires after a minute, which is a step of its own\<close>
  "ext_sync i w = (case bindM crm_scope (\<lambda>sc. visible_account sc i) \<lparr>u_db = wdb w, pending = [], committed = 0\<rparr> of
       (Inl e, _) \<Rightarrow> (Inl e, w)
     | (Inr _, _) \<Rightarrow> redis (\<lambda>v. ((), v\<lparr>force_marks := str_of_int i # filter (\<lambda>k. k \<noteq> str_of_int i) (force_marks v)\<rparr>)) w)"

section \<open>The pull\<close>

record message_dto =
  md_id :: int
  md_subject :: "pystr option"
  md_internal_date :: int
  md_from_addr :: pystr
  md_from_name :: "pystr option"
  md_to_addrs :: pystr
  md_cc_addrs :: "pystr option"
  md_account :: "int \<times> pystr \<times> pystr option"
  md_body_text :: pystr
  md_body_html :: "pystr option"
  md_body_present :: bool
  md_body_truncated :: bool

definition build_dto :: "db \<Rightarrow> message \<Rightarrow> message_dto" where
  \<comment> \<open>the join yields the message with its account\<close>
  "build_dto d m = (let a = the (get_by_id (msg_account_id m) d) in
     \<lparr>md_id = msg_id m, md_subject = msg_subject m, md_internal_date = internal_date m, md_from_addr = from_addr m,
      md_from_name = from_name m, md_to_addrs = to_addrs m, md_cc_addrs = cc_addrs m,
      md_account = (acc_id a, email a, display_name a), md_body_text = body_text m, md_body_html = body_html m,
      md_body_present = body_present m, md_body_truncated = body_truncated m\<rparr>)"

datatype pull_page = ForwardPage "message_dto list" int bool | BackwardPage "message_dto list" "int option" bool

definition mode_error :: "string \<Rightarrow> pystr \<Rightarrow> pyexc" where
  "mode_error f m = with_field f (domain_error ValidationError (Some m))"

definition ONLY_WITH :: pystr where
  \<comment> \<open>the Russian for ``allowed only with''\<close>
  "ONLY_WITH = u '' '' @ [1076, 1086, 1087, 1091, 1089, 1090, 1080, 1084] @ u '' '' @ [1090, 1086, 1083, 1100, 1082, 1086] @ u '' '' @ [1087, 1088, 1080] @ u '' ''"

definition EXCLUSIVE :: pystr where
  "EXCLUSIVE = u ''since_id '' @ [1080] @ u '' before_id '' @ [1074, 1079, 1072, 1080, 1084, 1086, 1080, 1089, 1082, 1083, 1102, 1095, 1072, 1102, 1097, 1080]"

definition validate_mode :: "pystr \<Rightarrow> int \<Rightarrow> int option \<Rightarrow> pyexc + unit" where
  "validate_mode order since before =
     (if order \<noteq> u ''asc'' \<and> order \<noteq> u ''desc'' then Inl (mode_error ''order'' (u ''order must be '' @ [39] @ u ''asc'' @ [39] @ u '' or '' @ [39] @ u ''desc'' @ [39]))
      else if order = u ''asc'' \<and> before \<noteq> None then Inl (mode_error ''before_id'' (u ''before_id'' @ ONLY_WITH @ u ''order=desc''))
      else if order = u ''desc'' \<and> since \<noteq> 0 then Inl (mode_error ''since_id'' (u ''since_id'' @ ONLY_WITH @ u ''order=asc''))
      else if since \<noteq> 0 \<and> before \<noteq> None then Inl (mode_error ''cursor'' EXCLUSIVE)
      else if (case before of None \<Rightarrow> False | Some b \<Rightarrow> b < 1) then Inl (mode_error ''before_id'' (u ''before_id must be >= 1''))
      else Inr ())"

definition resolve_account_ids :: "int list option \<Rightarrow> db \<Rightarrow> int list" where
  "resolve_account_ids ids d = (case ids of None \<Rightarrow> list_canonical_account_ids d
     | Some l \<Rightarrow> if l = [] then list_canonical_account_ids d else filter (\<lambda>i. i \<in> set l) (list_canonical_account_ids d))"

definition list_forward :: "int list \<Rightarrow> int \<Rightarrow> int \<Rightarrow> db \<Rightarrow> pull_page" where
  "list_forward ids since limit d = (let rows = list_since_id ids since (nat limit) d in
     ForwardPage (map (build_dto d) rows) (if rows = [] then since else msg_id (List.last rows)) (int (length rows) = limit))"

definition list_backward :: "int list \<Rightarrow> int option \<Rightarrow> int \<Rightarrow> db \<Rightarrow> pull_page" where
  "list_backward ids before limit d = (let rows = list_before_id ids before (nat limit) d in
     BackwardPage (map (build_dto d) rows) (if rows = [] then None else Some (msg_id (List.last rows))) (int (length rows) = limit))"

definition list_messages :: "pystr \<Rightarrow> int \<Rightarrow> int option \<Rightarrow> int \<Rightarrow> int list option \<Rightarrow> db \<Rightarrow> pyexc + pull_page" where
  "list_messages order since before limit ids d = (case validate_mode order since before of
       Inl e \<Rightarrow> Inl e
     | Inr _ \<Rightarrow> Inr (if order = u ''asc'' then list_forward (resolve_account_ids ids d) since limit d
         else list_backward (resolve_account_ids ids d) before limit d))"

definition list_mailboxes :: "bool option \<Rightarrow> db \<Rightarrow> ext_mailbox_dto list" where
  "list_mailboxes active d = map to_external_mailbox_dto (filter (\<lambda>a. case active of None \<Rightarrow> True | Some b \<Rightarrow> is_active a = b)
     (list_by_ids (list_canonical_account_ids d) d))"

section \<open>The endpoints\<close>

record pull_query =
  pq_order :: pystr
  pq_since_id :: int
  pq_before_id :: "int option"
  pq_limit :: int
  pq_mail_account_id :: "int list option"

definition MAX_LIMIT :: int where
  "MAX_LIMIT = 200"

definition list_external_messages :: "settings \<Rightarrow> int \<Rightarrow> http_req \<Rightarrow> pull_query \<Rightarrow> (world, pull_page) prog" where
  \<comment> \<open>the bounds of \<open>since_id\<close> and \<open>limit\<close> are query constraints: FastAPI tests them first\<close>
  "list_external_messages s now rq q =
     (if \<not> (0 \<le> pq_since_id q \<and> 1 \<le> pq_limit q \<and> pq_limit q \<le> MAX_LIMIT) then throw request_validation_error
      else seqM (authorize_read s now rq) (\<lambda>w. (list_messages (pq_order q) (pq_since_id q) (pq_before_id q) (pq_limit q)
        (pq_mail_account_id q) (wdb w), w)))"

definition list_external_mailboxes :: "settings \<Rightarrow> int \<Rightarrow> http_req \<Rightarrow> bool option \<Rightarrow> (world, ext_mailbox_dto list) prog" where
  "list_external_mailboxes s now rq active = seqM (authorize_read s now rq) (getM (\<lambda>w. list_mailboxes active (wdb w)))"

definition in_session :: "(uow, 'a) prog \<Rightarrow> world \<Rightarrow> (pyexc + 'a) \<times> uow" where
  \<comment> \<open>\<open>async with db.begin()\<close> on the session of a request\<close>
  "in_session m w = begin_block m \<lparr>u_db = wdb w, pending = [], committed = 0\<rparr>"

definition in_request :: "(uow, 'a) prog \<Rightarrow> (world, 'a) prog" where
  "in_request m w = (case in_session m w of (r, x) \<Rightarrow> (r, w\<lparr>wdb := u_db x\<rparr>))"

definition external_mailbox_test :: "svc_env \<Rightarrow> int \<Rightarrow> http_req \<Rightarrow> login_fields option \<Rightarrow> (world, test_result) prog" where
  \<comment> \<open>no transaction block: nothing is written\<close>
  "external_mailbox_test E now rq body = seqM (authorize_write (sv_settings E) now rq)
     (bindM (liftE (parse_json_body validate_ext_test_request body)) (\<lambda>p w. (fst (ext_test E p \<lparr>u_db = wdb w, pending = [], committed = 0\<rparr>), w)))"

definition external_mailbox_create :: "svc_env \<Rightarrow> int \<Rightarrow> http_req \<Rightarrow> ext_create_request option \<Rightarrow> (world, ext_mailbox_dto) prog" where
  "external_mailbox_create E now rq body = seqM (authorize_write (sv_settings E) now rq)
     (bindM (liftE (parse_json_body validate_ext_create_request body)) (\<lambda>p. in_request (ext_create E now p)))"

definition patch_body :: "svc_env \<Rightarrow> int \<Rightarrow> int \<Rightarrow> ext_update_request \<Rightarrow> (world, ext_mailbox_dto) prog" where
  \<comment> \<open>the transaction, then the flush of the deferred events\<close>
  "patch_body E now i p w = (case in_session (ext_update E now i p) w of
       (Inl e, x) \<Rightarrow> (Inl e, w\<lparr>wdb := u_db x\<rparr>)
     | (Inr dto, x) \<Rightarrow> seqM (flush_crm_status_events (sv_settings E) x) (ret dto) (w\<lparr>wdb := u_db x\<rparr>))"

definition external_mailbox_update :: "svc_env \<Rightarrow> int \<Rightarrow> http_req \<Rightarrow> int \<Rightarrow> ext_update_body option \<Rightarrow> (world, ext_mailbox_dto) prog" where
  "external_mailbox_update E now rq i body = seqM (authorize_write (sv_settings E) now rq)
     (bindM (liftE (parse_json_body validate_ext_update_request body)) (patch_body E now i))"

definition external_mailbox_delete :: "svc_env \<Rightarrow> int \<Rightarrow> http_req \<Rightarrow> int \<Rightarrow> (world, unit) prog" where
  "external_mailbox_delete E now rq i = seqM (authorize_write (sv_settings E) now rq) (in_request (ext_delete i))"

definition external_mailbox_sync :: "svc_env \<Rightarrow> int \<Rightarrow> http_req \<Rightarrow> int \<Rightarrow> (world, unit) prog" where
  "external_mailbox_sync E now rq i = seqM (authorize_write (sv_settings E) now rq) (ext_sync i)"

definition external_mailbox_send :: "send_env \<Rightarrow> int \<Rightarrow> http_req \<Rightarrow> int \<Rightarrow> send_request option \<Rightarrow> (mail_world, pystr) prog" where
  \<comment> \<open>the request transaction has no writes of its own: the token service commits in its own session\<close>
  "external_mailbox_send E now rq i body = seqM (in_world (authorize_write (nd_settings E) now rq))
     (bindM (liftE (parse_json_body validate_send_request body)) (send_from_mailbox E now i))"

definition require_outlook_oauth_enabled :: "settings \<Rightarrow> pyexc + unit" where
  "require_outlook_oauth_enabled s = (if outlook_oauth_enabled s then Inr () else Inl not_found)"

definition validate_authorize_request :: "pystr \<Rightarrow> pyexc + pystr" where
  "validate_authorize_request crm_state = (if len_in 1 512 crm_state then Inr crm_state else Inl pydantic_error)"

definition external_oauth_authorize ::
    "oauth_env \<Rightarrow> settings \<Rightarrow> int \<Rightarrow> http_req \<Rightarrow> pystr \<Rightarrow> pystr \<Rightarrow> pystr option \<Rightarrow> (world, pystr \<times> pystr) prog" where
  "external_oauth_authorize env s now rq state verifier body = seqM (authorize_write s now rq)
     (seqM (liftE (require_outlook_oauth_enabled s)) (bindM (liftE (parse_json_body validate_authorize_request body))
        (build_authorize_url_headless env s now state verifier)))"

datatype callback_page = SuccessPage | ErrorPage

definition external_oauth_callback ::
    "oauth_env \<Rightarrow> settings \<Rightarrow> cipher \<Rightarrow> int \<Rightarrow> http_req \<Rightarrow> pystr option \<Rightarrow> pystr option \<Rightarrow> pystr option \<Rightarrow> (world, callback_page) prog" where
  \<comment> \<open>the query parameters \<open>code\<close>, \<open>state\<close>, \<open>error\<close>\<close>
  "external_oauth_callback env s c now rq code state err = seqM (consume (write_limit s) (ip_key rq) now)
     (seqM (liftE (require_outlook_oauth_enabled s))
       (if given err \<or> \<not> given code \<or> \<not> given state then ret ErrorPage
        else bindM (catchM (bindM (exchange_code_headless env s c now (the code) (the state)) (\<lambda>r. ret (Some r)))
               (\<lambda>e. if isinstance e EOAuthError then ret None else throw e)) (\<lambda>v. case v of
             None \<Rightarrow> ret ErrorPage
           | Some (a, crm_state) \<Rightarrow> bindM (notify_crm_oauth_ingest (oe_mac env) s now crm_state a) (\<lambda>_. ret SuccessPage))))"

section \<open>Only the key and the gate open the write section\<close>

definition only_counted :: "world \<Rightarrow> world \<Rightarrow> bool" where
  \<comment> \<open>nothing but the rate-limit counter and the Redis clock moved\<close>
  "only_counted w v \<longleftrightarrow> v = w\<lparr>kv := kv v, rds_tick := rds_tick v\<rparr>"

lemma only_counted_fields:
  "only_counted w v \<Longrightarrow> wdb v = wdb w \<and> push_q v = push_q w \<and> status_q v = status_q w \<and> force_marks v = force_marks w \<and>
     posts v = posts w \<and> token_calls v = token_calls w"
  by (cases w; cases v) (simp add: only_counted_def)

lemma redis_only_counted:
  assumes "\<And>w. \<exists>K. snd (f w) = w\<lparr>kv := K\<rparr>"
  shows "only_counted w (snd (redis f w))"
proof -
  let ?w1 = "w\<lparr>rds_tick := rds_tick w + 1\<rparr>"
  obtain K where K: "snd (f ?w1) = ?w1\<lparr>kv := K\<rparr>" using assms by blast
  show ?thesis using K by (auto simp: redis_def Let_def only_counted_def split: prod.splits)
qed

lemma only_counted_trans: "only_counted w v \<Longrightarrow> only_counted v x \<Longrightarrow> only_counted w x"
  by (cases w; cases v; cases x) (simp add: only_counted_def)

lemma only_counted_refl [simp]: "only_counted w w"
  by (simp add: only_counted_def)

lemma consume_only_counted: "only_counted w (snd (consume l k now w))"
proof (cases "k = []")
  case False
  obtain r w1 where b: "redis (bump (lim_window_seconds l) (limit_key l k) now) w = (r, w1)" by (rule prod.exhaust)
  have 1: "only_counted w w1" using redis_only_counted [of "bump (lim_window_seconds l) (limit_key l k) now" w] b
    by (auto simp: bump_def Let_def)
  obtain r2 w2 where t: "redis (\<lambda>w. (key_ttl now (limit_key l k) w, w)) w1 = (r2, w2)" by (rule prod.exhaust)
  have "w\<lparr>kv := kv w\<rparr> = w" for w :: world by simp
  then have 2: "only_counted w1 w2" using redis_only_counted [of "\<lambda>w. (key_ttl now (limit_key l k) w, w)" w1] t by (metis snd_conv)
  show ?thesis using False b t 1 only_counted_trans [OF 1 2]
    by (auto simp: consume_def bindM_app split: sum.splits)
qed (simp add: consume_def)

lemma consume_errors:
  assumes "consume l k now w = (Inl e, w1)"
  shows "rs_status (dispatch_handler e) \<in> {429, 500}"
  using assms
  by (auto simp: consume_def bindM_app redis_def Let_def redis_error_def rate_limited_def dispatch_handler_def domain_handler_def
      raise_domain_def domain_error_def unhandled_handler_def split: if_splits prod.splits)

lemma authenticate_ok:
  assumes "authenticate s rq = Inr ()"
  shows "EXTERNAL_API_KEY s \<noteq> [] \<and> request_key rq = Some (EXTERNAL_API_KEY s)"
  using assms by (auto simp: authenticate_def external_api_enabled_def api_key_matches_def split: option.splits if_splits)

lemma authenticate_errors: "authenticate s rq = Inl e \<Longrightarrow> rs_status (dispatch_handler e) \<in> {401, 500}"
  by (auto simp: authenticate_def api_key_matches_def not_authenticated_def domain_error_def dispatch_handler_def domain_handler_def
      unhandled_handler_def split: option.splits if_splits)

lemma authorize_write_refuses:
  assumes "\<not> (EXTERNAL_API_KEY s \<noteq> [] \<and> request_key rq = Some (EXTERNAL_API_KEY s) \<and> EXTERNAL_WRITE_ENABLED s)"
    and "seqM (authorize_write s now rq) k w = (r, w1)"
  shows "(\<exists>e. r = Inl e \<and> rs_status (dispatch_handler e) \<in> {401, 403, 429, 500}) \<and> only_counted w w1"
proof -
  obtain c v where c: "consume (write_limit s) (ip_key rq) now w = (c, v)" by (rule prod.exhaust)
  have v: "only_counted w v" using consume_only_counted [of w "write_limit s" "ip_key rq" now] c by simp
  show ?thesis
  proof (cases c)
    case (Inl e)
    then have "r = Inl e" "w1 = v" using assms(2) c by (auto simp: authorize_write_def bindM_app)
    then show ?thesis using v consume_errors [of "write_limit s" "ip_key rq" now w e v] c Inl by auto
  next
    case (Inr x)
    show ?thesis
    proof (cases "authenticate s rq")
      case (Inl e)
      then have "r = Inl e" "w1 = v" using assms(2) c Inr by (auto simp: authorize_write_def bindM_app)
      then show ?thesis using v authenticate_errors [OF Inl] by auto
    next
      case ok: (Inr y)
      then have "\<not> EXTERNAL_WRITE_ENABLED s" using authenticate_ok [of s rq] assms(1) by auto
      then have "r = Inl (raise_domain ForbiddenError ''External write is disabled'')" "w1 = v"
        using assms(2) c Inr ok by (auto simp: authorize_write_def bindM_app)
      then show ?thesis using v by (simp add: dispatch_handler_def domain_handler_def)
    qed
  qed
qed


section \<open>The pull is complete\<close>

fun pull_all :: "db \<Rightarrow> int list option \<Rightarrow> int \<Rightarrow> nat \<Rightarrow> int \<Rightarrow> message_dto list" where
  \<comment> \<open>a client that passes \<open>next_since_id\<close> back while the page says \<open>has_more\<close>\<close>
  "pull_all d ids limit 0 since = []"
| "pull_all d ids limit (Suc fuel) since = (case list_messages (u ''asc'') since None limit ids d of
      Inr (ForwardPage dtos cur has_more) \<Rightarrow> dtos @ (if has_more then pull_all d ids limit fuel cur else [])
    | _ \<Rightarrow> [])"

definition start_cursor :: "int \<Rightarrow> int option" where
  "start_cursor since = (if since = 0 then None else Some since)"

lemma pull_all_rest:
  assumes "listing_inv s" and s: "s = (d, resolve_account_ids ids d)" and "0 < limit" and "length (fwd.rest s (start_cursor since)) < fuel"
  shows "pull_all d ids limit fuel since = map (build_dto d) (fwd.rest s (start_cursor since))"
  using assms(4)
proof (induction fuel arbitrary: since)
  case (Suc fuel)
  define rows where "rows = list_since_id (resolve_account_ids ids d) since (nat limit) d"
  have page: "rows = take (nat limit) (fwd.rest s (start_cursor since))"
    using fwd.page_take [OF assms(1), of "start_cursor since" "nat limit"]
    by (simp add: rows_def fwd.rest_def forward_page_def s start_cursor_def split: if_splits)
  have step: "pull_all d ids limit (Suc fuel) since = map (build_dto d) rows @
      (if int (length rows) = limit then pull_all d ids limit fuel (if rows = [] then since else msg_id (List.last rows)) else [])"
    by (simp add: list_messages_def validate_mode_def list_forward_def Let_def flip: rows_def)
  show ?case
  proof (cases "int (length rows) = limit")
    case False
    then have "length (fwd.rest s (start_cursor since)) \<le> nat limit" using page assms(3) by (cases "length (fwd.rest s (start_cursor since)) \<le> nat limit") (simp_all add: min_def)
    then show ?thesis using step page False by simp
  next
    case True
    then have ne: "rows \<noteq> []" using assms(3) by auto
    have split: "fwd.rest s (start_cursor since) = rows @ drop (nat limit) (fwd.rest s (start_cursor since))" using page by simp
    have "List.last rows \<in> set (fwd.rest s (start_cursor since))" using split ne by (metis UnCI last_in_set set_append)
    then have "List.last rows \<in> set (listing_pool s)" using fwd.page_set [OF assms(1)] by (auto simp: fwd.rest_def)
    then have "0 < msg_id (List.last rows)" using assms(1) by (auto simp: listing_inv_def listing_pool_def in_scope_def)
    then have cur: "start_cursor (msg_id (List.last rows)) = Some (msg_id (List.last rows))" by (simp add: start_cursor_def)
    have nxt: "fwd.rest s (start_cursor (msg_id (List.last rows))) = drop (nat limit) (fwd.rest s (start_cursor since))"
      unfolding cur by (rule fwd.rest_after_prefix [OF assms(1) split ne])
    have "length (fwd.rest s (start_cursor (msg_id (List.last rows)))) < fuel"
      unfolding nxt using Suc.prems assms(3) True page by (cases "fwd.rest s (start_cursor since)") auto
    note IH = Suc.IH [OF this]
    have "pull_all d ids limit (Suc fuel) since = map (build_dto d) rows @ map (build_dto d) (drop (nat limit) (fwd.rest s (start_cursor since)))"
      unfolding step using True ne IH nxt by simp
    also have "\<dots> = map (build_dto d) (rows @ drop (nat limit) (fwd.rest s (start_cursor since)))" by simp
    finally show ?thesis unfolding split [symmetric] .
  qed
qed simp

text \<open>
  C12. The pull is complete and repeats nothing: a client that starts at 0 and follows the cursors while pages say
  \<open>has_more\<close> receives, whatever its page size, every message of the canonical mailboxes exactly once, in increasing order
  of its id, also when the last page is exactly full.
\<close>

theorem pull_visits_every_message_once:
  assumes "db_ok d" and "\<forall>m \<in> set (msgs d). 0 < msg_id m" and "1 \<le> limit" and "length (msgs d) < fuel"
  shows "map md_id (pull_all d None limit fuel 0) =
    sort (map msg_id (filter (\<lambda>m. msg_account_id m \<in> set (list_canonical_account_ids d)) (msgs d))) \<and>
    distinct (map md_id (pull_all d None limit fuel 0))"
proof -
  let ?s = "(d, resolve_account_ids None d)"
  have I: "listing_inv ?s" using assms(1,2) by (simp add: listing_inv_def db_ok_def msgs_ok_def)
  have pool: "listing_pool ?s = filter (\<lambda>m. msg_account_id m \<in> set (list_canonical_account_ids d)) (msgs d)"
  proof -
    have "\<forall>m \<in> set (msgs d). msg_account_id m \<in> acc_id ` set (accounts d)" using assms(1) by (simp add: db_ok_def msgs_ok_def)
    then show ?thesis by (auto simp: listing_pool_def in_scope_def resolve_account_ids_def intro: filter_cong)
  qed
  let ?l = "fwd.rest ?s None"
  have l: "sorted (map msg_id ?l)" "distinct ?l" "set ?l = set (listing_pool ?s)"
    using fwd.page_sorted [OF I, of None] fwd.page_distinct [OF I, of None] fwd.page_set [OF I, of None] by (simp_all add: fwd.rest_def)
  have inj: "inj_on msg_id (set (listing_pool ?s))" using fwd.rank_inj_on [OF I] .
  have dl: "distinct (map msg_id ?l)" using l(2,3) inj by (simp add: distinct_map)
  have "distinct (listing_pool ?s)" using fwd.inj_rank [OF I] by (simp add: distinct_map)
  then have ds: "distinct (sort (map msg_id (listing_pool ?s)))" using inj by (simp add: distinct_map)
  have ids: "map msg_id ?l = sort (map msg_id (listing_pool ?s))"
    by (rule sorted_distinct_set_unique [OF l(1) dl _ ds]) (simp_all add: l(3))
  have "length ?l \<le> length (msgs d)"
  proof -
    have "length ?l = length (listing_pool ?s)" using ids by (metis length_map length_sort)
    then show ?thesis by (simp add: pool)
  qed
  then have "pull_all d None limit fuel 0 = map (build_dto d) ?l"
    using pull_all_rest [OF I refl, of limit 0 fuel] assms(3,4) by (simp add: start_cursor_def)
  moreover have "map md_id (map (build_dto d) ?l) = map msg_id ?l" by (simp add: build_dto_def Let_def)
  ultimately show ?thesis using ids dl by (simp add: pool)
qed

theorem pull_visits_every_message_once_witness:
  "map md_id (pull_all two_msgs None 1 3 0) = [1, 2]"
proof -
  have a: "db_ok two_msgs" by code_simp
  have b: "\<forall>m \<in> set (msgs two_msgs). 0 < msg_id m" by (simp add: two_msgs_def)
  have c: "length (msgs two_msgs) < 3" by (simp add: two_msgs_def)
  have "sort (map msg_id (filter (\<lambda>m. msg_account_id m \<in> set (list_canonical_account_ids two_msgs)) (msgs two_msgs))) = [1, 2]" by code_simp
  with pull_visits_every_message_once [OF a b _ c, of 1] show ?thesis by simp
qed

definition toy_svc :: svc_env where
  "toy_svc = \<lparr>sv_settings = dev_settings, sv_cipher = toy_cipher, sv_aead = plain_aead, sv_iv = (\<lambda>_. replicate 12 0),
     sv_net = slow_env (Inr ()) (Some 1) (Some 1) (Some 1), sv_token = (\<lambda>_. await_op None (Inl timeout_error))\<rparr>"

definition wrong_key :: http_req where
  "wrong_key = \<lparr>rq_xff = None, rq_peer = None, rq_api_key = Some (u ''guess''), rq_authorization = None\<rparr>"


end
