(* ===== verification/External_Mailboxes.thy ===== *)
theory External_Mailboxes
  imports External_Api
begin

text \<open>
  What the mailbox endpoints promise: creating stores only what was probed, patching refines an abstract patch of the
  mailbox's view, and status events follow the commit. Facts about the service operations of \<open>Account_Service\<close>
  and the endpoints of \<open>External_Api\<close>.
\<close>

section \<open>Steps of a program\<close>

lemma bind_liftE: "bindM (liftE r) f s = (case r of Inl e \<Rightarrow> (Inl e, s) | Inr v \<Rightarrow> f v s)"
  by (simp add: bindM_app split: sum.split)

lemma bind_present: "bindM (bindM (getM g) (present e)) f s = (case g s of None \<Rightarrow> (Inl e, s) | Some v \<Rightarrow> f v s)"
  by (simp add: bindM_app present_def split: option.split)

lemma liftE_InrE:
  assumes "bindM (liftE r) f s = (Inr y, t)"
  obtains v where "r = Inr v" "f v s = (Inr y, t)"
  using assms by (auto simp: bind_liftE split: sum.splits)

lemma present_InrE:
  assumes "bindM (bindM (getM g) (present e)) f s = (Inr y, t)"
  obtains v where "g s = Some v" "f v s = (Inr y, t)"
  using assms by (auto simp: bind_present split: option.splits)

lemma visible_InrE:
  assumes "bindM (visible_account sc i) f x = (Inr y, x')"
  obtains a where "get_by_id i (u_db x) = Some a" "f a x = (Inr y, x')"
  using assms by (auto simp: visible_account_def visible_user_ids_def get_for_user_ids_def present_def bindM_app
      split: if_splits option.splits)

lemma test_mailbox_state: "tr_account_id q = None \<Longrightarrow> snd (test_mailbox E q sc x) = x"
  by (simp add: test_mailbox_def)

lemma keep_state_bind: "snd (m s) = s \<Longrightarrow> (\<And>v. snd (f v s) = s) \<Longrightarrow> snd (bindM m f s) = s"
  by (auto simp: bindM_app split: prod.splits sum.splits)

lemma retest_state: "snd (retest E p a x) = x"
proof -
  have id: "tr_account_id q = None" if "validate_test_request (request_of_account b u1 v1) = Inr q" for b u1 v1 q
    using that by (auto simp: validate_test_request_def request_of_account_def split: if_splits)
  have v: "snd (bindM (liftE (validate_test_request (request_of_account b u1 v1))) (\<lambda>q. bindM (test_mailbox E q None) (\<lambda>_. ret ())) x) = x" for b u1 v1
    using id test_mailbox_state [of _ E None x]
    by (cases "validate_test_request (request_of_account b u1 v1)") (auto simp: bind_liftE intro!: keep_state_bind)
  show ?thesis unfolding retest_def by (rule keep_state_bind, simp, rule keep_state_bind, simp, rule v)
qed

text \<open>No operation of the service touches the number of committed events.\<close>

definition uncommitted :: "uow \<Rightarrow> bool" where
  "uncommitted x \<longleftrightarrow> committed x = 0"

lemma un_in_tx [intro]: "keeps uncommitted (in_tx m)"
  by (rule keepsI) (simp add: in_tx_def uncommitted_def split: prod.splits)

lemma un_defer [intro]: "keeps uncommitted (defer_status i)"
  by (auto simp: defer_status_def uncommitted_def)

lemma un_read [intro]: "keeps P (\<lambda>x. (f x, x))"
  by (simp add: keeps_def)

lemma un_present [intro]: "keeps P (present e v)"
  by (auto simp: present_def split: option.split)

lemma un_visible [intro]: "keeps P (visible_account sc i)"
  unfolding visible_account_def by (intro keeps_bindM keeps_liftE keeps_getM un_present)

lemma un_retest [intro]: "keeps P (retest E p a)"
  by (rule keepsI) (simp add: retest_state)

lemma un_crm_scope [intro]: "keeps P crm_scope"
  unfolding crm_scope_def by (rule keeps_bindM) (auto split: option.split)

lemma un_reloaded [intro]: "keeps P (reloaded i)"
  unfolding reloaded_def by (intro keeps_bindM keeps_getM un_present keeps_ret)

lemma un_update: "keeps uncommitted (update_mailbox E now sc i p)"
  unfolding update_mailbox_def
  by (intro keeps_bindM un_visible keeps_if keeps_throw un_in_tx un_reloaded un_retest keeps_ret keeps_liftE keeps_getM un_present un_defer)

lemma un_set_active: "keeps uncommitted (set_active now sc i b)"
  unfolding set_active_def by (intro keeps_bindM un_visible un_in_tx keeps_getM un_present un_defer keeps_ret)

lemma un_ext_update: "keeps uncommitted (ext_update E now i p)"
  unfolding ext_update_def
  by (intro keeps_bindM un_crm_scope keeps_if keeps_liftE un_update un_set_active un_visible keeps_ret keeps_getM un_present)

lemma in_session_Inl:
  assumes "in_session m w = (Inl e, x)"
  shows "accounts (u_db x) = accounts (wdb w) \<and> msgs (u_db x) = msgs (wdb w) \<and> users (u_db x) = users (wdb w) \<and>
    (keeps uncommitted m \<longrightarrow> pending x = [])"
  using assms keepsD [of uncommitted m "\<lparr>u_db = wdb w, pending = [], committed = 0\<rparr>"]
  by (auto simp: in_session_def begin_block_def discard_pending_def uncommitted_def split: prod.splits sum.splits)

section \<open>Creating\<close>

lemma run_task_probe: "run_task (test_credentials s env q) = Inr x \<Longrightarrow> probe_passed s env q"
proof -
  assume a: "run_task (test_credentials s env q) = Inr x"
  obtain r t' where "test_credentials s env q (0, []) = (Done r, t', [])" "case r of Inl e \<Rightarrow> \<not> isinstance e ETimeoutError | Inr x \<Rightarrow> x = both_ok \<and> probe_passed s env q"
    using probe_run [of s env q 0] by blast
  then show ?thesis using a by (simp add: run_task_def)
qed

lemma in_tx_InrD: "in_tx m x = (Inr v, x') \<Longrightarrow> m (u_db x) = (Inr v, u_db x') \<and> pending x' = pending x \<and> committed x' = committed x"
  by (auto simp: in_tx_def split: prod.splits)

lemma insert_InrD:
  assumes "insert_with_id now v d = (Inr a, d')"
  shows "d' = d\<lparr>accounts := accounts d @ [a]\<rparr> \<and> accounts_ok d' \<and> acc_id a = acc_id v \<and> acc_user_id a = acc_user_id v \<and>
    email a = email v \<and> encrypted_password a = encrypted_password v \<and> imap_host a = imap_host v \<and> imap_port a = imap_port v \<and>
    smtp_host a = smtp_host v \<and> smtp_port a = smtp_port v \<and> is_active a \<and> consecutive_failures a = 0 \<and> last_synced_uidnext a = None"
  using assms by (auto simp: insert_with_id_def insert_account_def bindM_app blank_account_def split: prod.splits sum.splits dest!: write_accounts_InrD)

lemma find_by_user_email_none:
  assumes "find_by_user_email t e d = Inr None" and "b \<in> set (accounts d)" and "acc_user_id b = t"
  shows "py_lower (email b) \<noteq> py_lower e"
proof
  assume "py_lower (email b) = py_lower e"
  then have "b \<in> set (filter (\<lambda>a. acc_user_id a = t \<and> py_lower (email a) = py_lower e) (accounts d))" using assms(2,3) by simp
  then show False using assms(1) by (cases "filter (\<lambda>a. acc_user_id a = t \<and> py_lower (email a) = py_lower e) (accounts d)")
      (auto simp: find_by_user_email_def scalar_one_or_none_def split: list.splits)
qed

lemma store_mailbox_Inr:
  assumes "store_mailbox E now t p x = (Inr dto, x')"
  shows "\<exists>a enc. u_db x' = (u_db x)\<lparr>acc_seq := acc_seq (u_db x) + 1, accounts := accounts (u_db x) @ [a]\<rparr> \<and> accounts_ok (u_db x') \<and>
    dto_id dto = acc_id a \<and> acc_id a = acc_seq (u_db x) \<and> acc_user_id a = t \<and> email a = lf_email p \<and> is_active a \<and>
    encrypt_for E 0 (lf_password p) (acc_id a) = Inr enc \<and> encrypted_password a = Some enc \<and>
    imap_host a = lf_imap_host p \<and> smtp_host a = lf_smtp_host p"
proof -
  from assms obtain owner where k1: "bindM (in_tx next_account_id) (\<lambda>i.
     bindM (liftE (encrypt_for E 0 (lf_password p) i)) (\<lambda>enc.
     bindM (liftE (if given (lf_smtp_password p) then map_sum id Some (encrypt_for E 1 (the (lf_smtp_password p)) i) else Inr None)) (\<lambda>smtp_enc.
     bindM (catchM (in_tx (insert_with_id now (new_row p i t enc smtp_enc)))
        (\<lambda>e. if isinstance e EIntegrityError then throw email_conflict else throw e)) (\<lambda>a.
     ret (to_dto a owner))))) x = (Inr dto, x')"
    unfolding store_mailbox_def by (rule present_InrE)
  let ?x1 = "x\<lparr>u_db := (u_db x)\<lparr>acc_seq := acc_seq (u_db x) + 1\<rparr>\<rparr>"
  have n: "in_tx next_account_id x = (Inr (acc_seq (u_db x)), ?x1)" by (simp add: in_tx_def next_account_id_def)
  from k1 obtain enc smtp_enc where e: "encrypt_for E 0 (lf_password p) (acc_seq (u_db x)) = Inr enc"
    and k2: "bindM (catchM (in_tx (insert_with_id now (new_row p (acc_seq (u_db x)) t enc smtp_enc)))
        (\<lambda>e. if isinstance e EIntegrityError then throw email_conflict else throw e)) (\<lambda>a. ret (to_dto a owner)) ?x1 = (Inr dto, x')"
    by (auto simp: bindM_app [of "in_tx next_account_id"] n elim!: liftE_InrE)
  obtain r y where i: "in_tx (insert_with_id now (new_row p (acc_seq (u_db x)) t enc smtp_enc)) ?x1 = (r, y)" by (rule prod.exhaust)
  from k2 i obtain a where a: "r = Inr a" "y = x'" "dto = to_dto a owner"
    by (auto simp: bindM_app catchM_app split: sum.splits if_splits)
  have "insert_with_id now (new_row p (acc_seq (u_db x)) t enc smtp_enc) (u_db ?x1) = (Inr a, u_db x')"
    using in_tx_InrD [of _ ?x1 a x'] i a by simp
  from insert_InrD [OF this] e a(3) show ?thesis
    by (intro exI [of _ a] exI [of _ enc]) (auto simp: new_row_def to_dto_def)
qed

lemma create_mailbox_Inr:
  assumes "create_mailbox E now sc p x = (Inr dto, x')" and "cr_target_user_id p = Some t"
  shows "\<exists>q. as_test_request p = Inr q \<and> probe_passed (sv_settings E) (sv_net E) q \<and> store_mailbox E now t p x = (Inr dto, x') \<and>
    (\<forall>b \<in> set (accounts (u_db x)). acc_user_id b = t \<longrightarrow> py_lower (email b) \<noteq> py_lower (lf_email p))"
proof -
  from assms obtain f where f: "find_by_user_email t (lf_email p) (u_db x) = Inr f" and fn: "f = None"
    and k: "bindM (liftE (as_test_request p)) (\<lambda>q. bindM (test_mailbox E q None) (\<lambda>_. store_mailbox E now t p)) x = (Inr dto, x')"
    by (auto simp: create_mailbox_def resolve_target_user_id_def bindM_app [of "if _ then _ else _"] bindM_app [of "getM _"]
        bindM_app [of "\<lambda>x. (find_by_user_email _ _ (u_db x), x)"] bindM_app [of "case _ of None \<Rightarrow> _ | Some _ \<Rightarrow> _"]
        split: sum.splits if_splits option.splits)
  from k obtain q where q: "as_test_request p = Inr q" and k2: "bindM (test_mailbox E q None) (\<lambda>_. store_mailbox E now t p) x = (Inr dto, x')"
    by (rule liftE_InrE)
  have id: "tr_account_id q = None" using q by (auto simp: as_test_request_def validate_test_request_def split: if_splits)
  from k2 obtain v y where t: "test_mailbox E q None x = (Inr v, y)" "store_mailbox E now t p y = (Inr dto, x')" by (rule bindM_InrE)
  have "y = x" using test_mailbox_state [OF id, of E None x] t(1) by simp
  moreover have "probe_passed (sv_settings E) (sv_net E) q"
    using t(1) id run_task_probe by (auto simp: test_mailbox_def require_def split: if_splits)
  moreover have "\<forall>b \<in> set (accounts (u_db x)). acc_user_id b = t \<longrightarrow> py_lower (email b) \<noteq> py_lower (lf_email p)"
    using find_by_user_email_none f fn by blast
  ultimately show ?thesis using q t(2) by blast
qed


section \<open>The abstract patch\<close>

record mailbox_view =
  vw_email :: pystr
  vw_display_name :: "pystr option"
  vw_imap :: "pystr \<times> int \<times> bool"
  vw_smtp :: "pystr \<times> int \<times> bool \<times> bool"
  vw_login :: "pystr option"
  vw_active :: bool
  vw_error :: "pystr option"
  vw_failures :: int
  vw_alert :: "int option"

definition view_of :: "account \<Rightarrow> mailbox_view" where
  "view_of a = \<lparr>vw_email = email a, vw_display_name = display_name a, vw_imap = (imap_host a, imap_port a, imap_ssl a),
     vw_smtp = (smtp_host a, smtp_port a, smtp_ssl a, smtp_starttls a), vw_login = normalize_optional_login (smtp_username a),
     vw_active = is_active a, vw_error = last_sync_error a, vw_failures = consecutive_failures a, vw_alert = disabled_alert_sent_at a\<rparr>"

definition healthy :: "mailbox_view \<Rightarrow> mailbox_view" where
  "healthy v = v\<lparr>vw_active := True, vw_error := None, vw_failures := 0, vw_alert := None\<rparr>"

definition spec_fields :: "'m patch_fields_scheme \<Rightarrow> mailbox_view \<Rightarrow> mailbox_view" where
  \<comment> \<open>given fields replace, absent and empty ones keep; a new secret makes the mailbox healthy\<close>
  "spec_fields p v = (let v1 = v\<lparr>vw_email := or_else (pf_email p) (vw_email v),
       vw_display_name := (if trim_dn (pf_display_name p) = None then vw_display_name v else trim_dn (pf_display_name p)),
       vw_imap := (case vw_imap v of (h, n, b) \<Rightarrow> (or_else (pf_imap_host p) h, or_int (pf_imap_port p) n, or_kept (pf_imap_ssl p) b)),
       vw_smtp := (case vw_smtp v of (h, n, b, c) \<Rightarrow> (or_else (pf_smtp_host p) h, or_int (pf_smtp_port p) n, or_kept (pf_smtp_ssl p) b,
          or_kept (pf_smtp_starttls p) c)),
       vw_login := (if pf_smtp_username p = None then vw_login v else pf_smtp_username p)\<rparr>
     in if given (pf_password p) \<or> given (pf_smtp_password p) then healthy v1 else v1)"

definition spec_active :: "bool \<Rightarrow> mailbox_view \<Rightarrow> mailbox_view" where
  "spec_active b v = (if b then healthy v else v\<lparr>vw_active := False\<rparr>)"

definition spec_patch :: "ext_update_request \<Rightarrow> mailbox_view \<Rightarrow> mailbox_view" where
  "spec_patch p v = (let v1 = spec_fields p v in if xu_set_is_active p then spec_active (xu_is_active p = Some True) v1 else v1)"

definition patched :: "int \<Rightarrow> (account \<Rightarrow> account \<Rightarrow> bool) \<Rightarrow> db \<Rightarrow> db \<Rightarrow> bool" where
  \<comment> \<open>only row \<open>i\<close> changed, by \<open>R\<close>\<close>
  "patched i R d d' \<longleftrightarrow> msgs d' = msgs d \<and> users d' = users d \<and> acc_seq d' = acc_seq d \<and> msg_seq d' = msg_seq d \<and> usr_seq d' = usr_seq d \<and>
     map acc_id (accounts d') = map acc_id (accounts d) \<and> (accounts_ok d \<longrightarrow> accounts_ok d') \<and>
     (\<forall>j. j \<noteq> i \<longrightarrow> get_by_id j d' = get_by_id j d) \<and>
     (\<exists>a a'. get_by_id i d = Some a \<and> get_by_id i d' = Some a' \<and> R a a')"

lemma patched_refl: "get_by_id i d = Some a \<Longrightarrow> R a a \<Longrightarrow> patched i R d d"
  by (auto simp: patched_def)

lemma patched_trans: "patched i R d d1 \<Longrightarrow> patched i S d1 d2 \<Longrightarrow> (\<And>a b c. R a b \<Longrightarrow> S b c \<Longrightarrow> T a c) \<Longrightarrow> patched i T d d2"
  unfolding patched_def by auto

lemma patched_mono: "patched i R d d' \<Longrightarrow> (\<And>a b. R a b \<Longrightarrow> S a b) \<Longrightarrow> patched i S d d'"
  unfolding patched_def by blast

lemma foldl_key: "\<forall>f \<in> set kws. \<forall>a. acc_id (f a) = acc_id a \<Longrightarrow> acc_id (foldl (\<lambda>x f. f x) a kws) = acc_id a"
  by (induction kws arbitrary: a) auto

lemma update_fields_patched:
  assumes "in_tx (update_fields now i kws) x = (Inr v, x')" and "get_by_id i (u_db x) = Some a"
    and k: "\<forall>f \<in> set kws. \<forall>a. acc_id (f a) = acc_id a"
  shows "patched i (\<lambda>a a'. a' = (if kws = [] then a else (foldl (\<lambda>x f. f x) a kws)\<lparr>updated_at := now\<rparr>)) (u_db x) (u_db x') \<and>
    pending x' = pending x \<and> committed x' = committed x"
proof (cases "kws = []")
  case True
  then have "x' = x" using assms(1) by (simp add: in_tx_def update_fields_def)
  then show ?thesis using True assms(2) by (simp add: patched_refl)
next
  case False
  let ?f = "\<lambda>a. (foldl (\<lambda>x f. f x) a kws)\<lparr>updated_at := now\<rparr>"
  note t = in_tx_InrD [OF assms(1)]
  have w: "u_db x' = (u_db x)\<lparr>accounts := update_where (\<lambda>a. acc_id a = i) ?f (accounts (u_db x))\<rparr>" "accounts_ok (u_db x')"
    using t False by (auto simp: update_fields_def update_row_def dest: write_accounts_InrD)
  have key: "acc_id (?f b) = acc_id b" for b using foldl_key [OF k, of b] by simp
  have m: "map acc_id (update_where (\<lambda>a. acc_id a = i) ?f (accounts (u_db x))) = map acc_id (accounts (u_db x))"
    by (rule map_update_where) (rule key)
  have same: "get_by_id i (u_db x') = Some (?f a)"
    using find_update_same [of acc_id ?f i "accounts (u_db x)" a] key assms(2) by (simp add: w(1) get_by_id_def)
  have other: "get_by_id j (u_db x') = get_by_id j (u_db x)" if "j \<noteq> i" for j
    using find_update_other [of acc_id ?f i j "accounts (u_db x)"] key that by (simp add: w(1) get_by_id_def)
  show ?thesis using t w m same other assms(2) False by (auto simp: patched_def)
qed

lemma trim_dn_idem [simp]: "trim_dn (trim_dn v) = trim_dn v"
  by (auto simp: trim_dn_def split: option.split)

lemma view_stamp [simp]: "view_of (a\<lparr>updated_at := t\<rparr>) = view_of a" "view_of (a\<lparr>encrypted_password := e\<rparr>) = view_of a"
  "view_of (a\<lparr>smtp_encrypted_password := e\<rparr>) = view_of a"
  by (simp_all add: view_of_def)

lemma view_reset [simp]: "view_of (reset_health a) = healthy (view_of a)"
  by (simp add: view_of_def healthy_def reset_health_def)

definition good_patch :: "update_request \<Rightarrow> bool" where
  \<comment> \<open>what validation guarantees\<close>
  "good_patch q \<longleftrightarrow> \<not> ur_clear_display_name q \<and> trim_dn (pf_display_name q) = pf_display_name q \<and>
     normalize_optional_login (pf_smtp_username q) = pf_smtp_username q"

lemma or_else_idem [simp]: "or_else v (or_else v t) = or_else v t"
  by (simp add: or_else_def split: option.split)

lemma set_active_Inr:
  assumes "set_active now sc i b x = (Inr dto, x')"
  shows "patched i (\<lambda>a a'. view_of a' = spec_active b (view_of a)) (u_db x) (u_db x') \<and> pending x' = pending x @ [i]"
proof -
  let ?kws = "if b then [reset_health] else [\<lambda>a. a\<lparr>is_active := False\<rparr>]"
  from assms obtain a where a: "get_by_id i (u_db x) = Some a" and k: "bindM (in_tx (update_fields now i ?kws)) (\<lambda>_.
     bindM (bindM (getM (\<lambda>x. get_by_id i (u_db x))) (present assertion_error)) (\<lambda>r.
     bindM (defer_status i) (\<lambda>_.
     bindM (bindM (getM (\<lambda>x. user_by_id (acc_user_id r) (u_db x))) (present assertion_error)) (\<lambda>o1. ret (to_dto r o1))))) x = (Inr dto, x')"
    unfolding set_active_def by (rule visible_InrE)
  from k obtain v y where u: "in_tx (update_fields now i ?kws) x = (Inr v, y)" and k2: "bindM (bindM (getM (\<lambda>x. get_by_id i (u_db x))) (present assertion_error)) (\<lambda>r.
     bindM (defer_status i) (\<lambda>_.
     bindM (bindM (getM (\<lambda>x. user_by_id (acc_user_id r) (u_db x))) (present assertion_error)) (\<lambda>o1. ret (to_dto r o1)))) y = (Inr dto, x')"
    by (rule bindM_InrE)
  have "\<forall>f \<in> set ?kws. \<forall>a. acc_id (f a) = acc_id a" by (simp add: reset_health_def)
  note up = update_fields_patched [OF u a this]
  have x': "x' = y\<lparr>pending := pending y @ [i]\<rparr>"
    using k2 by (auto simp: bind_present defer_status_def bindM_app [of "modifyM _"] split: option.splits)
  have "patched i (\<lambda>a a'. view_of a' = spec_active b (view_of a)) (u_db x) (u_db y)"
    by (rule patched_mono [OF conjunct1 [OF up]], cases b) (auto simp: spec_active_def view_reset, auto simp: view_of_def)
  then show ?thesis using up x' by simp
qed


lemma view_of_id [simp]: "acc_id (reset_health a) = acc_id a"
  by (simp add: reset_health_def)

lemma dn_fields_view:
  assumes "good_patch q"
  shows "view_of (foldl (\<lambda>x f. f x) a (dn_fields q)) =
    (view_of a)\<lparr>vw_display_name := (if trim_dn (pf_display_name q) = None then display_name a else trim_dn (pf_display_name q))\<rparr>"
    and "\<forall>f \<in> set (dn_fields q). \<forall>a. acc_id (f a) = acc_id a"
  using assms by (auto simp: dn_fields_def good_patch_def view_of_def)

definition put_merged :: "update_request \<Rightarrow> account \<Rightarrow> account \<Rightarrow> account" where
  "put_merged q a r = r\<lparr>email := email (merged q a), imap_host := imap_host (merged q a),
     imap_port := imap_port (merged q a), imap_ssl := imap_ssl (merged q a), smtp_host := smtp_host (merged q a),
     smtp_port := smtp_port (merged q a), smtp_ssl := smtp_ssl (merged q a), smtp_starttls := smtp_starttls (merged q a),
     smtp_username := smtp_username (merged q a)\<rparr>"

lemma put_merged_abs: "(\<lambda>r. r\<lparr>email := email (merged q a), imap_host := imap_host (merged q a),
     imap_port := imap_port (merged q a), imap_ssl := imap_ssl (merged q a), smtp_host := smtp_host (merged q a),
     smtp_port := smtp_port (merged q a), smtp_ssl := smtp_ssl (merged q a), smtp_starttls := smtp_starttls (merged q a),
     smtp_username := smtp_username (merged q a)\<rparr>) = put_merged q a"
  by (rule ext) (simp add: put_merged_def)

lemma merged_view:
  assumes "good_patch q"
  shows "view_of (put_merged q a a) =
    (view_of a)\<lparr>vw_email := or_else (pf_email q) (email a),
       vw_imap := (or_else (pf_imap_host q) (imap_host a), or_int (pf_imap_port q) (imap_port a), or_kept (pf_imap_ssl q) (imap_ssl a)),
       vw_smtp := (or_else (pf_smtp_host q) (smtp_host a), or_int (pf_smtp_port q) (smtp_port a), or_kept (pf_smtp_ssl q) (smtp_ssl a),
          or_kept (pf_smtp_starttls q) (smtp_starttls a)),
       vw_login := (if pf_smtp_username q = None then vw_login (view_of a) else pf_smtp_username q)\<rparr>"
  using assms by (auto simp: put_merged_def view_of_def merged_def good_patch_def normalize_login_idem)

lemma spec_fields_view:
  "spec_fields q (view_of a) = (let v1 = (view_of a)\<lparr>vw_email := or_else (pf_email q) (email a),
       vw_imap := (or_else (pf_imap_host q) (imap_host a), or_int (pf_imap_port q) (imap_port a), or_kept (pf_imap_ssl q) (imap_ssl a)),
       vw_smtp := (or_else (pf_smtp_host q) (smtp_host a), or_int (pf_smtp_port q) (smtp_port a), or_kept (pf_smtp_ssl q) (smtp_ssl a),
          or_kept (pf_smtp_starttls q) (smtp_starttls a)),
       vw_login := (if pf_smtp_username q = None then vw_login (view_of a) else pf_smtp_username q),
       vw_display_name := (if trim_dn (pf_display_name q) = None then display_name a else trim_dn (pf_display_name q))\<rparr>
     in if creds_changed q then healthy v1 else v1)"
  by (simp add: spec_fields_def creds_changed_def view_of_def Let_def)

lemma unchanged: "\<not> changed v x \<Longrightarrow> or_else v x = x" "\<not> changed n y \<Longrightarrow> or_int n y = y" "\<not> changed b z \<Longrightarrow> or_kept b z = z"
  by (auto simp: changed_def or_else_def or_int_def or_kept_def)

lemma spec_fields_oauth:
  assumes "good_patch q" and "\<not> oauth_forbidden_changes q a"
  shows "spec_fields q (view_of a) = view_of (foldl (\<lambda>x f. f x) a (dn_fields q))" and "\<not> creds_changed q"
proof -
  show c: "\<not> creds_changed q" using assms(2) by (simp add: oauth_forbidden_changes_def creds_changed_def)
  have n: "\<not> changed (pf_email q) (email a)" "\<not> changed (pf_imap_host q) (imap_host a)" "\<not> changed (pf_imap_port q) (imap_port a)"
    "\<not> changed (pf_imap_ssl q) (imap_ssl a)" "\<not> changed (pf_smtp_host q) (smtp_host a)" "\<not> changed (pf_smtp_port q) (smtp_port a)"
    "\<not> changed (pf_smtp_ssl q) (smtp_ssl a)" "\<not> changed (pf_smtp_starttls q) (smtp_starttls a)"
    using assms(2) by (simp_all add: oauth_forbidden_changes_def)
  have l: "(if pf_smtp_username q = None then vw_login (view_of a) else pf_smtp_username q) = vw_login (view_of a)"
    using assms by (auto simp: oauth_forbidden_changes_def good_patch_def view_of_def)
  show "spec_fields q (view_of a) = view_of (foldl (\<lambda>x f. f x) a (dn_fields q))"
    unfolding spec_fields_view dn_fields_view(1) [OF assms(1)] l by (simp add: c n unchanged Let_def) (simp add: view_of_def)
qed

lemma secret_writes:
  assumes "(if given v then map_sum id (\<lambda>b. [F b]) r else Inr []) = Inr kws"
  shows "kws = [] \<or> (\<exists>b. kws = [F b])"
  using assms by (cases r) (auto split: if_splits)

lemma row_writes_view:
  assumes "good_patch q" and "pw = [] \<or> (\<exists>b. pw = [\<lambda>r. r\<lparr>encrypted_password := Some b\<rparr>])"
    and "spw = [] \<or> (\<exists>b. spw = [\<lambda>r. r\<lparr>smtp_encrypted_password := Some b\<rparr>])"
  shows "view_of (foldl (\<lambda>x f. f x) a ([put_merged q a] @ pw @ spw @ dn_fields q @ (if creds_changed q then [reset_health] else []))) =
    spec_fields q (view_of a)"
proof -
  let ?b = "foldl (\<lambda>x f. f x) (foldl (\<lambda>x f. f x) (put_merged q a a) pw) spw"
  have b: "view_of ?b = view_of (put_merged q a a)" using assms(2,3) by auto
  have d: "display_name ?b = display_name a" using assms(2,3) by (auto simp: put_merged_def)
  show ?thesis
    using merged_view [OF assms(1), of a] dn_fields_view(1) [OF assms(1), of ?b]
    by (simp add: b d spec_fields_view Let_def del: if_split cong: if_cong)
qed

lemma row_writes_key:
  assumes "good_patch q" and "pw = [] \<or> (\<exists>b. pw = [\<lambda>r. r\<lparr>encrypted_password := Some b\<rparr>])"
    and "spw = [] \<or> (\<exists>b. spw = [\<lambda>r. r\<lparr>smtp_encrypted_password := Some b\<rparr>])"
  shows "\<forall>f \<in> set ([put_merged q a] @ pw @ spw @ dn_fields q @ (if creds_changed q then [reset_health] else [])). \<forall>b. acc_id (f b) = acc_id b"
  using assms dn_fields_view(2) [OF assms(1)] by (auto simp: put_merged_def)

lemma write_row_Inr:
  assumes "bindM (in_tx (update_fields now i kws)) (\<lambda>_.
       bindM (bindM (getM (\<lambda>x. get_by_id i (u_db x))) (present assertion_error)) (\<lambda>r.
       bindM (if c then defer_status i else ret ()) (\<lambda>_.
       bindM (bindM (getM (\<lambda>x. user_by_id (acc_user_id r) (u_db x))) (present assertion_error)) (\<lambda>o1. ret (to_dto r o1))))) x = (Inr dto, x')"
    and "get_by_id i (u_db x) = Some a" and "\<forall>f \<in> set kws. \<forall>a. acc_id (f a) = acc_id a" and "kws \<noteq> []"
    and "view_of (foldl (\<lambda>x f. f x) a kws) = V (view_of a)"
  shows "patched i (\<lambda>a a'. view_of a' = V (view_of a)) (u_db x) (u_db x') \<and> pending x' = pending x @ (if c then [i] else [])"
proof -
  from assms(1) obtain v y where u: "in_tx (update_fields now i kws) x = (Inr v, y)" and
    k: "bindM (bindM (getM (\<lambda>x. get_by_id i (u_db x))) (present assertion_error)) (\<lambda>r.
       bindM (if c then defer_status i else ret ()) (\<lambda>_.
       bindM (bindM (getM (\<lambda>x. user_by_id (acc_user_id r) (u_db x))) (present assertion_error)) (\<lambda>o1. ret (to_dto r o1)))) y = (Inr dto, x')"
    by (rule bindM_InrE)
  have x': "x' = y\<lparr>pending := pending y @ (if c then [i] else [])\<rparr>"
    using k by (cases c) (auto simp: bind_present defer_status_def bindM_app [of "modifyM _"] bindM_app [of "Pair _"] split: option.splits)
  note up = update_fields_patched [OF u assms(2,3)]
  have "patched i (\<lambda>a a'. view_of a' = V (view_of a)) (u_db x) (u_db y)"
    using conjunct1 [OF up] assms(2,4,5) by (auto simp: patched_def)
  then show ?thesis using up x' by simp
qed

lemma update_mailbox_Inr:
  assumes "update_mailbox E now sc i q x = (Inr dto, x')" and "good_patch q"
  shows "patched i (\<lambda>a a'. view_of a' = spec_fields q (view_of a)) (u_db x) (u_db x') \<and>
    pending x' = pending x @ (if creds_changed q then [i] else [])"
proof -
  from assms(1) obtain a where a: "get_by_id i (u_db x) = Some a" and k: "(if auth_type a = ''oauth_outlook'' then
       (if oauth_forbidden_changes q a
        then throw (with_field ''auth_type'' (raise_domain ValidationError ''OAuth accounts allow changing only the display name''))
        else seqM (in_tx (update_fields now i (dn_fields q))) (reloaded i))
     else if smtp_ssl (merged q a) \<and> smtp_starttls (merged q a)
       then throw (raise_domain ConflictError ''smtp_ssl and smtp_starttls are mutually exclusive'')
     else
       bindM (if creds_changed q then retest E q a else ret ()) (\<lambda>_.
       bindM (liftE (if given (pf_password q) then map_sum id (\<lambda>b. [\<lambda>r. r\<lparr>encrypted_password := Some b\<rparr>]) (encrypt_for E 0 (the (pf_password q)) (acc_id a)) else Inr [])) (\<lambda>pw.
       bindM (liftE (if given (pf_smtp_password q) then map_sum id (\<lambda>b. [\<lambda>r. r\<lparr>smtp_encrypted_password := Some b\<rparr>]) (encrypt_for E 1 (the (pf_smtp_password q)) (acc_id a)) else Inr [])) (\<lambda>spw.
       bindM (in_tx (update_fields now i ([put_merged q a] @ pw @ spw @ dn_fields q @ (if creds_changed q then [reset_health] else [])))) (\<lambda>_.
       bindM (bindM (getM (\<lambda>x. get_by_id i (u_db x))) (present assertion_error)) (\<lambda>r.
       bindM (if creds_changed q then defer_status i else ret ()) (\<lambda>_.
       bindM (bindM (getM (\<lambda>x. user_by_id (acc_user_id r) (u_db x))) (present assertion_error)) (\<lambda>o1. ret (to_dto r o1))))))))) x = (Inr dto, x')"
    unfolding update_mailbox_def put_merged_abs by (rule visible_InrE)
  show ?thesis
  proof (cases "auth_type a = ''oauth_outlook''")
    case True
    then have ok: "\<not> oauth_forbidden_changes q a" using k by (auto split: if_splits)
    from k True ok obtain v y where u: "in_tx (update_fields now i (dn_fields q)) x = (Inr v, y)" and r: "reloaded i y = (Inr dto, x')"
      by (auto simp: bindM_app split: prod.splits sum.splits)
    have "x' = y" using r by (auto simp: reloaded_def bind_present split: option.splits)
    moreover note up = update_fields_patched [OF u a dn_fields_view(2) [OF assms(2)]]
    have "patched i (\<lambda>a a'. view_of a' = spec_fields q (view_of a)) (u_db x) (u_db y)"
    proof -
      have "\<exists>a a'. get_by_id i (u_db x) = Some a \<and> get_by_id i (u_db y) = Some a' \<and> view_of a' = spec_fields q (view_of a)"
        using conjunct1 [OF up] a spec_fields_oauth [OF assms(2) ok] by (auto simp: patched_def)
      then show ?thesis using conjunct1 [OF up] by (simp add: patched_def)
    qed
    ultimately show ?thesis using up spec_fields_oauth [OF assms(2) ok] by simp
  next
    case False
    have nc: "\<not> (smtp_ssl (merged q a) \<and> smtp_starttls (merged q a))" using k False by (auto split: if_splits)
    note k = k [unfolded if_not_P [OF False] if_not_P [OF nc]]
    from k obtain v0 y0 where r: "(if creds_changed q then retest E q a else ret ()) x = (Inr v0, y0)" and
      k0: "bindM (liftE (if given (pf_password q) then map_sum id (\<lambda>b. [\<lambda>r. r\<lparr>encrypted_password := Some b\<rparr>]) (encrypt_for E 0 (the (pf_password q)) (acc_id a)) else Inr [])) (\<lambda>pw.
       bindM (liftE (if given (pf_smtp_password q) then map_sum id (\<lambda>b. [\<lambda>r. r\<lparr>smtp_encrypted_password := Some b\<rparr>]) (encrypt_for E 1 (the (pf_smtp_password q)) (acc_id a)) else Inr [])) (\<lambda>spw.
       bindM (in_tx (update_fields now i ([put_merged q a] @ pw @ spw @ dn_fields q @ (if creds_changed q then [reset_health] else [])))) (\<lambda>_.
       bindM (bindM (getM (\<lambda>x. get_by_id i (u_db x))) (present assertion_error)) (\<lambda>r.
       bindM (if creds_changed q then defer_status i else ret ()) (\<lambda>_.
       bindM (bindM (getM (\<lambda>x. user_by_id (acc_user_id r) (u_db x))) (present assertion_error)) (\<lambda>o1. ret (to_dto r o1))))))) y0 = (Inr dto, x')"
      by (rule bindM_InrE)
    have y0: "y0 = x" using r retest_state [of E q a x] by (auto split: if_splits)
    from k0 obtain pw where pw: "(if given (pf_password q) then map_sum id (\<lambda>b. [\<lambda>r. r\<lparr>encrypted_password := Some b\<rparr>]) (encrypt_for E 0 (the (pf_password q)) (acc_id a)) else Inr []) = Inr pw" and
      k1: "bindM (liftE (if given (pf_smtp_password q) then map_sum id (\<lambda>b. [\<lambda>r. r\<lparr>smtp_encrypted_password := Some b\<rparr>]) (encrypt_for E 1 (the (pf_smtp_password q)) (acc_id a)) else Inr [])) (\<lambda>spw.
       bindM (in_tx (update_fields now i ([put_merged q a] @ pw @ spw @ dn_fields q @ (if creds_changed q then [reset_health] else [])))) (\<lambda>_.
       bindM (bindM (getM (\<lambda>x. get_by_id i (u_db x))) (present assertion_error)) (\<lambda>r.
       bindM (if creds_changed q then defer_status i else ret ()) (\<lambda>_.
       bindM (bindM (getM (\<lambda>x. user_by_id (acc_user_id r) (u_db x))) (present assertion_error)) (\<lambda>o1. ret (to_dto r o1)))))) y0 = (Inr dto, x')"
      by (rule liftE_InrE)
    from k1 obtain spw where spw: "(if given (pf_smtp_password q) then map_sum id (\<lambda>b. [\<lambda>r. r\<lparr>smtp_encrypted_password := Some b\<rparr>]) (encrypt_for E 1 (the (pf_smtp_password q)) (acc_id a)) else Inr []) = Inr spw" and
      k2: "bindM (in_tx (update_fields now i ([put_merged q a] @ pw @ spw @ dn_fields q @ (if creds_changed q then [reset_health] else [])))) (\<lambda>_.
       bindM (bindM (getM (\<lambda>x. get_by_id i (u_db x))) (present assertion_error)) (\<lambda>r.
       bindM (if creds_changed q then defer_status i else ret ()) (\<lambda>_.
       bindM (bindM (getM (\<lambda>x. user_by_id (acc_user_id r) (u_db x))) (present assertion_error)) (\<lambda>o1. ret (to_dto r o1))))) y0 = (Inr dto, x')"
      by (rule liftE_InrE)
    have "patched i (\<lambda>a a'. view_of a' = spec_fields q (view_of a)) (u_db x) (u_db x') \<and> pending x' = pending x @ (if creds_changed q then [i] else [])"
      by (rule write_row_Inr [where V = "spec_fields q", OF k2 [unfolded y0] a row_writes_key [OF assms(2) secret_writes [OF pw] secret_writes [OF spw], of a] _
            row_writes_view [OF assms(2) secret_writes [OF pw] secret_writes [OF spw], of a]]) simp
    then show ?thesis .
  qed
qed

section \<open>The patch endpoint\<close>

lemma crm_scope_InrE:
  assumes "bindM crm_scope f x = (Inr y, x')"
  obtains sc where "f sc x = (Inr y, x')"
  using assms by (auto simp: crm_scope_def bindM_app split: sum.splits option.splits)

lemma visible_state: "bindM (visible_account sc i) (\<lambda>_. ret ()) x = (Inr v, x') \<Longrightarrow> x' = x"
  by (erule visible_InrE) simp

lemma validated_fields:
  assumes "validate_update_request (patch_fields.extend (patch_fields.truncate p) \<lparr>ur_clear_display_name = False\<rparr>) = Inr q"
    and "validate_ext_update_request b = Inr p"
  shows "pf_email q = pf_email p" "pf_password q = pf_password p" "pf_display_name q = trim_dn (pf_display_name p)"
    "pf_imap_host q = pf_imap_host p" "pf_imap_port q = pf_imap_port p" "pf_imap_ssl q = pf_imap_ssl p" "pf_smtp_host q = pf_smtp_host p"
    "pf_smtp_port q = pf_smtp_port p" "pf_smtp_ssl q = pf_smtp_ssl p" "pf_smtp_starttls q = pf_smtp_starttls p"
    "pf_smtp_username q = pf_smtp_username p" "pf_smtp_password q = pf_smtp_password p" "\<not> ur_clear_display_name q"
    "normalize_optional_login (pf_smtp_username p) = pf_smtp_username p"
proof -
  have p: "normalize_optional_login (pf_smtp_username p) = pf_smtp_username p" "normalize_optional_secret (pf_smtp_password p) = pf_smtp_password p"
    using assms(2) by (auto simp: validate_ext_update_request_def scrub_patch_def normalize_login_idem normalize_secret_idem split: if_splits)
  have q: "q = (scrub_patch (patch_fields.extend (patch_fields.truncate p) \<lparr>ur_clear_display_name = False\<rparr>))\<lparr>pf_display_name := trim_dn (pf_display_name p)\<rparr>"
    using assms(1) by (auto simp: validate_update_request_def patch_fields.defs split: if_splits)
  show "pf_email q = pf_email p" "pf_password q = pf_password p" "pf_display_name q = trim_dn (pf_display_name p)"
    "pf_imap_host q = pf_imap_host p" "pf_imap_port q = pf_imap_port p" "pf_imap_ssl q = pf_imap_ssl p" "pf_smtp_host q = pf_smtp_host p"
    "pf_smtp_port q = pf_smtp_port p" "pf_smtp_ssl q = pf_smtp_ssl p" "pf_smtp_starttls q = pf_smtp_starttls p"
    "pf_smtp_username q = pf_smtp_username p" "pf_smtp_password q = pf_smtp_password p" "\<not> ur_clear_display_name q"
    "normalize_optional_login (pf_smtp_username p) = pf_smtp_username p"
    unfolding q by (simp_all add: scrub_patch_def patch_fields.defs p)
qed

lemma validated_good:
  assumes "validate_update_request (patch_fields.extend (patch_fields.truncate p) \<lparr>ur_clear_display_name = False\<rparr>) = Inr q"
    and "validate_ext_update_request b = Inr p"
  shows "good_patch q" and "spec_fields q = spec_fields p" and "creds_changed q \<longleftrightarrow> given (pf_password p) \<or> given (pf_smtp_password p)"
proof -
  note f = validated_fields [OF assms]
  show "good_patch q" by (simp add: good_patch_def f)
  show "spec_fields q = spec_fields p" by (rule ext) (simp add: spec_fields_def f)
  show "creds_changed q \<longleftrightarrow> given (pf_password p) \<or> given (pf_smtp_password p)" by (simp add: creds_changed_def f)
qed

lemma revalidation_accepts:
  assumes "validate_ext_update_request b = Inr p"
  obtains q where "validate_update_request (patch_fields.extend (patch_fields.truncate p) \<lparr>ur_clear_display_name = False\<rparr>) = Inr q"
proof -
  have "patch_ok (patch_fields.extend (patch_fields.truncate p) \<lparr>ur_clear_display_name = False\<rparr>)"
    using assms by (auto simp: validate_ext_update_request_def patch_ok_def scrub_patch_def patch_fields.defs opt_ok_login opt_ok_secret split: if_splits)
  then show ?thesis using that by (simp add: validate_update_request_def)
qed

lemma spec_fields_none: "\<not> has_account_fields p \<Longrightarrow> spec_fields p v = v"
  by (auto simp: has_account_fields_def spec_fields_def or_else_def or_int_def or_kept_def trim_dn_def given_def split: prod.split)

definition events_of :: "ext_update_request \<Rightarrow> nat" where
  \<comment> \<open>how many status events a patch owes\<close>
  "events_of p = (if given (pf_password p) \<or> given (pf_smtp_password p) then 1 else 0) + (if xu_set_is_active p then 1 else 0)"

lemma ext_update_Inr:
  assumes "validate_ext_update_request b = Inr p" and "ext_update E now i p x = (Inr dto, x')"
  shows "patched i (\<lambda>a a'. view_of a' = spec_patch p (view_of a)) (u_db x) (u_db x') \<and>
    pending x' = pending x @ replicate (events_of p) i \<and> (\<exists>a'. get_by_id i (u_db x') = Some a' \<and> dto = to_external_mailbox_dto a')"
proof -
  from assms(2) obtain sc where "bindM (if has_account_fields p
       then bindM (liftE (validate_update_request (patch_fields.extend (patch_fields.truncate p) \<lparr>ur_clear_display_name = False\<rparr>)))
         (\<lambda>q. bindM (update_mailbox E now sc i q) (\<lambda>_. ret ()))
       else ret ()) (\<lambda>_.
     bindM (if xu_set_is_active p then bindM (set_active now sc i (xu_is_active p = Some True)) (\<lambda>_. ret ())
       else if \<not> has_account_fields p then bindM (visible_account sc i) (\<lambda>_. ret ()) else ret ()) (\<lambda>_.
     bindM (bindM (getM (\<lambda>x. get_by_id i (u_db x))) (present not_found)) (\<lambda>a. ret (to_external_mailbox_dto a)))) x = (Inr dto, x')"
    unfolding ext_update_def by (rule crm_scope_InrE)
  then obtain v1 x1 where s1: "(if has_account_fields p
       then bindM (liftE (validate_update_request (patch_fields.extend (patch_fields.truncate p) \<lparr>ur_clear_display_name = False\<rparr>)))
         (\<lambda>q. bindM (update_mailbox E now sc i q) (\<lambda>_. ret ()))
       else ret ()) x = (Inr v1, x1)" and k1: "bindM (if xu_set_is_active p then bindM (set_active now sc i (xu_is_active p = Some True)) (\<lambda>_. ret ())
       else if \<not> has_account_fields p then bindM (visible_account sc i) (\<lambda>_. ret ()) else ret ()) (\<lambda>_.
     bindM (bindM (getM (\<lambda>x. get_by_id i (u_db x))) (present not_found)) (\<lambda>a. ret (to_external_mailbox_dto a))) x1 = (Inr dto, x')"
    by (rule bindM_InrE)
  from k1 obtain v2 x2 where s2: "(if xu_set_is_active p then bindM (set_active now sc i (xu_is_active p = Some True)) (\<lambda>_. ret ())
       else if \<not> has_account_fields p then bindM (visible_account sc i) (\<lambda>_. ret ()) else ret ()) x1 = (Inr v2, x2)"
     and k2: "bindM (bindM (getM (\<lambda>x. get_by_id i (u_db x))) (present not_found)) (\<lambda>a. ret (to_external_mailbox_dto a)) x2 = (Inr dto, x')"
    by (rule bindM_InrE)
  from k2 obtain a' where a': "get_by_id i (u_db x2) = Some a'" "x' = x2" "dto = to_external_mailbox_dto a'"
    by (rule present_InrE) simp
  let ?c = "given (pf_password p) \<or> given (pf_smtp_password p)"
  have fields: "patched i (\<lambda>a a'. view_of a' = spec_fields p (view_of a)) (u_db x) (u_db x1) \<and> pending x1 = pending x @ (if ?c then [i] else [])"
    if h: "has_account_fields p"
  proof -
    from s1 h obtain q d where q: "validate_update_request (patch_fields.extend (patch_fields.truncate p) \<lparr>ur_clear_display_name = False\<rparr>) = Inr q"
      and up: "update_mailbox E now sc i q x = (Inr d, x1)" by (auto simp: bindM_app elim!: liftE_InrE split: prod.splits sum.splits)
    from update_mailbox_Inr [OF up validated_good(1) [OF q assms(1)]] show ?thesis
      unfolding validated_good(2,3) [OF q assms(1)] .
  qed
  have nofields: "x1 = x" "\<not> ?c" if "\<not> has_account_fields p" using s1 that by (auto simp: has_account_fields_def given_def)
  have act: "patched i (\<lambda>a a'. view_of a' = spec_active (xu_is_active p = Some True) (view_of a)) (u_db x1) (u_db x2) \<and> pending x2 = pending x1 @ [i]"
    if "xu_set_is_active p"
  proof -
    from s2 that obtain d where "set_active now sc i (xu_is_active p = Some True) x1 = (Inr d, x2)"
      by (auto simp: bindM_app split: prod.splits sum.splits)
    from set_active_Inr [OF this] show ?thesis .
  qed
  have noact: "x2 = x1" if "\<not> xu_set_is_active p"
    using s2 that by (auto simp: visible_state split: if_splits)
  show ?thesis
  proof (cases "has_account_fields p")
    case True
    show ?thesis
    proof (cases "xu_set_is_active p")
      case act': True
      have "patched i (\<lambda>a a'. view_of a' = spec_patch p (view_of a)) (u_db x) (u_db x2)"
        by (rule patched_trans [OF conjunct1 [OF fields [OF True]] conjunct1 [OF act [OF act']]]) (simp add: spec_patch_def act')
      then show ?thesis using fields [OF True] act [OF act'] a' act' by (auto simp: events_of_def)
    next
      case False
      then show ?thesis using fields [OF True] noact [OF False] a' by (auto simp: events_of_def spec_patch_def)
    qed
  next
    case nof: False
    have here: "\<exists>a. get_by_id i (u_db x1) = Some a"
    proof (cases "xu_set_is_active p")
      case True
      then show ?thesis using act [OF True] by (auto simp: patched_def)
    next
      case False
      then show ?thesis using noact [OF False] a' by simp
    qed
    show ?thesis
    proof (cases "xu_set_is_active p")
      case True
      then show ?thesis using act [OF True] nofields [OF nof] a' by (simp add: events_of_def spec_patch_def spec_fields_none [OF nof])
    next
      case False
      have "patched i (\<lambda>a a'. view_of a' = spec_patch p (view_of a)) (u_db x) (u_db x2)"
        using here nofields(1) [OF nof] noact [OF False] False by (auto intro!: patched_refl simp: spec_patch_def spec_fields_none [OF nof])
      then show ?thesis using noact [OF False] nofields [OF nof] a' False by (simp add: events_of_def)
    qed
  qed
qed

lemma enqueue_status_run:
  "\<exists>k t. enqueue_crm_status_best_effort s i w = (Inr (), w\<lparr>status_q := replicate k (Some (status_payload i)) @ status_q w, rds_tick := t\<rparr>) \<and> k \<le> 1 \<and>
     (crm_status_enabled s \<longrightarrow> (\<forall>n. rds_up w n) \<longrightarrow> k = 1)"
proof (cases "crm_status_enabled s \<and> rds_up w (rds_tick w)")
  case True
  then have "enqueue_crm_status_best_effort s i w = (Inr (), w\<lparr>status_q := replicate 1 (Some (status_payload i)) @ status_q w, rds_tick := rds_tick w + 1\<rparr>)"
    by (simp add: enqueue_crm_status_best_effort_def enqueue_crm_status_def suppress_all_def catchM_app redis_def Let_def lpush_def)
  then show ?thesis by blast
next
  case False
  then have "\<exists>t. enqueue_crm_status_best_effort s i w = (Inr (), w\<lparr>status_q := replicate 0 (Some (status_payload i)) @ status_q w, rds_tick := t\<rparr>)"
    by (cases w) (auto simp: enqueue_crm_status_best_effort_def enqueue_crm_status_def suppress_all_def catchM_app redis_def Let_def)
  then obtain t where "enqueue_crm_status_best_effort s i w = (Inr (), w\<lparr>status_q := replicate 0 (Some (status_payload i)) @ status_q w, rds_tick := t\<rparr>)" ..
  then show ?thesis using False by (intro exI [of _ 0] exI [of _ t]) auto
qed

lemma flush_run:
  "\<exists>k t. for_each (enqueue_crm_status_best_effort s) (replicate n i) w =
       (Inr (), w\<lparr>status_q := replicate k (Some (status_payload i)) @ status_q w, rds_tick := t\<rparr>) \<and> k \<le> n \<and>
     (crm_status_enabled s \<longrightarrow> (\<forall>n. rds_up w n) \<longrightarrow> k = n)"
proof (induction n arbitrary: w)
  case 0
  show ?case by (rule exI [of _ 0], rule exI [of _ "rds_tick w"]) simp
next
  case (Suc n)
  obtain k t where 1: "enqueue_crm_status_best_effort s i w = (Inr (), w\<lparr>status_q := replicate k (Some (status_payload i)) @ status_q w, rds_tick := t\<rparr>)"
    "k \<le> 1" "crm_status_enabled s \<longrightarrow> (\<forall>n. rds_up w n) \<longrightarrow> k = 1" using enqueue_status_run [of s i w] by blast
  let ?v = "w\<lparr>status_q := replicate k (Some (status_payload i)) @ status_q w, rds_tick := t\<rparr>"
  obtain k' t' where 2: "for_each (enqueue_crm_status_best_effort s) (replicate n i) ?v =
      (Inr (), ?v\<lparr>status_q := replicate k' (Some (status_payload i)) @ status_q ?v, rds_tick := t'\<rparr>)" "k' \<le> n"
    "crm_status_enabled s \<longrightarrow> (\<forall>n. rds_up ?v n) \<longrightarrow> k' = n" using Suc.IH [of ?v] by blast
  have "for_each (enqueue_crm_status_best_effort s) (replicate (Suc n) i) w =
      (Inr (), w\<lparr>status_q := replicate (k' + k) (Some (status_payload i)) @ status_q w, rds_tick := t'\<rparr>)"
    using 1(1) 2(1) by (simp add: bindM_app replicate_add)
  then show ?case using 1(2,3) 2(2,3) by (intro exI [of _ "k' + k"] exI [of _ t']) auto
qed

lemma flush_returns: "\<exists>v. flush_crm_status_events s x w = (Inr (), v)"
proof -
  have "\<exists>v. for_each (enqueue_crm_status_best_effort s) l w = (Inr (), v)" for l
  proof (induction l arbitrary: w)
    case (Cons i l)
    obtain v where "enqueue_crm_status_best_effort s i w = (Inr (), v)" using enqueue_status_run by blast
    then show ?case using Cons.IH [of v] by (simp add: bindM_app)
  qed simp
  then show ?thesis by (simp add: flush_crm_status_events_def)
qed

lemma patch_body_run:
  assumes "validate_ext_update_request b = Inr p" and "patch_body E now i p w = (Inr dto, w1)"
  shows "\<exists>d1 a1 k t. w1 = w\<lparr>wdb := d1, status_q := replicate k (Some (status_payload i)) @ status_q w, rds_tick := t\<rparr> \<and>
    patched i (\<lambda>a a'. view_of a' = spec_patch p (view_of a)) (wdb w) d1 \<and> get_by_id i d1 = Some a1 \<and> dto = to_external_mailbox_dto a1 \<and>
    k \<le> events_of p \<and> (crm_status_enabled (sv_settings E) \<longrightarrow> (\<forall>n. rds_up w n) \<longrightarrow> k = events_of p)"
proof -
  let ?x0 = "\<lparr>u_db = wdb w, pending = [], committed = 0\<rparr>"
  obtain r x where sess: "in_session (ext_update E now i p) w = (r, x)" by (rule prod.exhaust)
  obtain dto' where r: "r = Inr dto'" using assms(2) sess by (cases r) (auto simp: patch_body_def)
  obtain y where run: "ext_update E now i p ?x0 = (Inr dto', y)" and x: "x = mark_pending_committed y"
    using sess r by (auto simp: in_session_def begin_block_def split: prod.splits sum.splits)
  note u = ext_update_Inr [OF assms(1) run]
  obtain k t where f: "for_each (enqueue_crm_status_best_effort (sv_settings E)) (replicate (events_of p) i) (w\<lparr>wdb := u_db y\<rparr>) =
      (Inr (), (w\<lparr>wdb := u_db y\<rparr>)\<lparr>status_q := replicate k (Some (status_payload i)) @ status_q (w\<lparr>wdb := u_db y\<rparr>), rds_tick := t\<rparr>)"
    "k \<le> events_of p" "crm_status_enabled (sv_settings E) \<longrightarrow> (\<forall>n. rds_up (w\<lparr>wdb := u_db y\<rparr>) n) \<longrightarrow> k = events_of p"
    using flush_run [of "sv_settings E" "events_of p" i "w\<lparr>wdb := u_db y\<rparr>"] by blast
  have q: "pending x = replicate (events_of p) i" "u_db x = u_db y" using u x by (simp_all add: mark_pending_committed_def)
  have "seqM (flush_crm_status_events (sv_settings E) x) (ret dto') (w\<lparr>wdb := u_db y\<rparr>) = (Inr dto, w1)"
    using assms(2) sess r q by (simp add: patch_body_def)
  then have w1: "dto = dto'" "w1 = w\<lparr>wdb := u_db y, status_q := replicate k (Some (status_payload i)) @ status_q w, rds_tick := t\<rparr>"
    using f(1) by (simp_all add: flush_crm_status_events_def q bindM_app)
  from u obtain a1 where "get_by_id i (u_db y) = Some a1" "dto' = to_external_mailbox_dto a1" by blast
  then show ?thesis using w1 u f(2,3) by (intro exI [of _ "u_db y"] exI [of _ a1] exI [of _ k] exI [of _ t]) simp
qed

text \<open>
  C6. The patch endpoint implements an abstract patch of the mailbox as its owner sees it: given fields replace, absent and
  empty ones keep, new secrets make the mailbox healthy, and the active flag is applied last. When a patch succeeds the view
  of that mailbox is exactly the specified one and the answer shows the stored row; every other mailbox, all messages and
  users and the constraints are as before.
\<close>

theorem patch_refines_spec:
  assumes "validate_ext_update_request b = Inr p" and "patch_body E now i p w = (Inr dto, w1)"
  shows "\<exists>a a'. get_by_id i (wdb w) = Some a \<and> get_by_id i (wdb w1) = Some a' \<and> view_of a' = spec_patch p (view_of a) \<and>
    dto = to_external_mailbox_dto a' \<and> (\<forall>j. j \<noteq> i \<longrightarrow> get_by_id j (wdb w1) = get_by_id j (wdb w)) \<and>
    map acc_id (accounts (wdb w1)) = map acc_id (accounts (wdb w)) \<and> msgs (wdb w1) = msgs (wdb w) \<and> users (wdb w1) = users (wdb w) \<and>
    (accounts_ok (wdb w) \<longrightarrow> accounts_ok (wdb w1))"
  using patch_body_run [OF assms] by (auto simp: patched_def)


text \<open>
  A patch does not check the address it stores. With a new password, an address without the shape of one is refused only
  by the internal re-validation of the probe request, outside the parsing of the body: the client sees 500, not 422.
  Nothing is written.
\<close>

theorem patch_bad_email_is_500:
  assumes "validate_ext_update_request b = Inr p" and "pf_email p = Some e" and "\<not> email_shape e" and "e \<noteq> []" and "given (pf_password p)"
    and "given (pf_smtp_password p) \<or> smtp_encrypted_password a = None"
    and "user_by_username CRM_SERVICE_USERNAME (wdb w) = Inr (Some y)" and "get_by_id i (wdb w) = Some a" and "auth_type a = ''password''"
    and "\<not> (or_kept (pf_smtp_ssl p) (smtp_ssl a) \<and> or_kept (pf_smtp_starttls p) (smtp_starttls a))"
    and "patch_body E now i p w = (r, w1)"
  shows "http_status 200 r = 500 \<and> (accounts (wdb w1), msgs (wdb w1), users (wdb w1)) = (accounts (wdb w), msgs (wdb w), users (wdb w)) \<and>
    w1\<lparr>wdb := wdb w\<rparr> = w"
proof -
  let ?x0 = "\<lparr>u_db = wdb w, pending = [], committed = 0\<rparr>"
  obtain q where q: "validate_update_request (patch_fields.extend (patch_fields.truncate p) \<lparr>ur_clear_display_name = False\<rparr>) = Inr q"
    using revalidation_accepts [OF assms(1)] .
  note f = validated_fields [OF q assms(1)]
  have h: "has_account_fields p" using assms(2) by (simp add: has_account_fields_def)
  let ?sc = "\<lparr>vs_user_id = usr_id y, vs_role = ''super_admin''\<rparr>"
  have scope: "crm_scope ?x0 = (Inr ?sc, ?x0)" using assms(7) by (simp add: crm_scope_def bindM_app)
  have vis: "visible_account ?sc i ?x0 = (Inr a, ?x0)"
    using assms(8) by (simp add: visible_account_def visible_user_ids_def is_super_admin_def get_for_user_ids_def present_def bindM_app)
  have em: "email (merged q a) = e" using f assms(2,4) by (simp add: merged_def or_else_def)
  have bad: "retest E q a ?x0 = (Inl pydantic_error, ?x0)"
    using assms(3,5,6) f em
    by (auto simp: retest_def bind_liftE validate_test_request_def request_of_account_def)
  have tls: "\<not> (smtp_ssl (merged q a) \<and> smtp_starttls (merged q a))" using assms(10) f by (simp add: merged_def)
  have up: "update_mailbox E now ?sc i q ?x0 = (Inl pydantic_error, ?x0)"
    using vis bad tls assms(5,9) f by (auto simp: update_mailbox_def bindM_app creds_changed_def)
  have run: "ext_update E now i p ?x0 = (Inl pydantic_error, ?x0)"
    using scope h q up by (simp add: ext_update_def bindM_app)
  have "r = Inl pydantic_error" "w1 = w\<lparr>wdb := rollback (wdb w) (wdb w)\<rparr>"
    using assms(11) run by (simp_all add: patch_body_def in_session_def begin_block_def discard_pending_def)
  then show ?thesis by (simp add: http_status_def dispatch_handler_def unhandled_handler_def rollback_def pydantic_error_def)
qed

section \<open>Examples\<close>

definition patch_world :: world where
  "patch_world = idle_world (sample_db\<lparr>accounts := [(mail_row 1)\<lparr>consecutive_failures := 3, last_sync_error := Some (u ''boom'')\<rparr>, mail_row 2], acc_seq := 100\<rparr>)"

definition patch_of :: "patch_fields \<Rightarrow> bool option option \<Rightarrow> ext_update_body" where
  "patch_of f active = patch_fields.extend f \<lparr>xb_is_active = active, xb_set_is_active = None\<rparr>"

definition patch_req :: ext_update_request where
  "patch_req = presence (patch_of (no_patch\<lparr>pf_email := Some (u ''new@b.co'')\<rparr>) (Some (Some True)))"

definition bad_email_req :: ext_update_request where
  "bad_email_req = presence (patch_of (no_patch\<lparr>pf_email := Some (u ''nonsense''), pf_password := Some (u ''pw'')\<rparr>) None)"

lemma reqs_valid: "validate_ext_update_request (patch_of (no_patch\<lparr>pf_email := Some (u ''new@b.co'')\<rparr>) (Some (Some True))) = Inr patch_req"
  "validate_ext_update_request (patch_of (no_patch\<lparr>pf_email := Some (u ''nonsense''), pf_password := Some (u ''pw'')\<rparr>) None) = Inr bad_email_req"
  by code_simp+

theorem patch_refines_spec_witness:
  "\<exists>dto w1 a'. patch_body toy_svc 5 1 patch_req patch_world = (Inr dto, w1) \<and> get_by_id 1 (wdb w1) = Some a' \<and>
     vw_email (view_of a') = u ''new@b.co'' \<and> vw_failures (view_of a') = 0"
proof -
  let ?r = "patch_body toy_svc 5 1 patch_req patch_world"
  obtain r w1 where d: "?r = (r, w1)" by (rule prod.exhaust)
  have "(case fst ?r of Inr _ \<Rightarrow> True | Inl _ \<Rightarrow> False)" by code_simp
  then obtain dto where r: "r = Inr dto" unfolding d by (cases r) auto
  obtain a a' where a: "get_by_id 1 (wdb patch_world) = Some a" "get_by_id 1 (wdb w1) = Some a'" "view_of a' = spec_patch patch_req (view_of a)"
    using patch_refines_spec [OF reqs_valid(1) d [unfolded r]] by blast
  have "map_option (\<lambda>a. (vw_email (spec_patch patch_req (view_of a)), vw_failures (spec_patch patch_req (view_of a)))) (get_by_id 1 (wdb patch_world))
      = Some (u ''new@b.co'', 0)" by code_simp
  with a show ?thesis unfolding d r by auto
qed


theorem patch_bad_email_is_500_witness:
  "\<exists>r w1. patch_body toy_svc 5 1 bad_email_req patch_world = (r, w1) \<and> http_status 200 r = 500"
proof -
  let ?r = "patch_body toy_svc 5 1 bad_email_req patch_world"
  obtain r w1 where d: "?r = (r, w1)" by (rule prod.exhaust)
  let ?a = "the (get_by_id 1 (wdb patch_world))"
  have "pf_email bad_email_req = Some (u ''nonsense'')" "\<not> email_shape (u ''nonsense'')" "u ''nonsense'' \<noteq> []" "given (pf_password bad_email_req)"
    "given (pf_smtp_password bad_email_req) \<or> smtp_encrypted_password ?a = None"
    "user_by_username CRM_SERVICE_USERNAME (wdb patch_world) = Inr (Some (hd (users sample_db)))" "get_by_id 1 (wdb patch_world) = Some ?a"
    "auth_type ?a = ''password''"
    "\<not> (or_kept (pf_smtp_ssl bad_email_req) (smtp_ssl ?a) \<and> or_kept (pf_smtp_starttls bad_email_req) (smtp_starttls ?a))" by code_simp+
  from patch_bad_email_is_500 [OF reqs_valid(2) this d] show ?thesis unfolding d by blast
qed

definition create_svc :: "aead \<Rightarrow> svc_env" where
  "create_svc A = toy_svc\<lparr>sv_aead := A, sv_net := slow_env (Inr ()) (Some 300) (Some 50) (Some 10)\<rparr>"

definition create_body :: ext_create_request where
  "create_body = \<lparr>lf_email = u ''me@b.co'', lf_password = u ''pw'', lf_imap_host = u ''imap.b.co'', lf_imap_port = 993, lf_imap_ssl = True,
     lf_smtp_host = u ''smtp.b.co'', lf_smtp_port = 465, lf_smtp_ssl = True, lf_smtp_starttls = False, lf_smtp_username = None,
     lf_smtp_password = None, xc_display_name = None\<rparr>"

lemma create_body_valid: "validate_ext_create_request create_body = Inr create_body"
  by code_simp

definition create_query :: create_request where
  "create_query = login_fields.extend (login_fields.truncate create_body) \<lparr>cr_display_name = None, cr_target_user_id = Some 1\<rparr>"

lemma create_steps:
  "crm_scope \<lparr>u_db = wdb patch_world, pending = [], committed = 0\<rparr>
     = (Inr \<lparr>vs_user_id = 1, vs_role = ''super_admin''\<rparr>, \<lparr>u_db = wdb patch_world, pending = [], committed = 0\<rparr>)"
  "validate_create_request (login_fields.extend (login_fields.truncate create_body) \<lparr>cr_display_name = xc_display_name create_body, cr_target_user_id = Some 1\<rparr>)
     = Inr create_query"
  "resolve_target_user_id \<lparr>vs_user_id = 1, vs_role = ''super_admin''\<rparr> (cr_target_user_id create_query) \<lparr>u_db = wdb patch_world, pending = [], committed = 0\<rparr>
     = (Inr 1, \<lparr>u_db = wdb patch_world, pending = [], committed = 0\<rparr>)"
  "find_by_user_email 1 (lf_email create_query) (wdb patch_world) = Inr None"
  "as_test_request create_query = Inr (sample_request\<lparr>tr_email := Some (u ''me@b.co'')\<rparr>)"
  by code_simp+

lemma create_probe: "run_task (test_credentials dev_settings (slow_env (Inr ()) (Some 300) (Some 50) (Some 10)) (sample_request\<lparr>tr_email := Some (u ''me@b.co'')\<rparr>)) = Inr both_ok"
  by (simp add: run_task_def test_credentials_def under_deadline_def test_credentials_inner_def imap_leg_def smtp_leg_def imap_test_login_def
      smtp_test_login_def smtp_login_probe_def assert_public_host_async_def assert_public_host_def guarded_def map_done_def and_then_def
      finally_task_def close_smtp_client_def wait_for_def Let_def slow_env_def sample_request_def dev_settings_def push_settings_def default_settings_def
      is_prod_def mute_def translate_imap_def translate_smtp_def IMAP_TIMEOUT_def SMTP_TIMEOUT_def SMTP_QUIT_TIMEOUT_def timeout_error_def)

lemma create_store: "case bindM (store_mailbox (create_svc A) 5 1 create_query) (\<lambda>dto.
     bindM (bindM (getM (\<lambda>x. get_by_id (dto_id dto) (u_db x))) (present not_found)) (\<lambda>a. ret (to_external_mailbox_dto a)))
     \<lparr>u_db = wdb patch_world, pending = [], committed = 0\<rparr> of (Inr _, _) \<Rightarrow> True | _ \<Rightarrow> False"
  by code_simp

lemma create_succeeds: "\<exists>dto. fst (in_request (ext_create (create_svc A) 5 create_body) patch_world) = Inr dto"
proof -
  let ?x0 = "\<lparr>u_db = wdb patch_world, pending = [], committed = 0\<rparr>"
  have t: "test_mailbox (create_svc A) (sample_request\<lparr>tr_email := Some (u ''me@b.co'')\<rparr>) None ?x0 = (Inr both_ok, ?x0)"
    using create_probe by (simp add: test_mailbox_def create_svc_def toy_svc_def require_def given_def sample_request_def)
  have c: "create_mailbox (create_svc A) 5 \<lparr>vs_user_id = 1, vs_role = ''super_admin''\<rparr> create_query ?x0 = store_mailbox (create_svc A) 5 1 create_query ?x0"
    using create_steps(3,4,5) t by (simp add: create_mailbox_def bindM_app)
  have "ext_create (create_svc A) 5 create_body ?x0 = bindM (store_mailbox (create_svc A) 5 1 create_query) (\<lambda>dto.
     bindM (bindM (getM (\<lambda>x. get_by_id (dto_id dto) (u_db x))) (present not_found)) (\<lambda>a. ret (to_external_mailbox_dto a))) ?x0"
    using create_steps(1,2) c by (simp add: ext_create_def bindM_app)
  then show ?thesis using create_store [of A]
    by (auto simp: in_request_def in_session_def begin_block_def split: prod.splits sum.splits)
qed


end
