(* ===== verification/System.thy ===== *)
theory System
  imports External_Mailboxes
begin

text \<open>
  The connector as a whole: the jobs of the worker and the endpoints of the backend as steps on the shared \<open>world\<close>, the
  states they can reach from an empty database, and the invariant of all of them. A step is one whole job or request;
  what happens while a token refresh waits for another process is itself a sequence of steps.
\<close>

section \<open>The invariant\<close>

definition armed :: "account \<Rightarrow> bool" where
  \<comment> \<open>an active mailbox has no disable alert stamped, so the worker can still disable it\<close>
  "armed a \<longleftrightarrow> is_active a \<longrightarrow> disabled_alert_sent_at a = None"

definition store_ok :: "db \<Rightarrow> bool" where
  "store_ok d \<longleftrightarrow> db_ok d \<and> (\<forall>a \<in> set (accounts d). armed a) \<and> 0 < msg_seq d \<and> (\<forall>m \<in> set (msgs d). 0 < msg_id m)"

definition kept :: "db \<Rightarrow> db \<Rightarrow> bool" where
  \<comment> \<open>every message is still there, unchanged but for a first delivery stamp\<close>
  "kept d0 d \<longleftrightarrow> (\<forall>m \<in> set (msgs d0). \<exists>x \<in> set (msgs d). x = m\<lparr>pushed_at := pushed_at x\<rparr> \<and> (pushed_at m \<noteq> None \<longrightarrow> pushed_at x = pushed_at m))"

definition named :: "db \<Rightarrow> db \<Rightarrow> bool" where
  \<comment> \<open>no user is lost or renamed\<close>
  "named d0 d \<longleftrightarrow> (\<lambda>x. (usr_id x, usr_username x)) ` set (users d0) \<subseteq> (\<lambda>x. (usr_id x, usr_username x)) ` set (users d)"

definition grown :: "bool \<Rightarrow> db \<Rightarrow> db \<Rightarrow> bool" where
  \<comment> \<open>the flag says whether messages must be kept\<close>
  "grown kp d0 d \<longleftrightarrow> store_ok d \<and> seq_le d0 d \<and> named d0 d \<and> (kp \<longrightarrow> kept d0 d)"

definition push_item_ok :: "db \<Rightarrow> json option \<Rightarrow> bool" where
  \<comment> \<open>the item parses, to an id that was given to a message\<close>
  "push_item_ok d x \<longleftrightarrow> (\<exists>i. parse_push_payload x = Some i \<and> 0 < i \<and> i < msg_seq d)"

definition queues_ok :: "world \<Rightarrow> bool" where
  "queues_ok w \<longleftrightarrow> (\<forall>x \<in> set (push_q w). push_item_ok (wdb w) x) \<and> (\<forall>x \<in> set (status_q w). parse_status_payload x \<noteq> None)"

definition sound :: "bool \<Rightarrow> db \<Rightarrow> world \<Rightarrow> bool" where
  "sound kp d0 w \<longleftrightarrow> grown kp d0 (wdb w) \<and> queues_ok w"

lemma seq_le_refl [simp]: "seq_le d d" and seq_le_trans: "seq_le a b \<Longrightarrow> seq_le b c \<Longrightarrow> seq_le a c"
  by (auto simp: seq_le_def)

lemma named_refl [simp]: "named d d" and named_trans: "named a b \<Longrightarrow> named b c \<Longrightarrow> named a c"
  by (auto simp: named_def)

lemma named_cong [simp]: "named d0 (d\<lparr>accounts := A\<rparr>) = named d0 d" "named d0 (d\<lparr>msgs := M\<rparr>) = named d0 d"
  "named d0 (d\<lparr>acc_seq := n\<rparr>) = named d0 d" "named d0 (d\<lparr>msg_seq := n\<rparr>) = named d0 d" "named d0 (d\<lparr>usr_seq := n\<rparr>) = named d0 d"
  "named d0 (rollback d d') = named d0 d"
  by (simp_all add: named_def)

lemma named_update [simp]:
  assumes "\<And>x. usr_id (f x) = usr_id x" and "\<And>x. usr_username (f x) = usr_username x"
  shows "named d0 (d\<lparr>users := update_where P f (users d)\<rparr>) = named d0 d"
proof -
  have "map (\<lambda>x. (usr_id x, usr_username x)) (update_where P f (users d)) = map (\<lambda>x. (usr_id x, usr_username x)) (users d)"
    by (rule map_update_where) (simp add: assms)
  from arg_cong [where f = set, OF this] show ?thesis by (simp add: named_def)
qed

lemma named_append [simp]: "named d0 d \<Longrightarrow> named d0 (d\<lparr>usr_seq := n, users := users d @ xs\<rparr>)"
  by (auto simp: named_def)

lemma kept_refl [simp]: "kept d d"
proof -
  have "m = m\<lparr>pushed_at := pushed_at m\<rparr>" for m :: message by simp
  then show ?thesis unfolding kept_def by blast
qed

lemma kept_cong [simp]: "kept d0 (d\<lparr>accounts := A\<rparr>) = kept d0 d" "kept d0 (d\<lparr>users := U\<rparr>) = kept d0 d"
  "kept d0 (d\<lparr>acc_seq := n\<rparr>) = kept d0 d" "kept d0 (d\<lparr>msg_seq := n\<rparr>) = kept d0 d" "kept d0 (d\<lparr>usr_seq := n\<rparr>) = kept d0 d"
  "kept d0 (rollback d d') = kept d0 d"
  by (simp_all add: kept_def)

lemma kept_trans:
  assumes "kept a b" and "kept b c"
  shows "kept a c"
  unfolding kept_def
proof
  fix m assume "m \<in> set (msgs a)"
  then obtain x where x: "x \<in> set (msgs b)" "x = m\<lparr>pushed_at := pushed_at x\<rparr>" "pushed_at m \<noteq> None \<longrightarrow> pushed_at x = pushed_at m"
    using assms(1) unfolding kept_def by blast
  obtain y where y: "y \<in> set (msgs c)" "y = x\<lparr>pushed_at := pushed_at y\<rparr>" "pushed_at x \<noteq> None \<longrightarrow> pushed_at y = pushed_at x"
    using assms(2) x(1) unfolding kept_def by blast
  have "y = m\<lparr>pushed_at := pushed_at y\<rparr>" using x(2) y(2) by (cases m; cases x; cases y) simp
  then show "\<exists>x \<in> set (msgs c). x = m\<lparr>pushed_at := pushed_at x\<rparr> \<and> (pushed_at m \<noteq> None \<longrightarrow> pushed_at x = pushed_at m)"
    using x(3) y(1,3) by (intro bexI [of _ y]) auto
qed

lemma kept_subset: "set (msgs d) \<subseteq> set (msgs d') \<Longrightarrow> kept d d'"
proof -
  assume sub: "set (msgs d) \<subseteq> set (msgs d')"
  have "m = m\<lparr>pushed_at := pushed_at m\<rparr>" for m :: message by simp
  then show ?thesis using sub unfolding kept_def by blast
qed

lemma kept_append: "kept d0 d \<Longrightarrow> kept d0 (d\<lparr>msg_seq := n, msgs := msgs d @ ms\<rparr>)"
  by (erule kept_trans) (rule kept_subset, simp)

lemma grown_self: "grown kp d0 d \<Longrightarrow> grown kp d d"
  by (simp add: grown_def)

lemma queues_mono: "queues_ok w \<Longrightarrow> msg_seq (wdb w) \<le> msg_seq (wdb v) \<Longrightarrow> push_q v = push_q w \<Longrightarrow> status_q v = status_q w \<Longrightarrow> queues_ok v"
  by (fastforce simp: queues_ok_def push_item_ok_def)

lemma rollback_grown: "grown kp d0 d \<Longrightarrow> seq_le d d' \<Longrightarrow> grown kp d0 (rollback d d')"
  using rollback_ok [of d d'] by (auto simp: grown_def store_ok_def rollback_def seq_le_def)

section \<open>The statements of the repositories\<close>

lemma grown_write [intro]:
  assumes "\<And>a. acc_id (f a) = acc_id a" and "\<And>a. armed a \<Longrightarrow> armed (f a)"
  shows "keeps (grown kp d0) (write_accounts (update_where P f))"
proof (rule keepsI)
  fix d assume d: "grown kp d0 d"
  let ?d = "d\<lparr>accounts := update_where P f (accounts d)\<rparr>"
  show "grown kp d0 (snd (write_accounts (update_where P f) d))"
  proof (cases "accounts_ok ?d")
    case True
    have "acc_id ` set (update_where P f (accounts d)) = acc_id ` set (accounts d)"
      using map_update_where [of P acc_id f "accounts d"] assms(1) by (metis list.set_map)
    then have "db_ok ?d" using d True by (simp add: grown_def store_ok_def db_ok_def msgs_ok_def users_ok_def)
    moreover have "\<forall>a \<in> set (accounts ?d). armed a" using d assms(2) by (auto simp: grown_def store_ok_def set_update_where)
    ultimately have "grown kp d0 ?d" using d by (simp add: grown_def store_ok_def seq_le_def)
    then show ?thesis using True by (simp add: write_accounts_def Let_def)
  next
    case False
    then show ?thesis using d by (simp add: write_accounts_def Let_def)
  qed
qed

lemma grown_insert_account [intro]: "armed a \<Longrightarrow> keeps (grown kp d0) (insert_account a)"
proof (rule keepsI)
  fix d assume a: "armed a" and d: "grown kp d0 d"
  let ?d = "d\<lparr>accounts := accounts d @ [a]\<rparr>"
  have "grown kp d0 ?d" if "accounts_ok ?d" using that a d by (auto simp: grown_def store_ok_def db_ok_def users_ok_def msgs_ok_def seq_le_def)
  then show "grown kp d0 (snd (insert_account a d))" using d by (simp add: insert_account_def bindM_app write_accounts_def Let_def)
qed

lemma grown_next_id [intro]: "keeps (grown kp d0) next_account_id"
  by (rule keepsI) (auto simp: next_account_id_def grown_def store_ok_def db_ok_def users_ok_def accounts_ok_def msgs_ok_def seq_le_def)

lemma grown_insert_with_id [intro]: "keeps (grown kp d0) (insert_with_id now v)"
  and grown_insert_oauth [intro]: "keeps (grown kp d0) (insert_oauth_account_with_id now v)"
  unfolding insert_with_id_def insert_oauth_account_with_id_def by (rule grown_insert_account, simp add: armed_def blank_account_def)+

lemma grown_tokens [intro]: "keeps (grown kp d0) (update_oauth_tokens now i r ac ex sc needs)"
  unfolding update_oauth_tokens_def update_row_def by (rule grown_write) (auto simp: opt_set_def armed_def split: option.splits)

lemma grown_marks [intro]:
  "keeps (grown kp d0) (mark_oauth_needs_consent now i)" "keeps (grown kp d0) (mark_transient_error now i err)"
  "keeps (grown kp d0) (mark_sync_success now i x v)"
  unfolding mark_oauth_needs_consent_def mark_transient_error_def mark_sync_success_def update_row_def
  by (rule grown_write, simp_all add: armed_def)+

lemma grown_failure [intro]: "keeps (grown kp d0) (mark_sync_failure now i err b)"
  unfolding mark_sync_failure_def update_row_def
  by (rule keeps_bindM, rule grown_write) (auto simp: armed_def)

lemma grown_conditional [intro]:
  assumes "\<And>a. acc_id (f a) = acc_id a" and "\<And>a. armed a \<Longrightarrow> armed (f a)"
  shows "keeps (grown kp d0) (\<lambda>d. bindM (write_accounts (update_where P f)) (\<lambda>_. ret (h d)) d)"
proof (rule keepsI)
  fix d assume d: "grown kp d0 d"
  have "keeps (grown kp d0) (bindM (write_accounts (update_where P f)) (\<lambda>_. ret (h d)))"
    using assms by (intro keeps_bindM grown_write keeps_ret)
  from keepsD [OF this d] show "grown kp d0 (snd (bindM (write_accounts (update_where P f)) (\<lambda>_. ret (h d)) d))" .
qed

lemma grown_consent_error [intro]: "keeps (grown kp d0) (mark_oauth_needs_consent_error now i)"
  and grown_disable [intro]: "keeps (grown kp d0) (disable_and_stamp_alert now i)"
  unfolding mark_oauth_needs_consent_error_def disable_and_stamp_alert_def Let_def
  by (rule grown_conditional, simp_all add: armed_def)+

lemma armed_foldl: "\<forall>f \<in> set kws. \<forall>a. armed a \<longrightarrow> armed (f a) \<Longrightarrow> armed a \<Longrightarrow> armed (foldl (\<lambda>x f. f x) a kws)"
  by (induction kws arbitrary: a) auto

lemma grown_update_fields:
  assumes "\<forall>f \<in> set kws. \<forall>a. acc_id (f a) = acc_id a" and "\<forall>f \<in> set kws. \<forall>a. armed a \<longrightarrow> armed (f a)"
  shows "keeps (grown kp d0) (update_fields now i kws)"
  unfolding update_fields_def update_row_def
  using foldl_key [OF assms(1)] armed_foldl [OF assms(2)]
  by (intro keeps_if keeps_ret grown_write) (simp_all add: armed_def)

lemma image_other: "k \<in> f ` A \<Longrightarrow> k \<noteq> i \<Longrightarrow> k \<in> f ` {x \<in> A. f x \<noteq> i}"
  by auto

lemma grown_delete_account [intro]: "keeps (grown False d0) (delete_account i)"
  unfolding delete_account_def
  by (rule keeps_modifyM) (auto simp: grown_def store_ok_def db_ok_def users_ok_def accounts_ok_def msgs_ok_def seq_le_def distinct_map_filter
      intro!: image_other)

lemma grown_insert_message [intro]: "keeps (grown kp d0) (insert_message_idempotent now m)"
proof (rule keepsI)
  fix d assume d: "grown kp d0 d"
  obtain r d' where i: "insert_message_idempotent now m d = (r, d')" by (rule prod.exhaust)
  have ok: "db_ok d'" using insert_keeps_db_ok [OF i] d by (simp add: grown_def store_ok_def)
  show "grown kp d0 (snd (insert_message_idempotent now m d))"
    unfolding i snd_conv using i by (cases rule: insert_cases) (use d ok in \<open>auto simp: grown_def store_ok_def seq_le_def kept_append\<close>)
qed

lemma grown_save [intro]: "keeps (grown kp d0) (save_messages now i uv ms)"
  by (induction ms) (auto intro!: keeps_bindM grown_insert_message split: option.splits)

lemma grown_transaction [intro]: "(\<And>d. keeps (grown kp d) m) \<Longrightarrow> keeps (grown kp d0) (transaction m)"
proof (rule keepsI)
  fix d assume m: "\<And>d. keeps (grown kp d) m" and d: "grown kp d0 d"
  obtain r d1 where r: "m d = (r, d1)" by (rule prod.exhaust)
  have 1: "grown kp d0 d1" "grown kp d d1" using keepsD [OF m d] keepsD [OF m grown_self [OF d]] r by simp_all
  then have "seq_le d d1" by (simp add: grown_def)
  then show "grown kp d0 (snd (transaction m d))" using r 1 rollback_grown [OF d] by (cases r) (simp_all add: transaction_def)
qed

lemma grown_create_user [intro]: "keeps (grown kp d0) (create_user v)"
  by (rule keepsI) (fastforce simp: create_user_def Let_def grown_def store_ok_def db_ok_def users_ok_def accounts_ok_def msgs_ok_def seq_le_def)

section \<open>Redis and the queues\<close>

lemma sound_on_db [intro]:
  assumes "\<And>d. keeps (grown kp d) m" shows "keeps (sound kp d0) (on_db m)"
proof (rule keepsI)
  fix w assume w: "sound kp d0 w"
  obtain r d where t: "transaction m (wdb w) = (r, d)" by (rule prod.exhaust)
  have k: "keeps (grown kp e) (transaction m)" for e by (rule grown_transaction [OF assms])
  have g: "grown kp d0 (wdb w)" using w by (simp add: sound_def)
  have 1: "grown kp d0 d" "grown kp (wdb w) d" using keepsD [OF k g] keepsD [OF k grown_self [OF g]] t by simp_all
  then have "queues_ok (w\<lparr>wdb := d\<rparr>)" using w queues_mono [of w "w\<lparr>wdb := d\<rparr>"] by (simp add: sound_def grown_def seq_le_def)
  then show "sound kp d0 (snd (on_db m w))" using 1 t by (simp add: sound_def on_db_def)
qed

lemma sound_redis [intro]: "(\<And>w. sound kp d0 w \<Longrightarrow> sound kp d0 (snd (f w))) \<Longrightarrow> keeps (sound kp d0) (redis f)"
proof (rule keepsI)
  fix w assume f: "\<And>w. sound kp d0 w \<Longrightarrow> sound kp d0 (snd (f w))" and w: "sound kp d0 w"
  have "sound kp d0 (w\<lparr>rds_tick := rds_tick w + 1\<rparr>)" using w by (simp add: sound_def queues_ok_def)
  then show "sound kp d0 (snd (redis f w))" using f by (auto simp: redis_def Let_def split: prod.splits) (metis snd_conv)
qed

lemma sound_silent: "sound kp d0 w \<Longrightarrow> wdb v = wdb w \<Longrightarrow> push_q v = push_q w \<Longrightarrow> status_q v = status_q w \<Longrightarrow> sound kp d0 v"
  by (simp add: sound_def queues_ok_def)

lemma sound_keeps_silent:
  "(\<And>w. wdb (snd (m w)) = wdb w \<and> push_q (snd (m w)) = push_q w \<and> status_q (snd (m w)) = status_q w) \<Longrightarrow> keeps (sound kp d0) m"
  by (rule keepsI) (auto intro: sound_silent)

lemma sound_enqueue_status [intro]: "keeps (sound kp d0) (enqueue_crm_status i)"
  unfolding enqueue_crm_status_def
  by (rule sound_redis) (simp add: sound_def queues_ok_def lpush_def parse_status_payload_def status_payload_def int_value_def)

lemma sound_enqueue_best_effort [intro]: "keeps (sound kp d0) (enqueue_crm_status_best_effort s i)"
  unfolding enqueue_crm_status_best_effort_def by (intro keeps_if keeps_ret keeps_suppress_all sound_enqueue_status)

definition issued :: "db \<Rightarrow> int list \<Rightarrow> bool" where
  "issued d ids \<longleftrightarrow> (\<forall>i \<in> set ids. 0 < i \<and> i < msg_seq d)"

lemma sound_enqueue_ids: "issued d0 ids \<Longrightarrow> keeps (sound kp d0) (enqueue_push_ids ids source)"
  unfolding enqueue_push_ids_def
  by (intro keeps_if keeps_ret keeps_bindM sound_redis)
    (auto simp: sound_def queues_ok_def lpush_def push_item_ok_def issued_def grown_def seq_le_def parse_push_payload_def push_payload_def int_value_def)

lemma issued_queue: "sound kp d0 w \<Longrightarrow> set items \<subseteq> set (push_q w) \<Longrightarrow> issued (wdb w) (List.map_filter parse_push_payload items)"
  by (fastforce simp: issued_def sound_def queues_ok_def push_item_ok_def List.map_filter_def)

lemma sound_weaken: "sound kp d0 w \<Longrightarrow> sound kp (wdb w) w"
  by (simp add: sound_def grown_def)

lemma sound_rebase: "sound kp d1 w \<Longrightarrow> grown kp d0 d1 \<Longrightarrow> sound kp d0 w"
  by (auto simp: sound_def grown_def intro: seq_le_trans named_trans kept_trans)

lemma sound_posts [intro]: "keeps (sound kp d0) (http_post url hdrs body)" "keeps (sound kp d0) (token_post env data)"
  by (rule sound_keeps_silent, auto simp: http_post_def token_post_def Let_def split: sum.splits prod.splits)+

lemma sound_kv [intro]: "keeps (sound kp d0) (kv_set_ex now k v n)" "keeps (sound kp d0) (kv_set_nx_ex now k v n)" "keeps (sound kp d0) (kv_getdel now k)"
  "keeps (sound kp d0) (kv_del_if now k v)" "keeps (sound kp d0) (redis (bump n k now))" "keeps (sound kp d0) (redis (\<lambda>w. (g w, w)))"
  unfolding kv_set_ex_def kv_set_nx_ex_def kv_getdel_def kv_del_if_def
  by (rule sound_redis; erule sound_silent; simp add: bump_def Let_def)+

lemma sound_consume [intro]: "keeps (sound kp d0) (consume l k now)"
  unfolding consume_def by (intro keeps_if keeps_ret keeps_bindM sound_kv keeps_throw)

section \<open>The CRM jobs\<close>

lemma grown_mark_pushed: "grown kp d0 d \<Longrightarrow> grown kp d0 (snd (mark_pushed now ids d))"
proof -
  assume d: "grown kp d0 d"
  have "kept d (snd (mark_pushed now ids d))"
    unfolding kept_def
  proof
    fix m assume m: "m \<in> set (msgs d)"
    let ?f = "\<lambda>m. if msg_id m \<in> set ids \<and> pushed_at m = None then m\<lparr>pushed_at := Some now\<rparr> else m"
    have "?f m \<in> set (msgs (snd (mark_pushed now ids d)))" unfolding mark_pushed_rows using m by (simp only: set_map image_eqI)
    moreover have "?f m = m\<lparr>pushed_at := pushed_at (?f m)\<rparr>" by (cases m) simp
    moreover have "pushed_at m \<noteq> None \<longrightarrow> pushed_at (?f m) = pushed_at m" by simp
    ultimately show "\<exists>x \<in> set (msgs (snd (mark_pushed now ids d))). x = m\<lparr>pushed_at := pushed_at x\<rparr> \<and> (pushed_at m \<noteq> None \<longrightarrow> pushed_at x = pushed_at m)"
      by blast
  qed
  then show ?thesis
    using d mark_pushed_db_ok [of d now ids] by (auto simp: grown_def store_ok_def seq_le_def named_def mark_pushed_rows intro: kept_trans)
qed

lemma sound_mark_pushed: "sound kp d0 w \<Longrightarrow> sound kp d0 (w\<lparr>wdb := snd (mark_pushed now ids (wdb w))\<rparr>)"
  using grown_mark_pushed [of kp d0 "wdb w" now ids] queues_mono [of w "w\<lparr>wdb := snd (mark_pushed now ids (wdb w))\<rparr>"]
  by (simp add: sound_def)

lemma sound_post_signed [intro]: "keeps (sound kp d0) (post_signed mac s ts url body)"
  unfolding post_signed_def by (intro keeps_bindM keeps_liftE sound_posts)

lemma sound_push_ids [intro]: "keeps (sound kp d0) (push_message_ids mac s now ids)"
  unfolding push_message_ids_def
  by (intro keeps_bindM keeps_getM keeps_if keeps_ret keeps_catchM sound_post_signed keeps_throw)
    (rule keepsI, auto split: prod.split, metis sound_mark_pushed snd_conv)

lemma sound_recovery [intro]: "keeps (sound kp d0) (crm_push_recovery_scan s now)"
proof (rule keepsI)
  fix w assume w: "sound kp d0 w"
  let ?ids = "list_recovery_candidates now (CRM_PUSH_RECOVERY_WINDOW_HOURS s) (nat (CRM_PUSH_RECOVERY_BATCH_SIZE s)) (wdb w)"
  have "issued (wdb w) ?ids"
    using w set_list_pending_push [of _ _ _ "wdb w"]
    by (fastforce simp: issued_def list_recovery_candidates_def sound_def grown_def store_ok_def db_ok_def msgs_ok_def)
  from sound_enqueue_ids [OF this] have "keeps (sound kp (wdb w)) (if ?ids = [] then ret () else seqM (enqueue_push_ids ?ids ''recovery'') (ret ()))"
    by (intro keeps_if keeps_bindM keeps_ret)
  from keepsD [OF this sound_weaken [OF w]] have "sound kp (wdb w) (snd (crm_push_recovery_scan s now w))"
    by (simp add: crm_push_recovery_scan_def bindM_app)
  then show "sound kp d0 (snd (crm_push_recovery_scan s now w))" by (rule sound_rebase) (use w in \<open>simp add: sound_def\<close>)
qed

lemma sound_status [intro]: "keeps (sound kp d0) (crm_status_dispatch mac s now)"
proof -
  have pop: "keeps (sound kp d0) (pop_status n)" for n unfolding pop_status_def
    by (rule sound_redis) (auto simp: sound_def queues_ok_def lpop_def dest: in_set_dropD)
  have "keeps (sound kp d0) (push_status mac s now i)" for i
    unfolding push_status_def by (auto intro!: keeps_bindM keeps_catchM keeps_if split: option.splits)
  then have "keeps (sound kp d0) (status_item mac s now i)" for i
    unfolding status_item_def by (intro keeps_bindM keeps_catchM keeps_if keeps_ret keeps_throw keeps_suppress_all sound_enqueue_status)
  with pop show ?thesis unfolding crm_status_dispatch_def by (intro keeps_bindM keeps_for_each)
qed

lemma sound_dispatch [intro]: "keeps (sound kp d0) (crm_push_dispatch mac s now)"
proof (rule keepsI)
  fix w assume w: "sound kp d0 w"
  let ?n = "nat (CRM_PUSH_BATCH_SIZE s)" and ?w1 = "w\<lparr>rds_tick := rds_tick w + 1\<rparr>"
  show "sound kp d0 (snd (crm_push_dispatch mac s now w))"
  proof (cases "rds_up w (rds_tick w)")
    case False
    then have "crm_push_dispatch mac s now w = (Inl redis_error, ?w1)" by (simp add: crm_push_dispatch_def pop_push_def redis_def bindM_app)
    then show ?thesis using sound_silent [OF w, of ?w1] by simp
  next
    case True
    define v where "v = ?w1\<lparr>push_q := snd (lpop ?n (push_q w))\<rparr>"
    define ids where "ids = List.map_filter parse_push_payload (fst (lpop ?n (push_q w)))"
    have pop: "pop_push ?n w = (Inr (fst (lpop ?n (push_q w))), v)"
      using True by (simp add: pop_push_def redis_def v_def split: prod.split)
    have v: "sound kp d0 v" "sound kp (wdb w) v" using w by (auto simp: sound_def grown_def queues_ok_def v_def lpop_def dest: in_set_dropD)
    have "issued (wdb w) ids" unfolding ids_def by (rule issued_queue [OF w]) (auto simp: lpop_def dest: in_set_takeD)
    then have "keeps (sound kp (wdb w)) (if ids = [] then ret ()
     else bindM (push_message_ids mac s now ids) (\<lambda>result.
       if pr_ok result then ret () else suppress_all (seqM (enqueue_push_ids ids ''recovery'') (ret ()))))"
      by (intro keeps_if keeps_ret keeps_bindM sound_push_ids keeps_suppress_all sound_enqueue_ids)
    moreover have "crm_push_dispatch mac s now w = (if ids = [] then ret ()
     else bindM (push_message_ids mac s now ids) (\<lambda>result.
       if pr_ok result then ret () else suppress_all (seqM (enqueue_push_ids ids ''recovery'') (ret ())))) v"
      unfolding crm_push_dispatch_def bindM_app [of "pop_push ?n"] pop by (simp add: Let_def flip: ids_def)
    ultimately have "sound kp (wdb w) (snd (crm_push_dispatch mac s now w))" using keepsD [where P = "sound kp (wdb w)", OF _ v(2)] by metis
    then show ?thesis by (rule sound_rebase) (use w in \<open>simp add: sound_def\<close>)
  qed
qed

section \<open>Tokens and consent\<close>

lemma sound_create_or_relink [intro]: "keeps (grown kp d0) (create_or_relink env c now owner em tokens)"
  unfolding create_or_relink_def
proof (rule keeps_bindM)
  show "keeps (grown kp d0) (\<lambda>d. (find_by_user_email owner em d, d))" by (simp add: keeps_def)
qed (auto intro!: keeps_bindM split: option.split)

lemma sound_exchange [intro]: "keeps (sound kp d0) (exchange_and_resolve env s code v)"
  unfolding exchange_and_resolve_def exchange_code_def
  by (intro keeps_bindM keeps_catchM keeps_if sound_posts keeps_throw keeps_ret keeps_liftE) (auto split: option.splits)

lemma sound_headless [intro]: "keeps (sound kp d0) (exchange_code_headless env s c now code state)"
  unfolding exchange_code_headless_def consume_state_def
  by (auto intro!: keeps_bindM sound_kv sound_exchange sound_on_db sound_create_or_relink un_read split: option.split kvval.split prod.split)

lemma sound_authorize_url [intro]: "keeps (sound kp d0) (build_authorize_url_headless env s now st vf crm)"
  unfolding build_authorize_url_headless_def by (intro keeps_bindM sound_kv keeps_ret)

lemma sound_notify [intro]: "keeps (sound kp d0) (notify_crm_oauth_ingest mac s now crm a)"
proof -
  have "keeps (sound kp d0) (notify_attempts k url hdrs body)" for k url hdrs body
  proof (induction k)
    case (Suc k)
    show ?case
    proof (rule keepsI)
      fix w assume w: "sound kp d0 w"
      obtain r w1 where p: "http_post url hdrs body w = (r, w1)" by (rule prod.exhaust)
      have "sound kp d0 w1" using keepsD [OF sound_posts(1) w, of url hdrs body] p by simp
      then show "sound kp d0 (snd (notify_attempts (Suc k) url hdrs body w))" using keepsD [OF Suc] p by (cases r) auto
    qed
  qed simp
  then show ?thesis unfolding notify_crm_oauth_ingest_def by (intro keeps_if keeps_ret keeps_bindM keeps_liftE)
qed

lemma sound_do_refresh [intro]: "keeps (sound kp d0) (do_refresh env s c now a)"
  unfolding do_refresh_def refresh_grant_def mark_needs_consent_def
  by (cases "oauth_refresh_token_encrypted a")
    (auto intro!: keeps_bindM keeps_catchM keeps_if keeps_throw keeps_ret keeps_liftE sound_on_db sound_posts
      sound_enqueue_best_effort grown_tokens grown_marks)

lemma sound_await:
  assumes "\<forall>p \<in> set peers. \<forall>w. sound kp (wdb w) w \<longrightarrow> sound kp (wdb w) (p w)"
  shows "keeps (sound kp d0) (await_refreshed_token env c now i peers)"
  using assms
proof (induction peers)
  case (Cons p ps)
  have "keeps (sound kp d0) (modifyM p)"
  proof (rule keeps_modifyM)
    fix w assume w: "sound kp d0 w"
    then have "sound kp (wdb w) (p w)" using Cons.prems sound_weaken by simp
    then show "sound kp d0 (p w)" by (rule sound_rebase) (use w in \<open>simp add: sound_def\<close>)
  qed
  then show ?case
    using Cons unfolding await_refreshed_token.simps
    by (intro keeps_bindM keeps_getM) (auto intro!: keeps_bindM keeps_liftE split: option.splits)
qed (simp add: keeps_ret)

lemma sound_locked [intro]: "keeps (sound kp d0) (locked_refresh env s c now a)"
  unfolding locked_refresh_def
  by (intro keeps_bindM keeps_getM) (auto intro!: keeps_bindM keeps_liftE split: option.splits)

lemma sound_access_token:
  assumes "\<forall>p \<in> set peers. \<forall>w. sound kp (wdb w) w \<longrightarrow> sound kp (wdb w) (p w)"
  shows "keeps (sound kp d0) (get_valid_access_token env s c now tok peers a)"
  unfolding get_valid_access_token_def try_acquire_lock_def release_lock_def
  by (auto intro!: keeps_bindM keeps_liftE keeps_catchM keeps_if keeps_finallyM sound_kv sound_await [OF assms] sound_locked
      sound_do_refresh split: option.splits)

section \<open>The sync jobs\<close>

definition sound_peers :: "bool \<Rightarrow> sync_env \<Rightarrow> bool" where
  "sound_peers kp E \<longleftrightarrow> (\<forall>i. \<forall>p \<in> set (se_peers E i). \<forall>w. sound kp (wdb w) w \<longrightarrow> sound kp (wdb w) (p w))"

lemma sound_record_transient [intro]: "keeps (sound kp d0) (record_transient s now i err)"
  unfolding record_transient_def by (intro keeps_bindM sound_on_db grown_marks sound_enqueue_best_effort)

lemma sound_handle [intro]: "keeps (sound kp d0) (handle_sync_error s now a e detail)"
  unfolding handle_sync_error_def Let_def
  by (auto intro!: keeps_bindM keeps_if keeps_ret sound_record_transient split: error_class.splits)

lemma sound_credentials:
  assumes "sound_peers kp E"
  shows "keeps (sound kp d0) (resolve_credentials E now a)"
proof -
  have "keeps (sound kp d0) (resolve_oauth_access_token E now a)"
    unfolding resolve_oauth_access_token_def
    by (intro keeps_catchM keeps_bindM sound_access_token keeps_if) (use assms in \<open>auto simp: sound_peers_def\<close>)
  moreover have "keeps (sound kp d0) (record_needs_consent_marker (se_settings E) now (acc_id a))"
    unfolding record_needs_consent_marker_def by (auto intro!: keeps_bindM keeps_if)
  ultimately show ?thesis
    unfolding resolve_credentials_def by (auto intro!: keeps_bindM keeps_if split: sum.splits)
qed

lemma save_messages_issued:
  assumes "save_messages now i uv ms d = (Inr (ids, k), d')" and "store_ok d"
  shows "issued d' ids"
  using assms
proof (induction ms arbitrary: ids k d)
  case (Cons m ms)
  from Cons.prems(1) obtain r d1 ids1 k1 where 1: "insert_message_idempotent now (row_of i uv m) d = (Inr r, d1)"
    and 2: "save_messages now i uv ms d1 = (Inr (ids1, k1), d')" and ids: "ids = (case r of None \<Rightarrow> ids1 | Some x \<Rightarrow> x # ids1)"
    by (auto simp: bindM_app split: prod.splits sum.splits option.splits)
  have g: "grown kp d d" using Cons.prems(2) by (simp add: grown_def)
  have g1: "grown kp d d1" using keepsD [OF grown_insert_message g] 1 by (metis snd_conv)
  then have s1: "store_ok d1" by (simp add: grown_def)
  note IH = Cons.IH [OF 2 s1]
  have "grown kp d1 d'" using keepsD [OF grown_save, of True d1 d1 now i uv ms] 2 s1 by (simp add: grown_def)
  then have le: "msg_seq d1 \<le> msg_seq d'" by (simp add: grown_def seq_le_def)
  from 1 show ?case
    by (cases rule: insert_cases) (use IH ids le Cons.prems(2) in \<open>auto simp: issued_def store_ok_def\<close>)
qed (simp add: issued_def)

lemma sound_store_box [intro]: "keeps (sound kp d0) (store_box E now a box)"
proof (rule keepsI)
  fix w assume w: "sound kp d0 w"
  let ?m = "save_messages now (acc_id a) (fb_uidvalidity box) (fb_new box)"
  let ?k = "\<lambda>(ids, conflicts).
     bindM (on_db (mark_sync_success now (acc_id a) (fb_uidnext box) (Some (fb_uidvalidity box)))) (\<lambda>_.
     bindM (enqueue_crm_status_best_effort (se_settings E) (acc_id a)) (\<lambda>_.
     bindM (enqueue_new (se_settings E) ids) (\<lambda>_.
     ret (result_of a (length ids) conflicts SyncOk))))"
  have def: "store_box E now a box = bindM (on_db ?m) ?k" by (simp add: store_box_def)
  obtain r v where s: "on_db ?m w = (r, v)" by (rule prod.exhaust)
  have v: "sound kp (wdb w) v" using keepsD [OF sound_on_db [OF grown_save] sound_weaken [OF w]] s by (metis snd_conv)
  have "sound kp (wdb w) (snd (store_box E now a box w))"
  proof (cases r)
    case (Inl e)
    then show ?thesis using s v unfolding def by (simp add: bindM_app)
  next
    case (Inr p)
    obtain ids k where p: "p = (ids, k)" by (rule prod.exhaust)
    have "?m (wdb w) = (Inr (ids, k), wdb v)" using s Inr p by (auto simp: on_db_def transaction_def split: prod.splits sum.splits)
    then have i: "issued (wdb v) ids" by (rule save_messages_issued) (use w in \<open>simp add: sound_def grown_def\<close>)
    have "keeps (sound kp (wdb v)) (?k (ids, k))"
      unfolding enqueue_new_def prod.case
      by (intro keeps_bindM sound_on_db grown_marks sound_enqueue_best_effort keeps_if keeps_suppress_all sound_enqueue_ids [OF i] keeps_ret)
    from keepsD [OF this sound_weaken [OF v]] have "sound kp (wdb v) (snd (store_box E now a box w))"
      using s Inr p unfolding def by (simp add: bindM_app)
    then show ?thesis by (rule sound_rebase) (use v in \<open>simp add: sound_def\<close>)
  qed
  then show "sound kp d0 (snd (store_box E now a box w))" by (rule sound_rebase) (use w in \<open>simp add: sound_def\<close>)
qed

lemma sound_sync_one:
  assumes "sound_peers kp E"
  shows "keeps (sound kp d0) (sync_one_account E now a)"
  unfolding sync_one_account_def
  by (auto intro!: keeps_bindM keeps_if sound_credentials [OF assms] sound_handle sound_store_box split: creds.splits sum.splits)

lemma sound_gather:
  assumes "sound_peers kp E" and "sound kp d0 w"
  shows "sound kp d0 (snd (gather_all E now accs w))"
  using assms(2)
proof (induction accs arbitrary: w)
  case (Cons a accs)
  obtain r v where s: "sync_one_account E now a w = (r, v)" by (rule prod.exhaust)
  have "sound kp d0 v" using keepsD [OF sound_sync_one [OF assms(1)] Cons.prems] s by (metis snd_conv)
  then show ?case using Cons.IH [of v] s by (auto split: prod.splits)
qed simp

lemma sound_collect [intro]: "keeps (sound kp d0) (collect s now rs)"
  by (induction s now rs rule: collect.induct) (auto intro!: keeps_bindM keeps_suppress_all sound_record_transient)

lemma sound_apply_permanent [intro]: "keeps (sound kp d0) (apply_permanent s now r)"
  unfolding apply_permanent_def record_failure_def disable_after_failures_def
  by (intro keeps_bindM keeps_if keeps_ret sound_on_db sound_enqueue_best_effort grown_failure grown_disable)

lemma sound_run:
  assumes "sound_peers kp E"
  shows "keeps (sound kp d0) (run_for_accounts E now accs)"
proof (rule keepsI)
  fix w assume w: "sound kp d0 w"
  obtain raws v where g: "gather_all E now accs w = (raws, v)" by (rule prod.exhaust)
  have v: "sound kp d0 v" using sound_gather [OF assms w, of now accs] g by simp
  have "keeps (sound kp d0) (bindM (collect (se_settings E) now raws) (\<lambda>(results, unexpected).
          let ok = length (filter (\<lambda>r. ar_outcome r = SyncOk) results);
              failed = length results - ok + unexpected;
              new_msgs = sum_list (map ar_new results)
          in seqM (if breaker_tripped (se_settings E) results then ret ()
                   else for_each (apply_permanent (se_settings E) now) (filter (\<lambda>r. ar_outcome r = SyncPermanent) results))
               (ret (ok, failed, new_msgs))))"
    unfolding Let_def by (auto intro!: keeps_bindM keeps_if keeps_for_each)
  from keepsD [OF this v] show "sound kp d0 (snd (run_for_accounts E now accs w))"
    using w g by (simp add: run_for_accounts_def)
qed

lemma sound_cycle: "sound_peers kp E \<Longrightarrow> keeps (sound kp d0) (sync_cycle E now)"
  unfolding sync_cycle_def by (intro keeps_bindM keeps_getM sound_run keeps_ret)

lemma sound_drain [intro]: "keeps (sound kp d0) (drain_marks ks)"
proof (induction ks)
  case (Cons k ks)
  have "keeps (sound kp d0) (redis (\<lambda>w. ((), w\<lparr>force_marks := filter (\<lambda>x. x \<noteq> k) (force_marks w)\<rparr>)))"
    by (rule sound_redis, erule sound_silent) simp_all
  then show ?case using Cons by (auto intro!: keeps_bindM split: option.splits)
qed simp

lemma sound_forced: "sound_peers kp E \<Longrightarrow> keeps (sound kp d0) (force_sync_dispatch E now)"
  unfolding force_sync_dispatch_def drain_forced_account_ids_def
  by (intro keeps_bindM keeps_getM keeps_if sound_run keeps_ret sound_kv sound_drain)

section \<open>Requests\<close>

definition unit_ok :: "bool \<Rightarrow> db \<Rightarrow> uow \<Rightarrow> bool" where
  "unit_ok kp d0 x \<longleftrightarrow> grown kp d0 (u_db x)"

lemma unit_in_tx [intro]: "keeps (grown kp d0) m \<Longrightarrow> keeps (unit_ok kp d0) (in_tx m)"
proof (rule keepsI)
  fix x assume "keeps (grown kp d0) m" and "unit_ok kp d0 x"
  from keepsD [OF this(1), of "u_db x"] this(2) show "unit_ok kp d0 (snd (in_tx m x))" by (cases "m (u_db x)") (simp add: unit_ok_def in_tx_def)
qed

lemma unit_defer [intro]: "keeps (unit_ok kp d0) (defer_status i)"
  by (auto simp: defer_status_def unit_ok_def)

lemma keeps_liftE_bind: "(\<And>v. r = Inr v \<Longrightarrow> keeps P (f v)) \<Longrightarrow> keeps P (bindM (liftE r) f)"
  by (auto simp: keeps_def bind_liftE split: sum.split)

lemma keeps_test_mailbox [intro]: "keeps P (test_mailbox E q sc)"
  unfolding test_mailbox_def test_existing_account_def
  by (auto intro!: keeps_bindM un_visible keeps_if keeps_liftE split: option.splits)

lemma unit_store [intro]: "keeps (unit_ok kp d0) (store_mailbox E now t p)"
  unfolding store_mailbox_def
  by (intro keeps_bindM keeps_getM un_present unit_in_tx grown_next_id keeps_liftE keeps_catchM grown_insert_with_id keeps_if keeps_throw keeps_ret)

lemma unit_create [intro]: "keeps (unit_ok kp d0) (create_mailbox E now sc p)"
proof -
  have "keeps (unit_ok kp d0) (resolve_target_user_id sc t)" for t
    unfolding resolve_target_user_id_def by (auto intro!: keeps_if keeps_bindM split: option.split)
  then show ?thesis unfolding create_mailbox_def
    by (intro keeps_bindM un_read keeps_if keeps_throw keeps_liftE keeps_test_mailbox unit_store)
qed

lemma fields_armed:
  assumes "pw = [] \<or> (\<exists>b. pw = [\<lambda>r. r\<lparr>encrypted_password := Some b\<rparr>])" and "spw = [] \<or> (\<exists>b. spw = [\<lambda>r. r\<lparr>smtp_encrypted_password := Some b\<rparr>])"
  shows "\<forall>f \<in> set ([put_merged q a] @ pw @ spw @ dn_fields q @ (if c then [reset_health] else [])). \<forall>b. acc_id (f b) = acc_id b"
    and "\<forall>f \<in> set ([put_merged q a] @ pw @ spw @ dn_fields q @ (if c then [reset_health] else [])). \<forall>b. armed b \<longrightarrow> armed (f b)"
  using assms by (auto simp: put_merged_def dn_fields_def reset_health_def armed_def)

lemma dn_armed: "\<forall>f \<in> set (dn_fields q). \<forall>b. acc_id (f b) = acc_id b" "\<forall>f \<in> set (dn_fields q). \<forall>b. armed b \<longrightarrow> armed (f b)"
  by (auto simp: dn_fields_def armed_def)

lemma unit_update [intro]: "keeps (unit_ok kp d0) (update_mailbox E now sc i q)"
  unfolding update_mailbox_def put_merged_abs
  by (intro keeps_bindM un_visible keeps_if keeps_throw unit_in_tx grown_update_fields dn_armed un_reloaded un_retest keeps_ret
      keeps_liftE_bind fields_armed secret_writes keeps_getM un_present unit_defer)

lemma unit_set_active [intro]: "keeps (unit_ok kp d0) (set_active now sc i b)"
  unfolding set_active_def
  by (intro keeps_bindM un_visible unit_in_tx grown_update_fields keeps_getM un_present unit_defer keeps_ret)
    (auto simp: reset_health_def armed_def split: if_splits)

lemma unit_endpoints [intro]:
  "keeps (unit_ok kp d0) (ext_create E now p)" "keeps (unit_ok kp d0) (ext_update E now i q)" "keeps (unit_ok False d0) (ext_delete i)"
  unfolding ext_create_def ext_update_def ext_delete_def delete_mailbox_def
  by (intro keeps_bindM un_crm_scope keeps_if keeps_liftE unit_create unit_update unit_set_active un_visible keeps_ret keeps_getM un_present
      unit_in_tx grown_delete_account)+

lemma unit_session:
  assumes "keeps (unit_ok kp (wdb w)) m" and "sound kp d0 w" and "in_session m w = (r, x)"
  shows "sound kp d0 (w\<lparr>wdb := u_db x\<rparr>)"
proof -
  let ?x0 = "\<lparr>u_db = wdb w, pending = [], committed = 0\<rparr>"
  have g0: "grown kp d0 (wdb w)" and g: "grown kp (wdb w) (wdb w)" using assms(2) grown_self by (auto simp: sound_def)
  obtain r' y where m: "m ?x0 = (r', y)" by (rule prod.exhaust)
  have y: "grown kp (wdb w) (u_db y)" using keepsD [OF assms(1), of ?x0] m g by (simp add: unit_ok_def)
  have "grown kp (wdb w) (u_db x)"
    using assms(3) m y rollback_grown [OF g, of "u_db y"]
    by (cases r') (auto simp: in_session_def begin_block_def mark_pending_committed_def discard_pending_def grown_def)
  then have "grown kp d0 (u_db x)" "msg_seq (wdb w) \<le> msg_seq (u_db x)" using g0 by (auto simp: grown_def seq_le_def intro: kept_trans named_trans)
  then show ?thesis using assms(2) queues_mono [of w "w\<lparr>wdb := u_db x\<rparr>"] by (simp add: sound_def)
qed

lemma sound_in_request [intro]: "(\<And>d. keeps (unit_ok kp d) m) \<Longrightarrow> keeps (sound kp d0) (in_request m)"
  by (rule keepsI) (auto simp: in_request_def split: prod.split intro: unit_session)

lemma sound_patch_body [intro]: "keeps (sound kp d0) (patch_body E now i p)"
proof (rule keepsI)
  fix w assume w: "sound kp d0 w"
  obtain r x where s: "in_session (ext_update E now i p) w = (r, x)" by (rule prod.exhaust)
  have v: "sound kp d0 (w\<lparr>wdb := u_db x\<rparr>)" by (rule unit_session [OF unit_endpoints(2) w s])
  have "keeps (sound kp d0) (seqM (flush_crm_status_events (sv_settings E) x) (ret dto))" for dto :: ext_mailbox_dto
    unfolding flush_crm_status_events_def by (intro keeps_bindM keeps_for_each sound_enqueue_best_effort keeps_ret)
  from keepsD [OF this v] show "sound kp d0 (snd (patch_body E now i p w))" using s v by (cases r) (simp_all add: patch_body_def)
qed

lemma sound_authorize [intro]: "keeps (sound kp d0) (authorize_read s now rq)" "keeps (sound kp d0) (authorize_write s now rq)"
  unfolding authorize_read_def authorize_write_def
  by (intro keeps_bindM sound_consume keeps_liftE keeps_if keeps_ret keeps_throw)+

lemma sound_ext_sync [intro]: "keeps (sound kp d0) (ext_sync i)"
proof (rule keepsI)
  fix w assume w: "sound kp d0 w"
  have "keeps (sound kp d0) (redis (\<lambda>v. ((), v\<lparr>force_marks := str_of_int i # filter (\<lambda>k. k \<noteq> str_of_int i) (force_marks v)\<rparr>)))"
    by (rule sound_redis, erule sound_silent) simp_all
  from keepsD [OF this w] show "sound kp d0 (snd (ext_sync i w))" using w by (auto simp: ext_sync_def split: prod.split sum.split)
qed

lemma sound_writes [intro]:
  "keeps (sound kp d0) (external_mailbox_test E now rq b1)" "keeps (sound kp d0) (external_mailbox_create E now rq b2)"
  "keeps (sound kp d0) (external_mailbox_update E now rq i b3)" "keeps (sound False d0) (external_mailbox_delete E now rq i)"
  "keeps (sound kp d0) (external_mailbox_sync E now rq i)" "keeps (sound kp d0) (external_oauth_authorize env s now rq st vf b4)"
  unfolding external_mailbox_test_def external_mailbox_create_def external_mailbox_update_def external_mailbox_delete_def
    external_mailbox_sync_def external_oauth_authorize_def
  by (intro keeps_bindM sound_authorize keeps_liftE sound_in_request unit_endpoints sound_patch_body sound_ext_sync un_read sound_authorize_url)+

lemma sound_callback [intro]: "keeps (sound kp d0) (external_oauth_callback env s c now rq code st err)"
  unfolding external_oauth_callback_def
  by (auto intro!: keeps_bindM sound_consume keeps_liftE keeps_if keeps_catchM split: option.split)

lemma sound_reads [intro]: "keeps (sound kp d0) (list_external_messages s now rq q)" "keeps (sound kp d0) (list_external_mailboxes s now rq act)"
  unfolding list_external_messages_def list_external_mailboxes_def
  by (intro keeps_if keeps_throw keeps_bindM sound_authorize keeps_getM un_read)+

section \<open>Sending, retention and the seed\<close>

definition sound_mail :: "bool \<Rightarrow> db \<Rightarrow> mail_world \<Rightarrow> bool" where
  "sound_mail kp d0 x \<longleftrightarrow> sound kp d0 (mw x)"

lemma mail_in_world [intro]: "keeps (sound kp d0) m \<Longrightarrow> keeps (sound_mail kp d0) (in_world m)"
proof (rule keepsI)
  fix x assume "keeps (sound kp d0) m" and "sound_mail kp d0 x"
  from keepsD [OF this(1), of "mw x"] this(2) show "sound_mail kp d0 (snd (in_world m x))" by (cases "m (mw x)") (simp add: sound_mail_def in_world_def)
qed

lemma mail_silent [intro]: "(\<And>x. mw (snd (m x)) = mw x) \<Longrightarrow> keeps (sound_mail kp d0) m"
  by (rule keepsI) (simp add: sound_mail_def)

definition sound_senders :: "bool \<Rightarrow> send_env \<Rightarrow> bool" where
  "sound_senders kp E \<longleftrightarrow> (\<forall>k. \<forall>p \<in> set (nd_peers E k). \<forall>w. sound kp (wdb w) w \<longrightarrow> sound kp (wdb w) (p w))"

lemma mail_token:
  assumes "sound_senders kp E"
  shows "keeps (sound_mail kp d0) (access_token_for E now k a)"
  unfolding access_token_for_def
  by (intro keeps_if keeps_throw mail_in_world sound_access_token) (use assms in \<open>simp add: sound_senders_def\<close>)

lemma mail_wire [intro]: "keeps (sound_mail kp d0) (put_on_wire E d)"
  by (rule mail_silent) (simp add: put_on_wire_def split: sum.split)

lemma mail_append_first [intro]: "keeps (sound_mail kp d0) (append_first E a e fs)"
proof (induction fs arbitrary: e)
  case (Cons f fs)
  have "keeps (sound_mail kp d0) (modifyM (\<lambda>x. x\<lparr>copies := copies x @ [(acc_id a, f)]\<rparr>))" by (rule mail_silent) simp
  then show ?case using Cons by (auto intro!: keeps_if split: sum.split)
qed (auto split: option.split)

lemma mail_append [intro]: "keeps (sound_mail kp d0) (append_copy E a tok)"
  unfolding append_copy_def imap_append_def
  by (auto intro!: keeps_bindM keeps_if split: option.split)

lemma mail_smtp:
  assumes "sound_senders kp E"
  shows "keeps (sound_mail kp d0) (smtp_send_message E now a m rcpts)"
  unfolding smtp_send_message_def smtp_send_oauth_def translate_send_def
  by (intro keeps_bindM keeps_if keeps_liftE keeps_catchM keeps_throw mail_wire mail_token [OF assms])

lemma mail_send:
  assumes "sound_senders kp E"
  shows "keeps (sound_mail kp d0) (external_mailbox_send E now rq i b)"
proof -
  have "keeps (sound_mail kp d0) (send_transport E now a r)" for a r
    unfolding send_transport_def best_effort_def Let_def
    by (auto intro!: keeps_bindM keeps_if keeps_catchM mail_token [OF assms] mail_smtp [OF assms])
  then have "keeps (sound_mail kp d0) (send_from_mailbox E now i r)" for r
    unfolding send_from_mailbox_def by (auto intro!: keeps_bindM split: option.split)
  then show ?thesis unfolding external_mailbox_send_def by (intro keeps_bindM mail_in_world sound_authorize keeps_liftE)
qed

lemma grown_retention: "grown False d0 d \<Longrightarrow> grown False d0 (snd (retention_cleanup s now d))"
proof -
  assume d: "grown False d0 d"
  then have "msgs_ok d" by (simp add: grown_def store_ok_def db_ok_def)
  from retention_loop_exact [OF this] show ?thesis
    using d by (auto simp: retention_cleanup_def grown_def store_ok_def db_ok_def users_ok_def accounts_ok_def msgs_ok_def seq_le_def distinct_map_filter)
qed

lemma grown_seed [intro]: "keeps (grown kp d0) seed_crm_service_user"
proof -
  have role: "keeps (grown kp d0) (modifyM (\<lambda>d. d\<lparr>users := update_where (\<lambda>y. usr_id y = i) (\<lambda>y. y\<lparr>usr_role := ''super_admin''\<rparr>) (users d)\<rparr>))" for i
  proof (rule keeps_modifyM)
    fix d assume d: "grown kp d0 d"
    let ?U = "update_where (\<lambda>y. usr_id y = i) (\<lambda>y. y\<lparr>usr_role := ''super_admin''\<rparr>) (users d)"
    have k: "map usr_id ?U = map usr_id (users d)" "map usr_username ?U = map usr_username (users d)" by (simp_all add: map_update_where)
    have i: "usr_id ` set ?U = usr_id ` set (users d)" using k(1) by (metis list.set_map)
    show "grown kp d0 (d\<lparr>users := ?U\<rparr>)"
      using d by (auto simp: grown_def store_ok_def db_ok_def users_ok_def accounts_ok_def msgs_ok_def seq_le_def k i)
        (auto simp: set_update_where user_checks_def)
  qed
  show ?thesis unfolding seed_crm_service_user_def
    by (auto intro!: keeps_bindM un_read keeps_if keeps_catchM role grown_transaction grown_create_user split: option.split)
qed

section \<open>The steps of the system\<close>

record deployment =
  dp_settings :: settings
  dp_mac :: hmac
  dp_cipher :: cipher
  dp_oauth :: oauth_env
  dp_service :: svc_env

definition outside :: "world \<Rightarrow> world \<Rightarrow> bool" where
  \<comment> \<open>what the environment may change: Redis comes and goes, replies change, markers and keys expire, queue entries are lost\<close>
  "outside w v \<longleftrightarrow> wdb v = wdb w \<and> set (push_q v) \<subseteq> set (push_q w) \<and> set (status_q v) \<subseteq> set (status_q w)"

inductive sys_step :: "deployment \<Rightarrow> bool \<Rightarrow> world \<Rightarrow> world \<Rightarrow> bool" for D kp where
  \<comment> \<open>with the flag set, no mailbox is deleted and retention does not run\<close>
  environment: "outside w v \<Longrightarrow> sys_step D kp w v"
| sync: "(\<And>i p v. p \<in> set (se_peers E i) \<Longrightarrow> (sys_step D kp)\<^sup>*\<^sup>* v (p v)) \<Longrightarrow> sys_step D kp w (snd (sync_cycle E now w))"
| forced_sync: "(\<And>i p v. p \<in> set (se_peers E i) \<Longrightarrow> (sys_step D kp)\<^sup>*\<^sup>* v (p v)) \<Longrightarrow> sys_step D kp w (snd (force_sync_dispatch E now w))"
| push: "sys_step D kp w (snd (crm_push_dispatch (dp_mac D) (dp_settings D) now w))"
| status: "sys_step D kp w (snd (crm_status_dispatch (dp_mac D) (dp_settings D) now w))"
| recovery: "sys_step D kp w (snd (crm_push_recovery_scan (dp_settings D) now w))"
| retention: "\<not> kp \<Longrightarrow> sys_step D kp w (w\<lparr>wdb := snd (retention_cleanup (dp_settings D) now (wdb w))\<rparr>)"
| seed: "sys_step D kp w (snd (on_db seed_crm_service_user w))"
| pull: "sys_step D kp w (snd (list_external_messages (dp_settings D) now rq q w))"
| list_boxes: "sys_step D kp w (snd (list_external_mailboxes (dp_settings D) now rq act w))"
| test: "sys_step D kp w (snd (external_mailbox_test (dp_service D) now rq b1 w))"
| create: "sys_step D kp w (snd (external_mailbox_create (dp_service D) now rq b2 w))"
| update: "sys_step D kp w (snd (external_mailbox_update (dp_service D) now rq i b3 w))"
| delete: "\<not> kp \<Longrightarrow> sys_step D kp w (snd (external_mailbox_delete (dp_service D) now rq i w))"
| force: "sys_step D kp w (snd (external_mailbox_sync (dp_service D) now rq i w))"
| authorize: "sys_step D kp w (snd (external_oauth_authorize (dp_oauth D) (dp_settings D) now rq st vf b4 w))"
| callback: "sys_step D kp w (snd (external_oauth_callback (dp_oauth D) (dp_settings D) (dp_cipher D) now rq code state err w))"
| send: "(\<And>k p v. p \<in> set (nd_peers S k) \<Longrightarrow> (sys_step D kp)\<^sup>*\<^sup>* v (p v)) \<Longrightarrow>
    sys_step D kp w (mw (snd (external_mailbox_send S now rq i b5 \<lparr>mw = w, wire = wr, copies = cp\<rparr>)))"

definition empty_db :: db where
  \<comment> \<open>a migrated, empty database\<close>
  "empty_db = \<lparr>users = [], accounts = [], msgs = [], acc_seq = 1, msg_seq = 1, usr_seq = 1\<rparr>"

definition fresh_world :: "world \<Rightarrow> bool" where
  "fresh_world w \<longleftrightarrow> wdb w = empty_db \<and> push_q w = [] \<and> status_q w = []"

inductive reachable :: "deployment \<Rightarrow> world \<Rightarrow> bool" for D where
  start: "fresh_world w \<Longrightarrow> reachable D w"
| step: "reachable D w \<Longrightarrow> sys_step D False w v \<Longrightarrow> reachable D v"

lemma reachable_steps: "(sys_step D False)\<^sup>*\<^sup>* w v \<Longrightarrow> reachable D w \<Longrightarrow> reachable D v"
  by (induction rule: rtranclp_induct) (auto intro: reachable.step)

text \<open>The two conjuncts of a soundness step: the target is sound, and its sequences did not go back.\<close>

definition sound_rel :: "bool \<Rightarrow> world \<Rightarrow> world \<Rightarrow> bool" where
  "sound_rel kp w v \<longleftrightarrow> sound kp (wdb w) w \<longrightarrow> sound kp (wdb w) v"

lemma sound_rel_keeps: "(\<And>d. keeps (sound kp d) m) \<Longrightarrow> sound_rel kp w (snd (m w))"
  unfolding sound_rel_def by (metis keepsD)

lemma sound_rel_trans: "sound_rel kp w v \<Longrightarrow> sound_rel kp v x \<Longrightarrow> sound_rel kp w x"
proof -
  assume 1: "sound_rel kp w v" and 2: "sound_rel kp v x"
  have "sound kp (wdb w) x" if w: "sound kp (wdb w) w"
  proof -
    have v: "sound kp (wdb w) v" using 1 w by (simp add: sound_rel_def)
    then have "sound kp (wdb v) x" using 2 sound_weaken by (simp add: sound_rel_def)
    then show ?thesis by (rule sound_rebase) (use v in \<open>simp add: sound_def\<close>)
  qed
  then show ?thesis by (simp add: sound_rel_def)
qed

lemma sound_rel_star: "(\<lambda>x y. sys_step D kp x y \<and> sound_rel kp x y)\<^sup>*\<^sup>* w v \<Longrightarrow> sound_rel kp w v"
  by (induction rule: rtranclp_induct) (auto simp: sound_rel_def [of kp w w] intro: sound_rel_trans)

lemma sys_step_sound: "sys_step D kp w v \<Longrightarrow> sound_rel kp w v"
proof (induction rule: sys_step.induct)
  case (environment w v)
  then show ?case by (auto simp: outside_def sound_rel_def sound_def queues_ok_def)
next
  case (sync E w now)
  have "sound_rel kp v (p v)" if "p \<in> set (se_peers E i)" for i p v by (rule sound_rel_star [OF sync [OF that]])
  then have "sound_peers kp E" by (simp add: sound_peers_def sound_rel_def)
  then show ?case by (intro sound_rel_keeps sound_cycle)
next
  case (forced_sync E w now)
  have "sound_rel kp v (p v)" if "p \<in> set (se_peers E i)" for i p v by (rule sound_rel_star [OF forced_sync [OF that]])
  then have "sound_peers kp E" by (simp add: sound_peers_def sound_rel_def)
  then show ?case by (intro sound_rel_keeps sound_forced)
next
  case (retention w now)
  show ?case
    using grown_retention [of "wdb w" "wdb w" "dp_settings D" now] retention
      queues_mono [of w "w\<lparr>wdb := snd (retention_cleanup (dp_settings D) now (wdb w))\<rparr>"]
    by (auto simp: sound_rel_def sound_def grown_def seq_le_def)
next
  case (delete w now rq i)
  then show ?case using sound_rel_keeps [OF sound_writes(4)] by simp
next
  case (send S w now rq i b5 wr cp)
  have "sound_rel kp v (p v)" if "p \<in> set (nd_peers S k)" for k p v by (rule sound_rel_star [OF send [OF that]])
  then have "sound_senders kp S" by (simp add: sound_senders_def sound_rel_def)
  from mail_send [OF this] have "keeps (sound_mail kp (wdb w)) (external_mailbox_send S now rq i b5)" .
  from keepsD [OF this, of "\<lparr>mw = w, wire = wr, copies = cp\<rparr>"] show ?case by (simp add: sound_rel_def sound_mail_def)
qed (intro sound_rel_keeps sound_dispatch sound_status sound_recovery sound_on_db grown_seed sound_reads sound_writes sound_callback)+

lemma reachable_sound: "reachable D w \<Longrightarrow> sound False (wdb w) w"
proof (induction rule: reachable.induct)
  case (start w)
  then show ?case
    by (simp add: fresh_world_def sound_def grown_def store_ok_def queues_ok_def empty_db_def db_ok_def users_ok_def accounts_ok_def msgs_ok_def)
next
  case (step w v)
  then show ?case using sys_step_sound [OF step(2)] sound_weaken by (auto simp: sound_rel_def)
qed

lemma sys_steps_sound: "(sys_step D kp)\<^sup>*\<^sup>* w v \<Longrightarrow> sound_rel kp w v"
  by (induction rule: rtranclp_induct) (auto simp: sound_rel_def [of kp w w] intro: sound_rel_trans sys_step_sound)

text \<open>
  C1. The invariant of the whole connector: in every state reachable from an empty database by any sequence of jobs, requests
  and outside events (with the sync and send jobs interrupted by such sequences while they wait for a token) all table
  constraints hold, every active mailbox can still be disabled by the worker, message ids are positive and below the
  sequence, every entry of the push queue parses to an id that was really assigned, and every entry of the status queue
  parses.
\<close>

theorem reachable_invariant:
  assumes "reachable D w"
  shows "db_ok (wdb w) \<and> (\<forall>a \<in> set (accounts (wdb w)). is_active a \<longrightarrow> disabled_alert_sent_at a = None) \<and>
    (\<forall>m \<in> set (msgs (wdb w)). 0 < msg_id m \<and> msg_id m < msg_seq (wdb w)) \<and>
    (\<forall>x \<in> set (push_q w). \<exists>i. parse_push_payload x = Some i \<and> 0 < i \<and> i < msg_seq (wdb w)) \<and>
    (\<forall>x \<in> set (status_q w). \<exists>i. parse_status_payload x = Some i)"
  using reachable_sound [OF assms]
  by (auto simp: sound_def grown_def store_ok_def armed_def queues_ok_def push_item_ok_def db_ok_def msgs_ok_def)

text \<open>
  C2. Received mail is never lost or altered: from any reachable state, through any sequence of jobs, requests and outside
  events other than the retention job and the deletion of a mailbox, every stored message is still stored with all its
  fields as they were, and a delivery stamp, once set, never moves.
\<close>

theorem mail_never_lost:
  assumes "reachable D w" and "(sys_step D True)\<^sup>*\<^sup>* w v" and "m \<in> set (msgs (wdb w))"
  shows "\<exists>x \<in> set (msgs (wdb v)). x = m\<lparr>pushed_at := pushed_at x\<rparr> \<and> (pushed_at m \<noteq> None \<longrightarrow> pushed_at x = pushed_at m)"
proof -
  have "sound True (wdb w) w" using reachable_sound [OF assms(1)] by (simp add: sound_def grown_def)
  then have "sound True (wdb w) v" using sys_steps_sound [OF assms(2)] by (simp add: sound_rel_def)
  then show ?thesis using assms(3) by (simp add: sound_def grown_def kept_def)
qed

section \<open>A concrete deployment\<close>

definition toy_deployment :: deployment where
  "toy_deployment = \<lparr>dp_settings = dev_settings, dp_mac = (\<lambda>_ _. u ''mac''), dp_cipher = toy_cipher, dp_oauth = toy_env, dp_service = toy_svc\<rparr>"

definition seeded :: world where
  "seeded = snd (on_db seed_crm_service_user (idle_world empty_db))"

lemma seeded_reachable: "reachable toy_deployment seeded"
  unfolding seeded_def
  by (rule reachable.step [OF reachable.start sys_step.seed]) (simp add: fresh_world_def idle_world_def)

theorem reachable_invariant_witness: "db_ok (wdb seeded) \<and> length (users (wdb seeded)) = 1"
proof -
  have "length (users (wdb seeded)) = 1" by code_simp
  with reachable_invariant [OF seeded_reachable] show ?thesis by blast
qed

definition boot_settings :: settings where
  "boot_settings = dev_settings\<lparr>EXTERNAL_API_KEY := u ''k'', EXTERNAL_WRITE_ENABLED := True\<rparr>"

definition boot_svc :: svc_env where
  "boot_svc = (create_svc plain_aead)\<lparr>sv_settings := boot_settings\<rparr>"

definition boot_deployment :: deployment where
  "boot_deployment = toy_deployment\<lparr>dp_service := boot_svc\<rparr>"

definition right_key :: http_req where
  "right_key = wrong_key\<lparr>rq_api_key := Some (u ''k'')\<rparr>"

definition with_mailbox :: world where
  "with_mailbox = snd (external_mailbox_create boot_svc 5 right_key (Some create_body) seeded)"

definition with_mail :: world where
  "with_mail = snd (sync_cycle (toy_sync (\<lambda>_. None) (toy_box 9 3 [raw 1, raw 2])) 7 with_mailbox)"

definition stored_directly :: world where
  \<comment> \<open>the effect of the create request, without running the probe\<close>
  "stored_directly = (case authorize_write boot_settings 5 right_key seeded of (_, v) \<Rightarrow>
     v\<lparr>wdb := u_db (snd (store_mailbox boot_svc 5 1 create_query \<lparr>u_db = wdb v, pending = [], committed = 0\<rparr>))\<rparr>)"

lemma boot_probe: "run_task (test_credentials boot_settings (slow_env (Inr ()) (Some 300) (Some 50) (Some 10)) (sample_request\<lparr>tr_email := Some (u ''me@b.co'')\<rparr>)) = Inr both_ok"
  by (simp add: run_task_def test_credentials_def under_deadline_def test_credentials_inner_def imap_leg_def smtp_leg_def imap_test_login_def
      smtp_test_login_def smtp_login_probe_def assert_public_host_async_def assert_public_host_def guarded_def map_done_def and_then_def
      finally_task_def close_smtp_client_def wait_for_def Let_def slow_env_def sample_request_def boot_settings_def dev_settings_def push_settings_def default_settings_def
      is_prod_def mute_def translate_imap_def translate_smtp_def IMAP_TIMEOUT_def SMTP_TIMEOUT_def SMTP_QUIT_TIMEOUT_def timeout_error_def)

lemma boot_steps:
  "case authorize_write boot_settings 5 right_key seeded of (Inr _, _) \<Rightarrow> True | _ \<Rightarrow> False"
  "wdb (snd (authorize_write boot_settings 5 right_key seeded)) = wdb seeded"
  "crm_scope \<lparr>u_db = wdb seeded, pending = [], committed = 0\<rparr>
     = (Inr \<lparr>vs_user_id = 1, vs_role = ''super_admin''\<rparr>, \<lparr>u_db = wdb seeded, pending = [], committed = 0\<rparr>)"
  "resolve_target_user_id \<lparr>vs_user_id = 1, vs_role = ''super_admin''\<rparr> (cr_target_user_id create_query) \<lparr>u_db = wdb seeded, pending = [], committed = 0\<rparr>
     = (Inr 1, \<lparr>u_db = wdb seeded, pending = [], committed = 0\<rparr>)"
  "find_by_user_email 1 (lf_email create_query) (wdb seeded) = Inr None"
  "case store_mailbox boot_svc 5 1 create_query \<lparr>u_db = wdb seeded, pending = [], committed = 0\<rparr> of
     (Inr d, y) \<Rightarrow> get_by_id (dto_id d) (u_db y) \<noteq> None | _ \<Rightarrow> False"
  by code_simp+

lemma with_mailbox_eq: "with_mailbox = stored_directly"
proof -
  let ?x0 = "\<lparr>u_db = wdb seeded, pending = [], committed = 0\<rparr>"
  obtain v where a: "authorize_write boot_settings 5 right_key seeded = (Inr (), v)"
    using boot_steps(1) by (cases "authorize_write boot_settings 5 right_key seeded") (auto split: sum.splits)
  have v: "wdb v = wdb seeded" using boot_steps(2) a by simp
  have t: "test_mailbox boot_svc (sample_request\<lparr>tr_email := Some (u ''me@b.co'')\<rparr>) None ?x0 = (Inr both_ok, ?x0)"
    using boot_probe by (simp add: test_mailbox_def boot_svc_def create_svc_def toy_svc_def require_def given_def sample_request_def)
  have c: "create_mailbox boot_svc 5 \<lparr>vs_user_id = 1, vs_role = ''super_admin''\<rparr> create_query ?x0 = store_mailbox boot_svc 5 1 create_query ?x0"
    using create_steps(5) boot_steps(4,5) t by (simp add: create_mailbox_def bindM_app)
  obtain d y where s: "store_mailbox boot_svc 5 1 create_query ?x0 = (Inr d, y)" and g: "get_by_id (dto_id d) (u_db y) \<noteq> None"
    using boot_steps(6) by (cases "store_mailbox boot_svc 5 1 create_query ?x0") (auto split: sum.splits)
  obtain dto where e: "ext_create boot_svc 5 create_body ?x0 = (Inr dto, y)"
    using create_steps(2) boot_steps(3) c s g by (auto simp: ext_create_def bindM_app present_def)
  have "in_request (ext_create boot_svc 5 create_body) v = (Inr dto, v\<lparr>wdb := u_db y\<rparr>)"
    using e v by (simp add: in_request_def in_session_def begin_block_def mark_pending_committed_def)
  moreover have "sv_settings boot_svc = boot_settings" by (simp add: boot_svc_def)
  ultimately show ?thesis
    using a s v by (simp add: with_mailbox_def stored_directly_def external_mailbox_create_def bindM_app parse_json_body_def create_body_valid)
qed

lemma with_mail_content: "map body_text (msgs (wdb (snd (sync_cycle (toy_sync (\<lambda>_. None) (toy_box 9 3 [raw 1, raw 2])) 7 stored_directly)))) \<noteq> []"
  by code_simp

lemma with_mail_reachable: "reachable boot_deployment with_mail"
proof -
  have 0: "reachable boot_deployment seeded" unfolding seeded_def
    by (rule reachable.step [OF reachable.start sys_step.seed]) (simp add: fresh_world_def idle_world_def)
  have "sys_step boot_deployment False seeded (snd (external_mailbox_create (dp_service boot_deployment) 5 right_key (Some create_body) seeded))"
    by (rule sys_step.create)
  then have 1: "reachable boot_deployment with_mailbox"
    by (intro reachable.step [OF 0]) (simp add: with_mailbox_def boot_deployment_def)
  have "sys_step boot_deployment False with_mailbox with_mail" unfolding with_mail_def
    by (rule sys_step.sync) (simp add: toy_sync_def)
  then show ?thesis by (rule reachable.step [OF 1])
qed

theorem mail_never_lost_witness:
  "\<exists>m x v. m \<in> set (msgs (wdb with_mail)) \<and> v = snd (crm_push_dispatch (\<lambda>_ _. u ''mac'') dev_settings 9 with_mail) \<and>
     x \<in> set (msgs (wdb v)) \<and> x = m\<lparr>pushed_at := pushed_at x\<rparr>"
proof -
  have "msgs (wdb with_mail) \<noteq> []" using with_mail_content unfolding with_mail_def with_mailbox_eq by simp
  then obtain m where m: "m \<in> set (msgs (wdb with_mail))" by (cases "msgs (wdb with_mail)") auto
  have "sys_step boot_deployment True with_mail (snd (crm_push_dispatch (dp_mac boot_deployment) (dp_settings boot_deployment) 9 with_mail))"
    by (rule sys_step.push)
  then have "(sys_step boot_deployment True)\<^sup>*\<^sup>* with_mail (snd (crm_push_dispatch (\<lambda>_ _. u ''mac'') dev_settings 9 with_mail))"
    by (simp add: boot_deployment_def toy_deployment_def)
  from mail_never_lost [OF with_mail_reachable this m] m show ?thesis by blast
qed

end
