(* ===== verification/Logging.thy ===== *)
theory Logging
  imports Errors Settings
begin

text \<open>
  \<open>shared/logging.py\<close>: the redact list, the configuration of the loggers and the chain of structlog processors. An event is
  its dictionary (\<open>fields\<close>). structlog's own processors are the record \<open>structlog\<close>, a parameter; \<open>structlog_ok\<close> states
  what its documentation says of them. Facts: what can reach the output under a listed name, and which level an event needs.
\<close>

type_synonym fields = "(string \<times> json) list"

section \<open>Redaction\<close>

definition REDACT_KEYS :: "string list" where
  "REDACT_KEYS = [
     ''password'', ''new_password'', ''old_password'', ''password_confirm'', ''encrypted_password'', ''smtp_password'',
     ''smtp_encrypted_password'', ''csrf_token'', ''session_token'', ''setup_token'', ''mas_session'', ''mas_csrf'', ''mas_setup'',
     ''Authorization'', ''authorization'', ''X-CSRF-Token'', ''MAIL_ENCRYPTION_KEY'', ''MAIL_ENCRYPTION_KEY_PREV'',
     ''ADMIN_PASSWORD'', ''POSTGRES_PASSWORD'', ''OUTLOOK_CLIENT_SECRET'', ''client_secret'', ''code'', ''code_verifier'',
     ''access_token'', ''refresh_token'', ''oauth_access_token'', ''oauth_refresh_token'', ''id_token'', ''EXTERNAL_API_KEY'',
     ''X-API-Key'', ''x-api-key'', ''FORWARD_SMTP_PASSWORD'', ''CRM_PUSH_SECRET'']"

definition REDACTED :: json where
  "REDACTED = JStr (u ''[REDACTED]'')"

definition redact_processor :: "fields \<Rightarrow> fields" where
  "redact_processor ed = map (\<lambda>(k, v). (k, if k \<in> set REDACT_KEYS then REDACTED else v)) ed"

section \<open>The processor chain\<close>

record structlog =
  merge_contextvars :: "fields \<Rightarrow> fields \<Rightarrow> fields"
  add_log_level :: "int \<Rightarrow> fields \<Rightarrow> fields"
  time_stamper :: "fields \<Rightarrow> fields"
  stack_info_renderer :: "fields \<Rightarrow> fields"
  format_exc_info :: "fields \<Rightarrow> fields"
  json_renderer :: "fields \<Rightarrow> pystr"

definition processed :: "structlog \<Rightarrow> fields \<Rightarrow> int \<Rightarrow> fields \<Rightarrow> fields" where
  \<comment> \<open>the list \<open>processors\<close> up to the renderer, in its order\<close>
  "processed L ctx lvl ed =
     format_exc_info L (stack_info_renderer L (redact_processor (time_stamper L (add_log_level L lvl (merge_contextvars L ctx ed)))))"

fun put_field :: "string \<Rightarrow> json \<Rightarrow> fields \<Rightarrow> fields" where
  \<comment> \<open>\<open>event_dict[k] = v\<close>\<close>
  "put_field k v [] = [(k, v)]"
| "put_field k v ((k', w) # ed) = (if k' = k then (k, v) # ed else (k', w) # put_field k v ed)"

definition adds_only :: "string \<Rightarrow> (fields \<Rightarrow> fields) \<Rightarrow> bool" where
  \<comment> \<open>every entry that comes out went in or has this name\<close>
  "adds_only k f \<longleftrightarrow> (\<forall>ed e. e \<in> set (f ed) \<longrightarrow> e \<in> set ed \<or> fst e = k)"

definition structlog_ok :: "structlog \<Rightarrow> bool" where
  \<comment> \<open>the documented effect of the processors: the context gives the entries the event lacks; the level and the time are one
      entry each; \<open>stack\<close> and \<open>exception\<close> are written after the redaction\<close>
  "structlog_ok L \<longleftrightarrow>
     (\<forall>ctx ed. merge_contextvars L ctx ed = ed @ filter (\<lambda>e. fst e \<notin> fst ` set ed) ctx) \<and>
     (\<forall>lvl. \<exists>v. add_log_level L lvl = put_field ''level'' v) \<and> (\<exists>v. time_stamper L = put_field ''timestamp'' v) \<and>
     adds_only ''stack'' (stack_info_renderer L) \<and> adds_only ''exception'' (format_exc_info L)"

section \<open>Configuration\<close>

definition upper_cp :: "int \<Rightarrow> pystr" where
  \<comment> \<open>the code points whose upper case is ASCII\<close>
  "upper_cp c = (if 97 \<le> c \<and> c \<le> 122 then [c - 32] else if c = 305 then [73] else if c = 383 then [83]
     else if c = 64261 \<or> c = 64262 then [83, 84] else [c])"

definition py_upper :: "pystr \<Rightarrow> pystr" where
  "py_upper s = concat (map upper_cp s)"

datatype logging_attr = Level int | Text_Value pystr | Dict_Value

definition logging_attrs :: "(pystr \<times> logging_attr) list" where
  \<comment> \<open>the attributes of the module \<open>logging\<close> with an upper-case name\<close>
  "logging_attrs = [(u ''CRITICAL'', Level 50), (u ''FATAL'', Level 50), (u ''ERROR'', Level 40), (u ''WARNING'', Level 30),
     (u ''WARN'', Level 30), (u ''INFO'', Level 20), (u ''DEBUG'', Level 10), (u ''NOTSET'', Level 0),
     (u ''BASIC_FORMAT'', Text_Value (u ''%(levelname)s:%(name)s:%(message)s'')), (u ''_STYLES'', Dict_Value)]"

definition log_level_of :: "pystr \<Rightarrow> pyexc + int" where
  \<comment> \<open>\<open>getattr(logging, level.upper(), logging.INFO)\<close>, which \<open>basicConfig\<close> refuses when it is no level\<close>
  "log_level_of level = (case map_of logging_attrs (py_upper level) of
       None \<Rightarrow> Inr 20
     | Some (Level n) \<Rightarrow> Inr n
     | Some (Text_Value t) \<Rightarrow> Inl (mk_exc EValueError (u ''Unknown level: '' @ [39] @ t @ [39]))
     | Some Dict_Value \<Rightarrow> Inl (mk_exc ETypeError (u ''Level not an integer or a valid string'')))"

record log_state =
  root_level :: int
  logger_levels :: "(string \<times> int) list"
  min_level :: int
  contextvars :: fields

definition configure_logging :: "pystr \<Rightarrow> string \<Rightarrow> log_state \<Rightarrow> (pyexc + unit) \<times> log_state" where
  "configure_logging level service st = (case log_level_of level of
       Inl e \<Rightarrow> (Inl e, st)
     | Inr n \<Rightarrow> (Inr (), \<lparr>root_level = n,
         logger_levels = [(''uvicorn.access'', max n 20), (''asyncio'', max n 20), (''httpx'', 30), (''httpcore'', 30)],
         min_level = n, contextvars = [(''service'', JStr (u service))]\<rparr>))"

definition log_event :: "structlog \<Rightarrow> log_state \<Rightarrow> int \<Rightarrow> fields \<Rightarrow> pystr option" where
  \<comment> \<open>a call \<open>log.<level>(event, ...)\<close>: the line printed, if any\<close>
  "log_event L st lvl ed = (if lvl < min_level st then None else Some (json_renderer L (processed L (contextvars st) lvl ed)))"

section \<open>What is hidden\<close>

lemma redact_keys [simp]: "map fst (redact_processor ed) = map fst ed"
  by (simp add: redact_processor_def comp_def case_prod_unfold)

lemma redact_idem: "redact_processor (redact_processor ed) = redact_processor ed"
  by (auto simp: redact_processor_def)

lemma redact_listed: "(k, v) \<in> set (redact_processor ed) \<Longrightarrow> k \<in> set REDACT_KEYS \<Longrightarrow> v = REDACTED"
  by (auto simp: redact_processor_def)

lemma redact_other: "k \<notin> set REDACT_KEYS \<Longrightarrow> (k, v) \<in> set (redact_processor ed) \<longleftrightarrow> (k, v) \<in> set ed"
  by (force simp: redact_processor_def split: if_splits)

lemma redact_put: "redact_processor (put_field k v ed) = redact_processor (put_field k v (redact_processor ed))"
  by (induction ed) (auto simp: redact_processor_def)

lemma redact_merge:
  "structlog_ok L \<Longrightarrow> redact_processor (merge_contextvars L ctx (redact_processor ed)) = redact_processor (merge_contextvars L ctx ed)"
proof -
  assume "structlog_ok L"
  then have m: "merge_contextvars L ctx ed = ed @ filter (\<lambda>e. fst e \<notin> set (map fst ed)) ctx" for ed
    by (simp add: structlog_ok_def)
  show ?thesis unfolding m redact_keys by (auto simp: redact_processor_def)
qed

lemma redact_before:
  assumes "structlog_ok L"
  shows "redact_processor (time_stamper L (add_log_level L lvl (merge_contextvars L ctx (redact_processor ed)))) =
         redact_processor (time_stamper L (add_log_level L lvl (merge_contextvars L ctx ed)))"
proof -
  obtain v t where v: "add_log_level L lvl = put_field ''level'' v" and t: "time_stamper L = put_field ''timestamp'' t"
    using assms unfolding structlog_ok_def by blast
  have "redact_processor (put_field ''timestamp'' t (put_field ''level'' v a)) =
        redact_processor (put_field ''timestamp'' t (put_field ''level'' v (redact_processor a)))" for a
    using redact_put [of "''timestamp''" t "put_field ''level'' v a"]
      redact_put [of "''timestamp''" t "put_field ''level'' v (redact_processor a)"] redact_put [of "''level''" v a] by simp
  from this [of "merge_contextvars L ctx ed"] this [of "merge_contextvars L ctx (redact_processor ed)"]
  show ?thesis unfolding v t by (simp add: redact_merge [OF assms])
qed

lemma rendered_keys: "''stack'' \<notin> set REDACT_KEYS" "''exception'' \<notin> set REDACT_KEYS"
  by code_simp+

lemma listed_after:
  assumes "structlog_ok L" and "(k, v) \<in> set (processed L ctx lvl ed)" and "k \<in> set REDACT_KEYS"
  shows "v = REDACTED"
proof -
  let ?r = "redact_processor (time_stamper L (add_log_level L lvl (merge_contextvars L ctx ed)))"
  have "k \<noteq> ''stack''" "k \<noteq> ''exception''" using assms(3) rendered_keys by metis+
  then have "(k, v) \<in> set ?r"
    using assms(1,2) unfolding processed_def structlog_ok_def adds_only_def by (metis fst_conv)
  then show ?thesis using assms(3) by (rule redact_listed)
qed

text \<open>
  C29. No value logged under a name of the redact list influences the output: the line printed for an event is the line of the
  event with those values replaced, and after the processors an entry with such a name holds \<open>[REDACTED]\<close>, whether the
  caller passed it or the context had it. An event below the configured level prints nothing.
\<close>
theorem listed_values_never_rendered:
  assumes "structlog_ok L"
  shows "log_event L st lvl ed = log_event L st lvl (redact_processor ed) \<and>
     (\<forall>k v. (k, v) \<in> set (processed L (contextvars st) lvl ed) \<and> k \<in> set REDACT_KEYS \<longrightarrow> v = REDACTED) \<and>
     (lvl < min_level st \<longleftrightarrow> log_event L st lvl ed = None)"
  using redact_before [OF assms] listed_after [OF assms] by (auto simp: log_event_def processed_def)

definition plain_structlog :: structlog where
  "plain_structlog = \<lparr>merge_contextvars = (\<lambda>ctx ed. ed @ filter (\<lambda>e. fst e \<notin> fst ` set ed) ctx),
     add_log_level = (\<lambda>lvl. put_field ''level'' (JInt lvl)), time_stamper = put_field ''timestamp'' (JStr (u ''2026-07-15'')),
     stack_info_renderer = id, format_exc_info = id, json_renderer = (\<lambda>ed. concat (map (\<lambda>(k, v). u k) ed))\<rparr>"

lemma plain_structlog_ok: "structlog_ok plain_structlog"
  by (auto simp: structlog_ok_def plain_structlog_def adds_only_def)

definition api_log :: log_state where
  "api_log = snd (configure_logging (u ''info'') ''api'' \<lparr>root_level = 30, logger_levels = [], min_level = 0, contextvars = []\<rparr>)"

text \<open>The event \<open>domain_error\<close> of the exception handlers: its field \<open>code\<close> shares a listed name and is always lost.\<close>

theorem listed_values_never_rendered_witness:
  "log_event plain_structlog api_log 20 [(''event'', JStr (u ''domain_error'')), (''code'', JStr (u ''invalid_host''))] =
   log_event plain_structlog api_log 20 [(''event'', JStr (u ''domain_error'')), (''code'', REDACTED)]"
proof -
  have "redact_processor [(''event'', JStr (u ''domain_error'')), (''code'', JStr (u ''invalid_host''))] =
    [(''event'', JStr (u ''domain_error'')), (''code'', REDACTED)]" by code_simp
  then show ?thesis
    using listed_values_never_rendered [OF plain_structlog_ok, of api_log 20
      "[(''event'', JStr (u ''domain_error'')), (''code'', JStr (u ''invalid_host''))]"] by simp
qed

section \<open>What is not\<close>

lemma nested_not_redacted:
  \<comment> \<open>a listed name inside a value, or in other capitals, is printed\<close>
  "redact_processor [(''headers'', JObj [(''Authorization'', JStr s)]), (''Password'', JStr s)] =
     [(''headers'', JObj [(''Authorization'', JStr s)]), (''Password'', JStr s)]"
  by (simp add: redact_processor_def REDACT_KEYS_def)

lemma configure_logging_idem:
  "configure_logging level service (snd (configure_logging level' service' st)) =
     (case log_level_of level of Inl e \<Rightarrow> (Inl e, snd (configure_logging level' service' st)) | _ \<Rightarrow> configure_logging level service st)"
  by (auto simp: configure_logging_def split: sum.split)

lemma unknown_level_is_info: "map_of logging_attrs (py_upper level) = None \<Longrightarrow> log_level_of level = Inr 20"
  by (simp add: log_level_of_def)

end
