(* ===== verification/Api_Main.thy ===== *)
theory Api_Main
  imports System Logging
begin

text \<open>
  The API process: \<open>backend/app/main.py\<close> (start-up, routers, middleware order), \<open>backend/app/middlewares.py\<close>,
  \<open>backend/app/health/router.py\<close>, the sessions of \<open>shared/db.py\<close> and the pages of \<open>external/router.py\<close>. A request is
  served by \<open>serve\<close>: the route, inside the exception handlers, inside the two middlewares, inside the handler of unexpected
  exceptions. Header lists have the case-insensitive names of the framework. Facts: what every answer carries, that serving is
  a step of \<open>System\<close>, and that a started service keeps its technical user.
\<close>

section \<open>Responses\<close>

definition lower_char :: "char \<Rightarrow> char" where
  "lower_char c = (if 65 \<le> (of_char c :: nat) \<and> (of_char c :: nat) \<le> 90 then char_of ((of_char c :: nat) + 32) else c)"

definition lower_name :: "string \<Rightarrow> string" where
  "lower_name = map lower_char"

definition header_get :: "string \<Rightarrow> (string \<times> pystr) list \<Rightarrow> pystr option" where
  "header_get k hs = map_of hs (lower_name k)"

definition header_set :: "string \<Rightarrow> pystr \<Rightarrow> (string \<times> pystr) list \<Rightarrow> (string \<times> pystr) list" where
  "header_set k v hs = (let n = lower_name k in filter (\<lambda>e. fst e \<noteq> n) hs @ [(n, v)])"

definition header_setdefault :: "string \<Rightarrow> pystr \<Rightarrow> (string \<times> pystr) list \<Rightarrow> (string \<times> pystr) list" where
  "header_setdefault k v hs = (if header_get k hs = None then hs @ [(lower_name k, v)] else hs)"

datatype content = Json json | Page pull_page | Mailboxes "ext_mailbox_dto list" | Mailbox ext_mailbox_dto | Tested test_result
  | Queued | Sent pystr | Consent "pystr \<times> pystr" | Html pystr | Generated | Empty
  \<comment> \<open>\<open>Generated\<close>: the documents the framework makes\<close>

record response =
  res_status :: int
  res_headers :: "(string \<times> pystr) list"
  res_content :: content

definition json_response :: "int \<Rightarrow> (string \<times> pystr) list \<Rightarrow> content \<Rightarrow> response" where
  "json_response st hs c = \<lparr>res_status = st,
     res_headers = map (\<lambda>(k, v). (lower_name k, v)) hs @ [(''content-type'', u ''application/json'')], res_content = c\<rparr>"

definition html_response :: "(string \<times> pystr) list \<Rightarrow> content \<Rightarrow> response" where
  "html_response hs c = \<lparr>res_status = 200,
     res_headers = map (\<lambda>(k, v). (lower_name k, v)) hs @ [(''content-type'', u ''text/html; charset=utf-8'')], res_content = c\<rparr>"

definition error_response :: "http_response \<Rightarrow> response" where
  "error_response r = json_response (rs_status r) (rs_headers r) (Json (rs_body r))"

section \<open>The callback page\<close>

definition oauth_html_page :: "pystr \<Rightarrow> pystr \<Rightarrow> pystr \<Rightarrow> response" where
  "oauth_html_page title heading message = html_response [(''Cache-Control'', u ''no-store'')] (Html
     (u ''<!doctype html><html lang='' @ [34] @ u ''ru'' @ [34] @ u ''><head><meta charset='' @ [34] @ u ''utf-8'' @ [34] @ u ''>''
      @ u ''<meta name='' @ [34] @ u ''viewport'' @ [34] @ u '' content='' @ [34] @ u ''width=device-width, initial-scale=1'' @ [34] @ u ''>''
      @ u ''<title>'' @ title @ u ''</title>''
      @ u ''<style>body{font-family:system-ui,-apple-system,Segoe UI,Roboto,sans-serif;''
      @ u ''background:#0f172a;color:#e2e8f0;display:flex;min-height:100vh;margin:0;''
      @ u ''align-items:center;justify-content:center}main{max-width:28rem;padding:2rem;''
      @ u ''text-align:center}h1{font-size:1.25rem;margin:0 0 .75rem}p{color:#94a3b8;''
      @ u ''line-height:1.5;margin:0}</style></head><body><main>''
      @ u ''<h1>'' @ heading @ u ''</h1><p>'' @ message @ u ''</p></main></body></html>''))"

definition OAUTH_OK_TITLE :: pystr where
  "OAUTH_OK_TITLE = u ''Outlook '' @ [1087, 1086, 1076, 1082, 1083, 1102, 1095, 1105, 1085]"

definition OAUTH_OK_MESSAGE :: pystr where
  "OAUTH_OK_MESSAGE = [1071, 1097, 1080, 1082, 32, 1076, 1086, 1073, 1072, 1074, 1083, 1077, 1085, 46, 32, 1042, 1077, 1088, 1085,
     1080, 1090, 1077, 1089, 1100, 32, 1074] @ u '' CRM '' @ [8212, 32, 1084, 1086, 1078, 1085, 1086, 32, 1079, 1072, 1082, 1088,
     1099, 1090, 1100, 32, 1101, 1090, 1091, 32, 1074, 1082, 1083, 1072, 1076, 1082, 1091, 46]"

definition OAUTH_ERR_TITLE :: pystr where
  "OAUTH_ERR_TITLE = [1053, 1077, 32, 1091, 1076, 1072, 1083, 1086, 1089, 1100, 32, 1087, 1086, 1076, 1082, 1083, 1102, 1095, 1080,
     1090, 1100] @ u '' Outlook''"

definition OAUTH_ERR_MESSAGE :: pystr where
  "OAUTH_ERR_MESSAGE = [1055, 1086, 1076, 1082, 1083, 1102, 1095, 1077, 1085, 1080, 1077, 32, 1085, 1077, 32, 1079, 1072, 1074,
     1077, 1088, 1096, 1077, 1085, 1086, 46, 32, 1042, 1077, 1088, 1085, 1080, 1090, 1077, 1089, 1100, 32, 1074] @ u '' CRM ''
     @ [1080, 32, 1087, 1086, 1074, 1090, 1086, 1088, 1080, 1090, 1077, 32, 1087, 1086, 1087, 1099, 1090, 1082, 1091, 32, 1076, 1086,
     1073, 1072, 1074, 1083, 1077, 1085, 1080, 1103, 32, 1103, 1097, 1080, 1082, 1072, 46]"

definition oauth_page :: "callback_page \<Rightarrow> response" where
  \<comment> \<open>\<open>_oauth_success_page\<close> and \<open>_oauth_error_page\<close>\<close>
  "oauth_page p = (case p of SuccessPage \<Rightarrow> oauth_html_page OAUTH_OK_TITLE OAUTH_OK_TITLE OAUTH_OK_MESSAGE
     | ErrorPage \<Rightarrow> oauth_html_page OAUTH_ERR_TITLE OAUTH_ERR_TITLE OAUTH_ERR_MESSAGE)"

section \<open>The state of the process\<close>

record api =
  apw :: mail_world
  logs :: log_state

definition in_api :: "(mail_world, 'a) prog \<Rightarrow> (api, 'a) prog" where
  "in_api m a = (case m (apw a) of (r, x) \<Rightarrow> (r, a\<lparr>apw := x\<rparr>))"

definition on_logs :: "(log_state \<Rightarrow> (pyexc + 'a) \<times> log_state) \<Rightarrow> (api, 'a) prog" where
  "on_logs m a = (case m (logs a) of (r, x) \<Rightarrow> (r, a\<lparr>logs := x\<rparr>))"

definition bind_contextvars :: "string \<Rightarrow> json \<Rightarrow> log_state \<Rightarrow> log_state" where
  "bind_contextvars k v st = st\<lparr>contextvars := put_field k v (contextvars st)\<rparr>"

definition unbind_contextvars :: "string \<Rightarrow> log_state \<Rightarrow> log_state" where
  "unbind_contextvars k st = st\<lparr>contextvars := filter (\<lambda>e. fst e \<noteq> k) (contextvars st)\<rparr>"

section \<open>Middlewares\<close>

definition quoted :: "string \<Rightarrow> pystr" where
  "quoted s = [39] @ u s @ [39]"

definition CSP :: pystr where
  "CSP = u ''default-src '' @ quoted ''self'' @ u ''; '' @ u ''img-src '' @ quoted ''self'' @ u '' data:; '' @ u ''style-src '' @ quoted ''self'' @ u ''; ''
     @ u ''script-src '' @ quoted ''self'' @ u ''; '' @ u ''form-action '' @ quoted ''self'' @ u ''; '' @ u ''frame-ancestors '' @ quoted ''none'' @ u ''; ''
     @ u ''base-uri '' @ quoted ''self''"

definition PERMISSIONS :: pystr where
  "PERMISSIONS = u ''geolocation=(), camera=(), microphone=()''"

definition with_security_headers :: "settings \<Rightarrow> response \<Rightarrow> response" where
  "with_security_headers s r =
     (let ct = (case header_get ''content-type'' (res_headers r) of None \<Rightarrow> [] | Some v \<Rightarrow> v);
          h1 = header_setdefault ''X-Content-Type-Options'' (u ''nosniff'') (res_headers r);
          h2 = header_setdefault ''Cache-Control'' (u ''no-store'') (header_setdefault ''Permissions-Policy'' PERMISSIONS
                 (header_setdefault ''Referrer-Policy'' (u ''same-origin'') (header_setdefault ''X-Frame-Options'' (u ''DENY'')
                   (header_setdefault ''Content-Security-Policy'' CSP h1))));
          h3 = header_setdefault ''Strict-Transport-Security'' (u ''max-age=31536000; includeSubDomains'') h2
      in r\<lparr>res_headers := if \<not> py_startswith (u ''text/html'') ct then h1 else if is_prod s then h3 else h2\<rparr>)"

definition security_headers_dispatch :: "settings \<Rightarrow> (api, response) prog \<Rightarrow> (api, response) prog" where
  "security_headers_dispatch s call_next = bindM call_next (\<lambda>r. ret (with_security_headers s r))"

definition request_id_dispatch :: "pystr option \<Rightarrow> pystr \<Rightarrow> (api, response) prog \<Rightarrow> (api, response) prog" where
  \<comment> \<open>the inbound header, the new UUID; the binding is undone whatever happens inside\<close>
  "request_id_dispatch hdr uuid call_next a =
     (let rid = (if given hdr then the hdr else uuid);
          (res, a') = call_next (a\<lparr>logs := bind_contextvars ''request_id'' (JStr rid) (logs a)\<rparr>);
          a'' = a'\<lparr>logs := unbind_contextvars ''request_id'' (logs a')\<rparr>
      in (case res of Inl e \<Rightarrow> (Inl e, a'') | Inr r \<Rightarrow> (Inr (r\<lparr>res_headers := header_set ''X-Request-ID'' rid (res_headers r)\<rparr>), a'')))"

section \<open>Health\<close>

definition healthz :: response where
  "healthz = json_response 200 [] (Json (JObj [(''status'', JStr (u ''ok''))]))"

definition readyz :: "pyexc + unit \<Rightarrow> (world, response) prog" where
  \<comment> \<open>the outcome of \<open>SELECT 1\<close> and the PING\<close>
  "readyz select_one =
     bindM (catchM (seqM (liftE select_one) (ret True)) (\<lambda>e. if isinstance e EException then ret False else throw e)) (\<lambda>db_ok.
     bindM (catchM (redis (\<lambda>w. (True, w))) (\<lambda>e. if isinstance e EException then ret False else throw e)) (\<lambda>redis_ok.
     let body = JObj [(''db'', JStr (u (if db_ok then ''ok'' else ''fail''))), (''redis'', JStr (u (if redis_ok then ''ok'' else ''fail'')))]
     in ret (if \<not> (db_ok \<and> redis_ok) then json_response 503 [] (Json (JObj [(''error'', JObj
              [(''code'', JStr (u ''dependency_unavailable'')), (''message'', JStr (u ''One or more dependencies are unhealthy'')),
               (''details'', body)])]))
            else json_response 200 [] (Json body))))"

section \<open>Routing\<close>

datatype call =
    Healthz
  | Readyz "pyexc + unit"
  | Pull pull_query
  | List_Mailboxes "bool option"
  | Test "login_fields option"
  | Create "ext_create_request option"
  | Patch int "ext_update_body option"
  | Remove int
  | Sync_Now int
  | Send_Mail send_env int "send_request option"
  | Authorize pystr pystr "pystr option"
  | Callback "pystr option" "pystr option" "pystr option"
  | Docs
  | Openapi
  | No_Such_Path
  | Wrong_Method

definition answered :: "int \<Rightarrow> ('a \<Rightarrow> content) \<Rightarrow> (world, 'a) prog \<Rightarrow> (mail_world, response) prog" where
  "answered st f m = in_world (bindM m (\<lambda>x. ret (json_response st [] (f x))))"

fun route :: "deployment \<Rightarrow> int \<Rightarrow> http_req \<Rightarrow> call \<Rightarrow> (mail_world, response) prog" where
  \<comment> \<open>the routers with the status codes of their decorators; the documents of \<open>FastAPI(docs_url=..., openapi_url=...)\<close>\<close>
  "route D now rq Healthz = ret healthz"
| "route D now rq (Readyz one) = in_world (readyz one)"
| "route D now rq (Pull q) = answered 200 Page (list_external_messages (dp_settings D) now rq q)"
| "route D now rq (List_Mailboxes act) = answered 200 Mailboxes (list_external_mailboxes (dp_settings D) now rq act)"
| "route D now rq (Test b) = answered 200 Tested (external_mailbox_test (dp_service D) now rq b)"
| "route D now rq (Create b) = answered 201 Mailbox (external_mailbox_create (dp_service D) now rq b)"
| "route D now rq (Patch i b) = answered 200 Mailbox (external_mailbox_update (dp_service D) now rq i b)"
| "route D now rq (Remove i) = in_world (bindM (external_mailbox_delete (dp_service D) now rq i)
     (\<lambda>_. ret \<lparr>res_status = 204, res_headers = [], res_content = Empty\<rparr>))"
| "route D now rq (Sync_Now i) = answered 202 (\<lambda>_. Queued) (external_mailbox_sync (dp_service D) now rq i)"
| "route D now rq (Send_Mail S i b) = bindM (external_mailbox_send S now rq i b) (\<lambda>x. ret (json_response 200 [] (Sent x)))"
| "route D now rq (Authorize st vf b) =
     answered 200 Consent (external_oauth_authorize (dp_oauth D) (dp_settings D) now rq st vf b)"
| "route D now rq (Callback code state err) =
     in_world (bindM (external_oauth_callback (dp_oauth D) (dp_settings D) (dp_cipher D) now rq code state err) (\<lambda>p. ret (oauth_page p)))"
| "route D now rq Docs = (if ENABLE_DOCS (dp_settings D) then ret (html_response [] Generated)
     else ret (error_response (http_handler 404 (u ''Not Found''))))"
| "route D now rq Openapi = ret (json_response 200 [] Generated)"
| "route D now rq No_Such_Path = ret (error_response (http_handler 404 (u ''Not Found'')))"
| "route D now rq Wrong_Method = ret (error_response (http_handler 405 (u ''Method Not Allowed'')))"

definition handled :: "pyexc \<Rightarrow> bool" where
  \<comment> \<open>exceptions with a handler of their own; the one for \<open>Exception\<close> stands outside the middlewares\<close>
  "handled e \<longleftrightarrow> (case ecls e of EDomain c \<Rightarrow> True | ERequestValidationError \<Rightarrow> True | _ \<Rightarrow> False)"

definition exception_middleware :: "(api, response) prog \<Rightarrow> (api, response) prog" where
  "exception_middleware m = catchM m (\<lambda>e. if handled e then ret (error_response (dispatch_handler e)) else throw e)"

definition server_error_middleware :: "(api, response) prog \<Rightarrow> (api, response) prog" where
  "server_error_middleware m = catchM m (\<lambda>e. if isinstance e EException then ret (error_response (unhandled_handler e)) else throw e)"

definition serve :: "deployment \<Rightarrow> int \<Rightarrow> http_req \<Rightarrow> pystr option \<Rightarrow> pystr \<Rightarrow> call \<Rightarrow> (api, response) prog" where
  \<comment> \<open>the application \<open>create_app()\<close> builds\<close>
  "serve D now rq hdr uuid c = server_error_middleware (request_id_dispatch hdr uuid (security_headers_dispatch (dp_settings D)
     (exception_middleware (in_api (route D now rq c)))))"

section \<open>Start-up\<close>

definition lifespan_startup :: "settings \<Rightarrow> (api, unit) prog" where
  \<comment> \<open>up to the \<open>yield\<close>: a failing seed is raised again and the process does not start\<close>
  "lifespan_startup s = seqM (on_logs (configure_logging (LOG_LEVEL s) ''api''))
     (seqM (in_api (in_world (on_db seed_crm_service_user))) (ret ()))"

section \<open>Serving is a step of the system\<close>

definition peers_ok :: "deployment \<Rightarrow> call \<Rightarrow> bool" where
  \<comment> \<open>while a sender waits for a token, the system goes on\<close>
  "peers_ok D c = (case c of Send_Mail S i b \<Rightarrow> \<forall>k. \<forall>p \<in> set (nd_peers S k). \<forall>v. (sys_step D False)\<^sup>*\<^sup>* v (p v) | _ \<Rightarrow> True)"

lemma mw_in_world [simp]: "mw (snd (in_world m x)) = snd (m (mw x))"
  by (simp add: in_world_def split: prod.split)

lemma snd_answer [simp]: "snd (bindM m (\<lambda>x. Pair (Inr (f x))) s) = snd (m s)"
  by (simp add: bindM_app split: prod.split sum.split)

lemma readyz_outside: "outside w (snd (readyz one w))"
  by (auto simp: readyz_def bindM_app catchM_app redis_def outside_def ret_def throw_def liftE_def Let_def split: sum.splits)

lemma route_step:
  assumes "peers_ok D c"
  shows "sys_step D False (mw x) (mw (snd (route D now rq c x)))"
proof -
  have still: "sys_step D False (mw x) (mw x)" by (rule sys_step.environment) (simp add: outside_def)
  show ?thesis
  proof (cases c)
    case (Readyz one)
    then show ?thesis using readyz_outside by (auto intro: sys_step.environment)
  next
    case (Send_Mail S i b)
    obtain w wr cp where x: "x = \<lparr>mw = w, wire = wr, copies = cp\<rparr>" by (cases x)
    have "sys_step D False w (mw (snd (external_mailbox_send S now rq i b \<lparr>mw = w, wire = wr, copies = cp\<rparr>)))"
      by (rule sys_step.send) (use assms Send_Mail in \<open>simp add: peers_ok_def\<close>)
    then show ?thesis using Send_Mail x by (simp add: ret_def)
  qed (use still in \<open>simp_all add: answered_def ret_def ret_def [abs_def] sys_step.pull sys_step.list_boxes sys_step.test sys_step.create
      sys_step.update sys_step.delete sys_step.force sys_step.authorize sys_step.callback\<close>)
qed

section \<open>What an answer carries\<close>

definition request_id :: "pystr option \<Rightarrow> pystr \<Rightarrow> pystr" where
  "request_id hdr uuid = (if given hdr then the hdr else uuid)"

definition labelled :: "deployment \<Rightarrow> pystr \<Rightarrow> response \<Rightarrow> response" where
  "labelled D rid r = (with_security_headers (dp_settings D) r)\<lparr>res_headers := header_set ''X-Request-ID'' rid
     (res_headers (with_security_headers (dp_settings D) r))\<rparr>"

lemma serve_answer:
  "fst (serve D now rq hdr uuid c a) = (case fst (route D now rq c (apw a)) of
      Inr r \<Rightarrow> Inr (labelled D (request_id hdr uuid) r)
    | Inl e \<Rightarrow> if handled e then Inr (labelled D (request_id hdr uuid) (error_response (dispatch_handler e)))
        else if isinstance e EException then Inr (error_response (unhandled_handler e)) else Inl e)"
  by (cases "route D now rq c (apw a)")
    (auto simp: serve_def server_error_middleware_def request_id_dispatch_def security_headers_dispatch_def
      exception_middleware_def catchM_app bindM_app in_api_def ret_def throw_def labelled_def request_id_def Let_def split: sum.splits)

lemma serve_state:
  "apw (snd (serve D now rq hdr uuid c a)) = snd (route D now rq c (apw a))"
  "logs (snd (serve D now rq hdr uuid c a)) = unbind_contextvars ''request_id'' (bind_contextvars ''request_id'' (JStr (request_id hdr uuid)) (logs a))"
  by (cases "route D now rq c (apw a)";
    auto simp: serve_def server_error_middleware_def request_id_dispatch_def security_headers_dispatch_def
      exception_middleware_def catchM_app bindM_app in_api_def ret_def throw_def request_id_def Let_def split: sum.splits)+

lemma header_names [simp]:
  "lower_name ''X-Request-ID'' = ''x-request-id''" "lower_name ''X-Content-Type-Options'' = ''x-content-type-options''"
  "lower_name ''Content-Security-Policy'' = ''content-security-policy''" "lower_name ''X-Frame-Options'' = ''x-frame-options''"
  "lower_name ''Referrer-Policy'' = ''referrer-policy''" "lower_name ''Permissions-Policy'' = ''permissions-policy''"
  "lower_name ''Cache-Control'' = ''cache-control''" "lower_name ''content-type'' = ''content-type''"
  "lower_name ''Strict-Transport-Security'' = ''strict-transport-security''" "lower_name ''Retry-After'' = ''retry-after''"
  by code_simp+

lemma map_of_skip: "map_of (filter (\<lambda>e. fst e \<noteq> n) hs) k = (if k = n then None else map_of hs k)"
  by (induction hs) auto

lemma header_get_set [simp]:
  "header_get k (header_set k' v hs) = (if lower_name k = lower_name k' then Some v else header_get k hs)"
  by (auto simp: header_get_def header_set_def Let_def map_add_def map_of_skip split: option.splits)

lemma header_get_setdefault [simp]:
  "header_get k (header_setdefault k' v hs) =
     (if lower_name k = lower_name k' then (case header_get k hs of None \<Rightarrow> Some v | Some x \<Rightarrow> Some x) else header_get k hs)"
  by (auto simp: header_get_def header_setdefault_def map_add_def split: option.splits)

definition plain :: "response \<Rightarrow> bool" where
  \<comment> \<open>what a route returns has no other headers than these\<close>
  "plain r \<longleftrightarrow> fst ` set (res_headers r) \<subseteq> {''retry-after'', ''cache-control'', ''content-type''} \<and>
     header_get ''Cache-Control'' (res_headers r) \<in> {None, Some (u ''no-store'')}"

lemma plain_json [simp]: "plain (json_response st [] c)" "plain (html_response [] c)" "plain healthz"
  "plain (error_response (http_handler st d))" "plain (oauth_page p)" "res_headers r = [] \<Longrightarrow> plain r"
  by (simp_all add: plain_def json_response_def html_response_def healthz_def error_response_def http_handler_def Let_def
      oauth_page_def oauth_html_page_def header_get_def split: callback_page.split)

lemma plain_error: "handled e \<Longrightarrow> plain (error_response (dispatch_handler e))"
  by (simp add: handled_def dispatch_handler_def error_response_def plain_def json_response_def domain_handler_def err_headers_def
      validation_handler_def header_get_def split: exc_class.splits option.splits)

lemma answered_plain: "fst (answered st f m x) = Inr r \<Longrightarrow> plain r"
  by (auto simp: answered_def in_world_def bindM_app ret_def split: prod.splits sum.splits)

lemma route_plain: "fst (route D now rq c x) = Inr r \<Longrightarrow> plain r"
proof (cases c)
  case (Readyz one)
  moreover assume "fst (route D now rq c x) = Inr r"
  ultimately show ?thesis
    by (auto simp: in_world_def readyz_def bindM_app catchM_app redis_def ret_def throw_def liftE_def Let_def split: sum.splits prod.splits if_splits)
next
  case (Remove i)
  moreover assume "fst (route D now rq c x) = Inr r"
  ultimately show ?thesis by (auto simp: in_world_def bindM_app ret_def split: prod.splits sum.splits)
next
  case (Callback code state err)
  moreover assume "fst (route D now rq c x) = Inr r"
  ultimately show ?thesis by (auto simp: in_world_def bindM_app ret_def split: prod.splits sum.splits)
next
  case (Send_Mail S i b)
  moreover assume "fst (route D now rq c x) = Inr r"
  ultimately show ?thesis by (auto simp: bindM_app ret_def split: prod.splits sum.splits)
qed (auto simp: ret_def answered_plain split: if_splits)

definition is_html :: "response \<Rightarrow> bool" where
  "is_html r \<longleftrightarrow> (case header_get ''content-type'' (res_headers r) of None \<Rightarrow> False | Some v \<Rightarrow> py_startswith (u ''text/html'') v)"

definition strict_html :: "settings \<Rightarrow> response \<Rightarrow> bool" where
  \<comment> \<open>the header set of \<open>docs/06-security.md\<close> section 6\<close>
  "strict_html s r \<longleftrightarrow>
     header_get ''Content-Security-Policy'' (res_headers r) = Some CSP \<and> header_get ''X-Frame-Options'' (res_headers r) = Some (u ''DENY'') \<and>
     header_get ''Referrer-Policy'' (res_headers r) = Some (u ''same-origin'') \<and>
     header_get ''Permissions-Policy'' (res_headers r) = Some PERMISSIONS \<and> header_get ''Cache-Control'' (res_headers r) = Some (u ''no-store'') \<and>
     (header_get ''Strict-Transport-Security'' (res_headers r) = None \<longleftrightarrow> \<not> is_prod s)"

lemma labelled_plain:
  assumes "plain r"
  shows "header_get ''X-Request-ID'' (res_headers (labelled D rid r)) = Some rid"
    and "header_get ''X-Content-Type-Options'' (res_headers (labelled D rid r)) = Some (u ''nosniff'')"
    and "is_html (labelled D rid r) \<longleftrightarrow> is_html r"
    and "is_html r \<longrightarrow> strict_html (dp_settings D) (labelled D rid r)"
    and "res_status (labelled D rid r) = res_status r" and "res_content (labelled D rid r) = res_content r"
proof -
  have none: "header_get k (res_headers r) = None" if "lower_name k \<notin> {''retry-after'', ''cache-control'', ''content-type''}" for k
    using assms that by (auto simp: plain_def header_get_def map_of_eq_None_iff)
  have cc: "header_get ''Cache-Control'' (res_headers r) \<in> {None, Some (u ''no-store'')}" using assms by (simp add: plain_def)
  show "header_get ''X-Request-ID'' (res_headers (labelled D rid r)) = Some rid"
    and "header_get ''X-Content-Type-Options'' (res_headers (labelled D rid r)) = Some (u ''nosniff'')"
    and "res_status (labelled D rid r) = res_status r" and "res_content (labelled D rid r) = res_content r"
    by (simp_all add: labelled_def with_security_headers_def Let_def none)
  have ct: "header_get ''content-type'' (res_headers (labelled D rid r)) = header_get ''content-type'' (res_headers r)"
    by (simp add: labelled_def with_security_headers_def Let_def)
  then show "is_html (labelled D rid r) \<longleftrightarrow> is_html r" by (simp add: is_html_def)
  show "is_html r \<longrightarrow> strict_html (dp_settings D) (labelled D rid r)"
    using cc by (auto simp: is_html_def strict_html_def labelled_def with_security_headers_def Let_def none split: option.splits)
qed

text \<open>
  C25. What the client sees, for every request and every state: if the route raises an exception without a handler of its own, the
  answer is the generic 500 and carries neither the request id nor the security headers; otherwise it carries the id (the
  inbound one, or the new UUID) and \<open>nosniff\<close>, the strict set when it is HTML (HSTS in production only), and status and
  content are the route's or its handled exception's. The id is never left bound in the log context.
\<close>
theorem every_answer_labelled:
  assumes "fst (serve D now rq hdr uuid c a) = Inr r"
  shows "(if \<exists>e. fst (route D now rq c (apw a)) = Inl e \<and> \<not> handled e
     then res_status r = 500 \<and> res_headers r = [(''content-type'', u ''application/json'')]
     else header_get ''X-Request-ID'' (res_headers r) = Some (request_id hdr uuid) \<and>
       header_get ''X-Content-Type-Options'' (res_headers r) = Some (u ''nosniff'') \<and>
       (is_html r \<longrightarrow> strict_html (dp_settings D) r) \<and>
       (case fst (route D now rq c (apw a)) of
          Inr x \<Rightarrow> res_status r = res_status x \<and> res_content r = res_content x
        | Inl e \<Rightarrow> res_status r = rs_status (dispatch_handler e) \<and> res_content r = Json (rs_body (dispatch_handler e)))) \<and>
     ''request_id'' \<notin> fst ` set (contextvars (logs (snd (serve D now rq hdr uuid c a))))"
proof -
  have unbound: "''request_id'' \<notin> fst ` set (contextvars (logs (snd (serve D now rq hdr uuid c a))))"
    by (auto simp: serve_state unbind_contextvars_def)
  show ?thesis
  proof (cases "fst (route D now rq c (apw a))")
    case (Inr x)
    note p = labelled_plain [OF route_plain [OF Inr], of D "request_id hdr uuid"]
    show ?thesis using assms Inr p unbound by (auto simp: serve_answer)
  next
    case (Inl e)
    show ?thesis
    proof (cases "handled e")
      case True
      note p = labelled_plain [OF plain_error [OF True], of D "request_id hdr uuid"]
      have "r = labelled D (request_id hdr uuid) (error_response (dispatch_handler e))" using assms Inl True by (simp add: serve_answer)
      with p Inl True unbound show ?thesis by (simp add: error_response_def json_response_def)
    next
      case False
      then have "r = error_response (unhandled_handler e)" using assms Inl by (auto simp: serve_answer split: if_splits)
      with Inl False unbound show ?thesis by (auto simp: error_response_def json_response_def unhandled_handler_def)
    qed
  qed
qed

definition api_at :: "world \<Rightarrow> api" where
  "api_at w = \<lparr>apw = \<lparr>mw = w, wire = [], copies = []\<rparr>, logs = api_log\<rparr>"

theorem every_answer_labelled_witness:
  "\<exists>r. fst (serve toy_deployment 5 wrong_key (Some (u ''abc'')) (u ''new'') No_Such_Path (api_at seeded)) = Inr r \<and>
     res_status r = 404 \<and> header_get ''X-Request-ID'' (res_headers r) = Some (u ''abc'')"
proof -
  obtain r where r: "fst (serve toy_deployment 5 wrong_key (Some (u ''abc'')) (u ''new'') No_Such_Path (api_at seeded)) = Inr r"
    by (simp add: serve_answer ret_def)
  from every_answer_labelled [OF r] show ?thesis
    using r by (auto simp: ret_def error_response_def json_response_def http_handler_def request_id_def given_def Let_def)
qed

section \<open>The technical user of a started service\<close>

lemma crm_user:
  assumes "users_ok d" and "x \<in> set (users d)" and "usr_username x = CRM_SERVICE_USERNAME"
  shows "user_by_username CRM_SERVICE_USERNAME d = Inr (Some x)"
proof -
  obtain y where y: "find (\<lambda>x. usr_username x = CRM_SERVICE_USERNAME) (users d) = Some y"
    using assms(2,3) by (cases "find (\<lambda>x. usr_username x = CRM_SERVICE_USERNAME) (users d)") (auto simp: find_None_iff)
  then have "y \<in> set (users d)" "usr_username y = usr_username x" using assms(3) by (auto simp: find_Some_iff)
  then have "y = x" using assms(1,2) unfolding users_ok_def distinct_map by (meson inj_onD)
  then show ?thesis using user_by_username_unique [OF assms(1)] y by simp
qed

lemma named_crm:
  assumes "named d d'" and "users_ok d'" and "x \<in> set (users d)" and "usr_username x = CRM_SERVICE_USERNAME"
  shows "\<exists>y. user_by_username CRM_SERVICE_USERNAME d' = Inr (Some y) \<and> usr_id y = usr_id x"
proof -
  obtain y where "y \<in> set (users d')" "usr_id y = usr_id x" "usr_username y = CRM_SERVICE_USERNAME"
  proof -
    have "(usr_id x, usr_username x) \<in> (\<lambda>x. (usr_id x, usr_username x)) ` set (users d')"
      by (rule subsetD [OF assms(1) [unfolded named_def]]) (rule image_eqI [OF refl assms(3)])
    with that assms(4) show thesis by auto
  qed
  then show ?thesis using crm_user [OF assms(2)] by blast
qed

text \<open>
  C21. Once the API has started, its technical user is there for good: the seed succeeds in every reachable state, and in every
  state the jobs, the requests and restarts can lead to afterwards the look-up of the owner finds one user, always with the
  same id. So the scope of the external service and the owner of a consented mailbox are always resolved, and the 503
  \<open>crm-service technical user is not provisioned\<close> cannot occur.
\<close>
theorem started_service_keeps_owner:
  assumes "reachable D (mw (apw a))" and "log_level_of (LOG_LEVEL (dp_settings D)) = Inr n"
  shows "\<exists>b i. lifespan_startup (dp_settings D) a = (Inr (), b) \<and>
     (\<forall>v. (sys_step D False)\<^sup>*\<^sup>* (mw (apw b)) v \<longrightarrow>
        (\<exists>x. user_by_username CRM_SERVICE_USERNAME (wdb v) = Inr (Some x) \<and> usr_id x = i) \<and>
        fst (crm_scope \<lparr>u_db = wdb v, pending = [], committed = 0\<rparr>) = Inr \<lparr>vs_user_id = i, vs_role = ''super_admin''\<rparr>)"
proof -
  let ?w = "mw (apw a)"
  have "users_ok (wdb ?w)" using reachable_invariant [OF assms(1)] by (simp add: db_ok_def)
  then obtain s d' x where s: "seed_crm_service_user (wdb ?w) = (Inr s, d')" "users_ok d'"
    and x: "find (\<lambda>x. usr_username x = CRM_SERVICE_USERNAME) (users d') = Some x" using seed_once by blast
  let ?v = "?w\<lparr>wdb := d'\<rparr>"
  have seed: "on_db seed_crm_service_user ?w = (Inr s, ?v)" by (simp add: on_db_def transaction_def s(1))
  obtain b where b: "lifespan_startup (dp_settings D) a = (Inr (), b)" "mw (apw b) = ?v"
    using assms(2) seed by (simp add: lifespan_startup_def bindM_app on_logs_def configure_logging_def in_api_def in_world_def ret_def)
  have "sys_step D False ?w ?v" using sys_step.seed [of D False ?w] seed by simp
  then have reach: "reachable D ?v" by (rule reachable.step [OF assms(1)])
  have xs: "x \<in> set (users (wdb ?v))" "usr_username x = CRM_SERVICE_USERNAME" using x by (auto simp: find_Some_iff)
  have owner: "\<exists>y. user_by_username CRM_SERVICE_USERNAME (wdb v) = Inr (Some y) \<and> usr_id y = usr_id x"
    if steps: "(sys_step D False)\<^sup>*\<^sup>* ?v v" for v
  proof -
    have "sound False (wdb ?v) v"
      using sys_steps_sound [OF steps] reachable_sound [OF reach] by (simp add: sound_rel_def)
    then have "named (wdb ?v) (wdb v)" "users_ok (wdb v)" by (auto simp: sound_def grown_def store_ok_def db_ok_def)
    then show ?thesis using xs by (rule named_crm)
  qed
  have scope: "fst (crm_scope \<lparr>u_db = d, pending = [], committed = 0\<rparr>) = Inr \<lparr>vs_user_id = usr_id y, vs_role = ''super_admin''\<rparr>"
    if "user_by_username CRM_SERVICE_USERNAME d = Inr (Some y)" for d y
    using that by (simp add: crm_scope_def bindM_app ret_def)
  have "(\<exists>y. user_by_username CRM_SERVICE_USERNAME (wdb v) = Inr (Some y) \<and> usr_id y = usr_id x) \<and>
      fst (crm_scope \<lparr>u_db = wdb v, pending = [], committed = 0\<rparr>) = Inr \<lparr>vs_user_id = usr_id x, vs_role = ''super_admin''\<rparr>"
    if steps: "(sys_step D False)\<^sup>*\<^sup>* (mw (apw b)) v" for v
  proof -
    obtain y where y: "user_by_username CRM_SERVICE_USERNAME (wdb v) = Inr (Some y)" "usr_id y = usr_id x"
      using owner [OF steps [unfolded b(2)]] by auto
    then show ?thesis using scope [OF y(1)] by auto
  qed
  then show ?thesis using b(1) by (intro exI [of _ b] exI [of _ "usr_id x"] conjI allI impI) auto
qed

theorem started_service_keeps_owner_witness:
  "\<exists>b i. lifespan_startup dev_settings (api_at (idle_world empty_db)) = (Inr (), b) \<and>
     fst (crm_scope \<lparr>u_db = wdb (mw (apw b)), pending = [], committed = 0\<rparr>) = Inr \<lparr>vs_user_id = i, vs_role = ''super_admin''\<rparr>"
proof -
  have start: "reachable toy_deployment (mw (apw (api_at (idle_world empty_db))))"
    by (rule reachable.start) (simp add: api_at_def fresh_world_def idle_world_def)
  have level: "log_level_of (LOG_LEVEL (dp_settings toy_deployment)) = Inr 20" by code_simp
  obtain b i where b: "lifespan_startup (dp_settings toy_deployment) (api_at (idle_world empty_db)) = (Inr (), b)"
    and v: "\<forall>v. (sys_step toy_deployment False)\<^sup>*\<^sup>* (mw (apw b)) v \<longrightarrow>
        (\<exists>x. user_by_username CRM_SERVICE_USERNAME (wdb v) = Inr (Some x) \<and> usr_id x = i) \<and>
        fst (crm_scope \<lparr>u_db = wdb v, pending = [], committed = 0\<rparr>) = Inr \<lparr>vs_user_id = i, vs_role = ''super_admin''\<rparr>"
    using started_service_keeps_owner [OF start level] by blast
  show ?thesis
  proof (intro exI conjI)
    show "lifespan_startup dev_settings (api_at (idle_world empty_db)) = (Inr (), b)" using b by (simp add: toy_deployment_def)
    show "fst (crm_scope \<lparr>u_db = wdb (mw (apw b)), pending = [], committed = 0\<rparr>) = Inr \<lparr>vs_user_id = i, vs_role = ''super_admin''\<rparr>"
      using v by blast
  qed
qed

section \<open>Unlabelled answers\<close>

lemma odd_key_is_unlabelled:
  \<comment> \<open>an API key outside ASCII makes \<open>compare_digest\<close> raise \<open>TypeError\<close>: a 500 without a request id\<close>
  "\<exists>r. fst (serve (boot_deployment\<lparr>dp_settings := boot_settings\<rparr>) 5 (wrong_key\<lparr>rq_api_key := Some [233]\<rparr>) None (u ''new'') (List_Mailboxes None) (api_at seeded)) = Inr r \<and>
     res_status r = 500 \<and> header_get ''X-Request-ID'' (res_headers r) = None"
proof -
  have "case fst (route (boot_deployment\<lparr>dp_settings := boot_settings\<rparr>) 5 (wrong_key\<lparr>rq_api_key := Some [233]\<rparr>) (List_Mailboxes None)
      (apw (api_at seeded))) of Inl e \<Rightarrow> \<not> handled e \<and> isinstance e EException | Inr _ \<Rightarrow> False"
    by code_simp
  then show ?thesis by (auto split: sum.splits simp: serve_answer error_response_def json_response_def unhandled_handler_def header_get_def)
qed

section \<open>Sessions\<close>

definition status_guard :: "uow \<Rightarrow> session_guard" where
  \<comment> \<open>the guard \<open>MailAccountService\<close> registers on its session\<close>
  "status_guard x = \<lparr>sg_event = u ''crm_status_pending_dropped'', sg_field = u ''mail_account_ids'', sg_owner = u ''MailAccountService'',
     sg_pending = pending x\<rparr>"

definition get_session :: "bool \<Rightarrow> (uow, 'a) prog \<Rightarrow> (uow, 'a) prog" where
  \<comment> \<open>\<open>get_session\<close> and \<open>make_session\<close>: the guards are checked on every way out, before the session is closed\<close>
  "get_session strict m x = (case m x of (r, x') \<Rightarrow> (case check_session_guards strict [status_guard x'] of
       Inl e \<Rightarrow> (Inl e, x') | Inr _ \<Rightarrow> (r, x')))"

lemma get_session_prod: "get_session False m = m"
proof
  fix x show "get_session False m x = m x"
    using check_session_guards_prod by (auto simp: get_session_def split: prod.split sum.split) (metis sum.distinct(1))
qed

lemma get_session_strict:
  "pending (snd (m x)) = [] \<Longrightarrow> get_session True m x = m x"
  "pending (snd (m x)) \<noteq> [] \<Longrightarrow> \<exists>e. fst (get_session True m x) = Inl e \<and> ecls e = EAssertionError"
  by (cases "m x"; simp add: get_session_def check_session_guards_def guard_violations_def status_guard_def mk_exc_def)+

end
