(* ===== verification/Worker_Main.thy ===== *)
theory Worker_Main
  imports System Logging
begin

text \<open>
  The worker process: \<open>worker/app/main.py\<close>. The jobs it registers with the scheduler, the wrappers around them, the alive
  file, start-up and shutdown; the engine of \<open>shared/db.py\<close> and the client of \<open>shared/redis_client.py\<close> as the process holds
  them. When the scheduler fires a job is not constrained: a run is any list of firings of registered jobs. Facts: a run
  keeps to the steps of \<open>System\<close> and no exception leaves a wrapper; what is registered under which settings.
\<close>

section \<open>Process-wide clients\<close>

datatype role = Api | Worker

record engine =
  pool_size :: int
  max_overflow :: int
  pool_recycle :: int

record clients =
  the_engine :: "engine option"
  the_redis :: bool

definition build_engine :: "role \<Rightarrow> engine" where
  "build_engine r = \<lparr>pool_size = (if r = Worker then 5 else 10), max_overflow = (if r = Worker then 5 else 20), pool_recycle = 1800\<rparr>"

definition init_engine :: "role \<Rightarrow> clients \<Rightarrow> engine \<times> clients" where
  "init_engine r c = (case the_engine c of Some e \<Rightarrow> (e, c)
     | None \<Rightarrow> (build_engine r, c\<lparr>the_engine := Some (build_engine r)\<rparr>))"

definition get_engine :: "clients \<Rightarrow> engine \<times> clients" where
  "get_engine c = (case the_engine c of None \<Rightarrow> init_engine Api c | Some e \<Rightarrow> (e, c))"

definition dispose_engine :: "clients \<Rightarrow> clients" where
  "dispose_engine c = c\<lparr>the_engine := None\<rparr>"

definition get_redis :: "clients \<Rightarrow> clients" where
  "get_redis c = c\<lparr>the_redis := True\<rparr>"

definition close_redis :: "clients \<Rightarrow> clients" where
  "close_redis c = c\<lparr>the_redis := False\<rparr>"

lemma init_engine_twice: "fst (init_engine r' (snd (init_engine r c))) = fst (init_engine r c)"
  by (simp add: init_engine_def split: option.split)

lemma late_engine_is_api: "the_engine c = None \<Longrightarrow> fst (get_engine c) = build_engine Api"
  by (simp add: get_engine_def init_engine_def)

section \<open>The job table\<close>

datatype job_body = Sync_Cycle | Force_Sync | Cleanup | Touch_Alive | Push_Dispatch | Push_Recovery | Status_Dispatch

datatype trigger = Every int | Daily int int \<comment> \<open>seconds; hour and minute UTC\<close>

record job =
  job_id :: string
  body_of :: job_body
  job_trigger :: trigger
  coalesce :: "bool option"
  max_instances :: nat
  misfire_grace :: int

definition base_jobs :: "settings \<Rightarrow> job list" where
  "base_jobs s = [
     \<lparr>job_id = ''sync_cycle'', body_of = Sync_Cycle, job_trigger = Every (60 * SYNC_INTERVAL_MINUTES s), coalesce = Some True,
       max_instances = 1, misfire_grace = 60\<rparr>,
     \<lparr>job_id = ''force_sync_dispatcher'', body_of = Force_Sync, job_trigger = Every 10, coalesce = Some True,
       max_instances = 1, misfire_grace = 10\<rparr>,
     \<lparr>job_id = ''retention_cleanup'', body_of = Cleanup, job_trigger = Daily 3 0, coalesce = None, max_instances = 1, misfire_grace = 3600\<rparr>,
     \<lparr>job_id = ''alive_touch'', body_of = Touch_Alive, job_trigger = Every 30, coalesce = Some True, max_instances = 1, misfire_grace = 10\<rparr>]"

definition push_jobs :: "settings \<Rightarrow> job list" where
  "push_jobs s = [
     \<lparr>job_id = ''crm_push_dispatch'', body_of = Push_Dispatch, job_trigger = Every (CRM_PUSH_DISPATCH_INTERVAL_SECONDS s), coalesce = Some True,
       max_instances = 1, misfire_grace = 30\<rparr>,
     \<lparr>job_id = ''crm_push_recovery'', body_of = Push_Recovery, job_trigger = Every (CRM_PUSH_RECOVERY_INTERVAL_SECONDS s), coalesce = Some True,
       max_instances = 1, misfire_grace = 600\<rparr>]"

definition status_jobs :: "settings \<Rightarrow> job list" where
  "status_jobs s = [
     \<lparr>job_id = ''crm_status_dispatch'', body_of = Status_Dispatch, job_trigger = Every (CRM_STATUS_DISPATCH_INTERVAL_SECONDS s), coalesce = Some True,
       max_instances = 1, misfire_grace = 30\<rparr>]"

definition worker_jobs :: "settings \<Rightarrow> job list" where
  "worker_jobs s = base_jobs s @ (if crm_push_enabled s then push_jobs s else []) @ (if crm_status_enabled s then status_jobs s else [])"

section \<open>Wrappers\<close>

record worker =
  wk_world :: world
  alive_mtime :: "int option"
  wk_logs :: log_state
  wk_clients :: clients

definition in_job :: "(world, 'a) prog \<Rightarrow> (worker, 'a) prog" where
  "in_job m x = (case m (wk_world x) of (r, w) \<Rightarrow> (r, x\<lparr>wk_world := w\<rparr>))"

definition safe :: "(world, 'a) prog \<Rightarrow> (worker, unit) prog" where
  \<comment> \<open>the \<open>_safe_\<close> wrappers: an \<open>Exception\<close> is logged and dropped\<close>
  "safe m = catchM (seqM (in_job m) (ret ())) (\<lambda>e. if isinstance e EException then ret () else throw e)"

definition touch_alive :: "pyexc + unit \<Rightarrow> int \<Rightarrow> (worker, unit) prog" where
  \<comment> \<open>the outcome of the three file system calls; only \<open>OSError\<close> is caught\<close>
  "touch_alive fs now x = (case fs of
       Inr _ \<Rightarrow> (Inr (), x\<lparr>alive_mtime := Some now\<rparr>)
     | Inl e \<Rightarrow> if isinstance e EOSError then (Inr (), x) else (Inl e, x))"

record firing =
  fired :: job_body
  fired_at :: int
  fire_env :: sync_env \<comment> \<open>what the servers answer a sync\<close>
  fire_fs :: "pyexc + unit"

definition cleanup :: "settings \<Rightarrow> int \<Rightarrow> (world, int) prog" where
  "cleanup s now w = (case retention_cleanup s now (wdb w) of (n, d) \<Rightarrow> (Inr n, w\<lparr>wdb := d\<rparr>))"

definition run_job :: "deployment \<Rightarrow> firing \<Rightarrow> (worker, unit) prog" where
  "run_job D f = (case fired f of
       Sync_Cycle \<Rightarrow> safe (sync_cycle (fire_env f) (fired_at f))
     | Force_Sync \<Rightarrow> safe (force_sync_dispatch (fire_env f) (fired_at f))
     | Cleanup \<Rightarrow> safe (cleanup (dp_settings D) (fired_at f))
     | Touch_Alive \<Rightarrow> touch_alive (fire_fs f) (fired_at f)
     | Push_Dispatch \<Rightarrow> safe (crm_push_dispatch (dp_mac D) (dp_settings D) (fired_at f))
     | Push_Recovery \<Rightarrow> safe (crm_push_recovery_scan (dp_settings D) (fired_at f))
     | Status_Dispatch \<Rightarrow> safe (crm_status_dispatch (dp_mac D) (dp_settings D) (fired_at f)))"

fun run_firings :: "deployment \<Rightarrow> firing list \<Rightarrow> worker \<Rightarrow> (pyexc + unit) list \<times> worker" where
  \<comment> \<open>the scheduler logs what escapes a job and goes on\<close>
  "run_firings D [] x = ([], x)"
| "run_firings D (f # fs) x = (case run_job D f x of (r, y) \<Rightarrow> (case run_firings D fs y of (rs, z) \<Rightarrow> (r # rs, z)))"

definition registered :: "settings \<Rightarrow> firing \<Rightarrow> bool" where
  "registered s f \<longleftrightarrow> list_ex (\<lambda>j. body_of j = fired f) (worker_jobs s)"

definition worker_main :: "deployment \<Rightarrow> pyexc + unit \<Rightarrow> int \<Rightarrow> firing list \<Rightarrow> (worker, (pyexc + unit) list) prog" where
  \<comment> \<open>start-up, the firings of registered jobs until the signal (the initial sync is one of them), shutdown\<close>
  "worker_main D fs0 now firings x =
     (case configure_logging (LOG_LEVEL (dp_settings D)) ''worker'' (wk_logs x) of
        (Inl e, l) \<Rightarrow> (Inl e, x\<lparr>wk_logs := l\<rparr>)
      | (Inr _, l) \<Rightarrow> (let x1 = x\<lparr>wk_logs := l, wk_clients := snd (init_engine Worker (wk_clients x))\<rparr> in
          (case touch_alive fs0 now x1 of
             (Inl e, x2) \<Rightarrow> (Inl e, x2)
           | (Inr _, x2) \<Rightarrow> (case run_firings D (filter (registered (dp_settings D)) firings) x2 of
               (rs, y) \<Rightarrow> (Inr rs, y\<lparr>wk_clients := close_redis (dispose_engine (wk_clients y))\<rparr>)))))"

section \<open>A run of the worker\<close>

lemma safe_result: "fst (safe m x) = Inr () \<or> (\<exists>e. fst (safe m x) = Inl e \<and> \<not> isinstance e EException)"
  by (auto simp: safe_def catchM_app bindM_app ret_def throw_def split: prod.split sum.split)

lemma safe_world [simp]: "wk_world (snd (safe m x)) = snd (m (wk_world x))"
  by (auto simp: safe_def catchM_app bindM_app ret_def throw_def in_job_def split: prod.split sum.split)

lemma touch_world [simp]: "wk_world (snd (touch_alive fs now x)) = wk_world x"
  by (auto simp: touch_alive_def split: sum.split)

lemma cleanup_world [simp]: "snd (cleanup s now w) = w\<lparr>wdb := snd (retention_cleanup s now (wdb w))\<rparr>"
  by (simp add: cleanup_def split: prod.split)

definition env_ok :: "deployment \<Rightarrow> firing \<Rightarrow> bool" where
  \<comment> \<open>while a sync waits for a token, the system goes on\<close>
  "env_ok D f \<longleftrightarrow> (\<forall>i. \<forall>p \<in> set (se_peers (fire_env f) i). \<forall>v. (sys_step D False)\<^sup>*\<^sup>* v (p v))"

lemma run_job_step: "env_ok D f \<Longrightarrow> sys_step D False (wk_world x) (wk_world (snd (run_job D f x)))"
  by (cases "fired f")
    (auto simp: run_job_def env_ok_def outside_def intro: sys_step.environment sys_step.sync sys_step.forced_sync sys_step.retention
      sys_step.push sys_step.recovery sys_step.status)

lemma run_job_result:
  "fst (run_job D f x) = Inr () \<or> (\<exists>e. fst (run_job D f x) = Inl e \<and>
     (if fired f = Touch_Alive then fire_fs f = Inl e \<and> \<not> isinstance e EOSError else \<not> isinstance e EException))"
proof (cases "fired f = Touch_Alive")
  case True
  then show ?thesis by (auto simp: run_job_def touch_alive_def split: sum.split)
next
  case False
  then show ?thesis unfolding if_not_P [OF False] by (cases "fired f") (simp_all add: run_job_def safe_result)
qed

lemma run_firings_steps:
  "\<forall>f \<in> set fs. env_ok D f \<Longrightarrow> (sys_step D False)\<^sup>*\<^sup>* (wk_world x) (wk_world (snd (run_firings D fs x)))"
proof (induction fs arbitrary: x)
  case (Cons f fs)
  obtain r y where 1: "run_job D f x = (r, y)" by (rule prod.exhaust)
  obtain rs z where 2: "run_firings D fs y = (rs, z)" by (rule prod.exhaust)
  have "sys_step D False (wk_world x) (wk_world y)" using run_job_step [of D f x] Cons.prems by (simp add: 1)
  moreover have "(sys_step D False)\<^sup>*\<^sup>* (wk_world y) (wk_world z)" using Cons.IH [of y] Cons.prems by (simp add: 2)
  ultimately show ?case by (simp add: 1 2 converse_rtranclp_into_rtranclp)
qed simp

lemma run_firings_results:
  "list_all2 (\<lambda>f r. r = Inr () \<or> (\<exists>e. r = Inl e \<and>
     (if fired f = Touch_Alive then fire_fs f = Inl e \<and> \<not> isinstance e EOSError else \<not> isinstance e EException)))
     fs (fst (run_firings D fs x))"
proof (induction fs arbitrary: x)
  case (Cons f fs)
  obtain r y where 1: "run_job D f x = (r, y)" by (rule prod.exhaust)
  obtain rs z where 2: "run_firings D fs y = (rs, z)" by (rule prod.exhaust)
  show ?case using run_job_result [of D f x] Cons.IH [of y] by (simp add: 1 2)
qed simp

lemma job_table:
  assumes "load_settings raw_settings = Inr s"
  shows "distinct (map job_id (worker_jobs s))"
    and "j \<in> set (worker_jobs s) \<Longrightarrow> max_instances j = 1 \<and> (case job_trigger j of Every n \<Rightarrow> 1 \<le> n | Daily h m \<Rightarrow> (h, m) = (3, 0))"
    and "list_ex (\<lambda>j. body_of j = Push_Dispatch) (worker_jobs s) \<longleftrightarrow> crm_push_enabled s"
    and "list_ex (\<lambda>j. body_of j = Push_Recovery) (worker_jobs s) \<longleftrightarrow> crm_push_enabled s"
    and "list_ex (\<lambda>j. body_of j = Status_Dispatch) (worker_jobs s) \<longleftrightarrow> crm_status_enabled s"
proof -
  have "field_bounds s" using assms by (rule load_settings_bounds)
  then show "j \<in> set (worker_jobs s) \<Longrightarrow> max_instances j = 1 \<and> (case job_trigger j of Every n \<Rightarrow> 1 \<le> n | Daily h m \<Rightarrow> (h, m) = (3, 0))"
    by (auto simp: worker_jobs_def base_jobs_def push_jobs_def status_jobs_def field_bounds_def in_bounds_def split: if_splits)
qed (cases "crm_push_enabled s"; cases "crm_status_enabled s"; simp add: worker_jobs_def base_jobs_def push_jobs_def status_jobs_def)+

lemma registered_iff:
  "registered s f \<longleftrightarrow> (fired f \<in> {Push_Dispatch, Push_Recovery} \<longrightarrow> crm_push_enabled s) \<and>
     (fired f = Status_Dispatch \<longrightarrow> crm_status_enabled s)"
  by (cases "fired f") (auto simp: registered_def worker_jobs_def base_jobs_def push_jobs_def status_jobs_def)

lemma worker_main_run:
  assumes "log_level_of (LOG_LEVEL (dp_settings D)) = Inr n" and "fs0 = Inr () \<or> (\<exists>e. fs0 = Inl e \<and> isinstance e EOSError)"
  obtains rs y where "worker_main D fs0 now firings x = (Inr rs, y)" "the_engine (wk_clients y) = None" "\<not> the_redis (wk_clients y)"
    "\<exists>x2. wk_world x2 = wk_world x \<and> rs = fst (run_firings D (filter (registered (dp_settings D)) firings) x2) \<and>
       wk_world y = wk_world (snd (run_firings D (filter (registered (dp_settings D)) firings) x2))"
proof -
  obtain l where l: "configure_logging (LOG_LEVEL (dp_settings D)) ''worker'' (wk_logs x) = (Inr (), l)"
    using assms(1) by (simp add: configure_logging_def)
  let ?x1 = "x\<lparr>wk_logs := l, wk_clients := snd (init_engine Worker (wk_clients x))\<rparr>"
  obtain x2 where x2: "touch_alive fs0 now ?x1 = (Inr (), x2)" using assms(2) by (auto simp: touch_alive_def)
  have w2: "wk_world x2 = wk_world x" using touch_world [of fs0 now ?x1] by (simp add: x2)
  obtain rs y where r: "run_firings D (filter (registered (dp_settings D)) firings) x2 = (rs, y)" by (rule prod.exhaust)
  have "worker_main D fs0 now firings x = (Inr rs, y\<lparr>wk_clients := close_redis (dispose_engine (wk_clients y))\<rparr>)"
    by (simp add: worker_main_def l x2 r Let_def)
  then show thesis by (rule that) (use w2 r in \<open>auto simp: close_redis_def dispose_engine_def intro!: exI [of _ x2]\<close>)
qed

text \<open>
  C22. The worker keeps going and keeps the system sound: whatever the scheduler fires (jobs of the table in any order and
  number, the initial sync among them; the CRM jobs only where the channel is configured) and whatever the servers answer, a run from a reachable state ends in a reachable
  state with the engine and the Redis client given up, no \<open>Exception\<close> leaves a \<open>_safe_\<close> wrapper, and the alive job fails only
  on a file system error that is no \<open>OSError\<close>.
\<close>
theorem worker_run_keeps_invariant:
  assumes "reachable D (wk_world x)" and "log_level_of (LOG_LEVEL (dp_settings D)) = Inr n"
    and "fs0 = Inr () \<or> (\<exists>e. fs0 = Inl e \<and> isinstance e EOSError)" and "\<forall>f \<in> set firings. env_ok D f"
  shows "\<exists>rs y. worker_main D fs0 now firings x = (Inr rs, y) \<and> reachable D (wk_world y) \<and>
     the_engine (wk_clients y) = None \<and> \<not> the_redis (wk_clients y) \<and>
     list_all2 (\<lambda>f r. r = Inr () \<or> (\<exists>e. r = Inl e \<and> (if fired f = Touch_Alive
       then fire_fs f = Inl e \<and> \<not> isinstance e EOSError else \<not> isinstance e EException)))
       (filter (\<lambda>f. (fired f \<in> {Push_Dispatch, Push_Recovery} \<longrightarrow> crm_push_enabled (dp_settings D)) \<and>
          (fired f = Status_Dispatch \<longrightarrow> crm_status_enabled (dp_settings D))) firings) rs"
proof -
  let ?fs = "filter (registered (dp_settings D)) firings"
  obtain rs y x2 where y: "worker_main D fs0 now firings x = (Inr rs, y)" "the_engine (wk_clients y) = None" "\<not> the_redis (wk_clients y)"
    and x2: "wk_world x2 = wk_world x" "rs = fst (run_firings D ?fs x2)" "wk_world y = wk_world (snd (run_firings D ?fs x2))"
    using worker_main_run [OF assms(2,3)] by metis
  have "\<forall>f \<in> set ?fs. env_ok D f" using assms(4) by simp
  then have "reachable D (wk_world y)" using reachable_steps [OF run_firings_steps, of ?fs D x2] assms(1) x2 by simp
  then show ?thesis using y x2(2) run_firings_results unfolding registered_iff [symmetric] by blast
qed

definition toy_firing :: "job_body \<Rightarrow> int \<Rightarrow> firing" where
  "toy_firing j t = \<lparr>fired = j, fired_at = t, fire_env = toy_sync (\<lambda>_. None) (toy_box 9 3 [raw 1, raw 2]), fire_fs = Inr ()\<rparr>"

definition toy_worker :: worker where
  "toy_worker = \<lparr>wk_world = seeded, alive_mtime = None, wk_logs = api_log, wk_clients = \<lparr>the_engine = None, the_redis = True\<rparr>\<rparr>"

theorem worker_run_keeps_invariant_witness:
  "\<exists>rs y. worker_main toy_deployment (Inr ()) 5 [toy_firing Sync_Cycle 5, toy_firing Touch_Alive 6, toy_firing Push_Dispatch 7] toy_worker
     = (Inr rs, y) \<and> reachable toy_deployment (wk_world y) \<and> length rs = 3 \<and> rs ! 1 = Inr ()"
proof -
  let ?fs = "[toy_firing Sync_Cycle 5, toy_firing Touch_Alive 6, toy_firing Push_Dispatch 7]"
  have start: "reachable toy_deployment (wk_world toy_worker)" using seeded_reachable by (simp add: toy_worker_def)
  have level: "log_level_of (LOG_LEVEL (dp_settings toy_deployment)) = Inr 20" by code_simp
  have env: "\<forall>f \<in> set ?fs. env_ok toy_deployment f" by (simp add: env_ok_def toy_firing_def toy_sync_def)
  obtain rs y where y: "worker_main toy_deployment (Inr ()) 5 ?fs toy_worker = (Inr rs, y)" "reachable toy_deployment (wk_world y)"
    and rs: "list_all2 (\<lambda>f r. r = Inr () \<or> (\<exists>e. r = Inl e \<and> (if fired f = Touch_Alive
       then fire_fs f = Inl e \<and> \<not> isinstance e EOSError else \<not> isinstance e EException)))
       (filter (\<lambda>f. (fired f \<in> {Push_Dispatch, Push_Recovery} \<longrightarrow> crm_push_enabled (dp_settings toy_deployment)) \<and>
          (fired f = Status_Dispatch \<longrightarrow> crm_status_enabled (dp_settings toy_deployment))) ?fs) rs"
    using worker_run_keeps_invariant [OF start level disjI1 [OF refl] env] by blast
  have on: "crm_push_enabled (dp_settings toy_deployment)" by code_simp
  have rs: "list_all2 (\<lambda>f r. r = Inr () \<or> (\<exists>e. r = Inl e \<and> (if fired f = Touch_Alive
       then fire_fs f = Inl e \<and> \<not> isinstance e EOSError else \<not> isinstance e EException))) ?fs rs"
    using rs on by (simp add: toy_firing_def)
  have "length rs = 3" using list_all2_lengthD [OF rs] by simp
  moreover have "rs ! 1 = Inr ()" using list_all2_nthD [OF rs, of 1] by (simp add: toy_firing_def)
  ultimately show ?thesis using y by blast
qed

end
