(* ===== verification/Sync_Interleaving.thy ===== *)
theory Sync_Interleaving
  imports System
begin

text \<open>
  Concurrent syncs of one mailbox at the granularity of their transactions. \<open>max_instances=1\<close> keeps one job from overlapping
  itself, but \<open>sync_cycle\<close>, \<open>force_sync_dispatcher\<close> and the initial sync of \<open>worker/app/main.py\<close> are three, so several runs of
  \<open>sync_one_account\<close> can be under way for the same row, each with the row as it read it. A step of the relation \<open>il_step\<close> is
  one of them: the row is read, the mailbox is fetched, the messages are saved, the cursor is written, a run is given up; or
  the server receives mail, or another transaction happens that deletes no mail and leaves this cursor alone. Fact: no mail falls behind the cursor unsaved.
\<close>

datatype phase = Idle | Snapshot account | Fetched fetched_box | Saved fetched_box

record il_state =
  il_db :: db
  il_mails :: "raw_msg list"
  il_next :: int \<comment> \<open>the server's UIDNEXT\<close>
  phases :: "nat \<Rightarrow> phase"

definition cursor_of :: "int \<Rightarrow> db \<Rightarrow> (int option \<times> int option) option" where
  "cursor_of i d = map_option (\<lambda>a. (last_synced_uidnext a, last_uidvalidity a)) (get_by_id i d)"

inductive il_step :: "int \<Rightarrow> int \<Rightarrow> il_state \<Rightarrow> il_state \<Rightarrow> bool" for i v where
  deliver: "\<forall>m \<in> set ms. il_next s \<le> uid_of m \<and> uid_of m < nx \<Longrightarrow> il_next s \<le> nx \<Longrightarrow>
    il_step i v s (s\<lparr>il_mails := il_mails s @ ms, il_next := nx\<rparr>)"
| read_row: "get_by_id i (il_db s) = Some a \<Longrightarrow> il_step i v s (s\<lparr>phases := (phases s)(k := Snapshot a)\<rparr>)"
| fetch: "phases s k = Snapshot a \<Longrightarrow> serves box v (Some (il_next s)) (il_mails s) \<Longrightarrow>
    fetch_open_box cv now today days mb box (last_synced_uidnext a) (last_uidvalidity a) = Inr fb \<Longrightarrow>
    il_step i v s (s\<lparr>phases := (phases s)(k := Fetched fb)\<rparr>)"
| save: "phases s k = Fetched fb \<Longrightarrow> transaction (save_messages now i (fb_uidvalidity fb) (fb_new fb)) (il_db s) = (r, d) \<Longrightarrow>
    il_step i v s (s\<lparr>il_db := d, phases := (phases s)(k := (case r of Inl e \<Rightarrow> Idle | Inr x \<Rightarrow> Saved fb))\<rparr>)"
| mark: "phases s k = Saved fb \<Longrightarrow>
    transaction (mark_sync_success now i (fb_uidnext fb) (Some (fb_uidvalidity fb))) (il_db s) = (r, d) \<Longrightarrow>
    il_step i v s (s\<lparr>il_db := d, phases := (phases s)(k := Idle)\<rparr>)"
| give_up: "il_step i v s (s\<lparr>phases := (phases s)(k := Idle)\<rparr>)"
| other: "store_ok d \<Longrightarrow> kept (il_db s) d \<Longrightarrow> cursor_of i d = cursor_of i (il_db s) \<Longrightarrow> il_step i v s (s\<lparr>il_db := d\<rparr>)"

definition il_start :: "int \<Rightarrow> int \<Rightarrow> int \<Rightarrow> il_state \<Rightarrow> bool" where
  \<comment> \<open>a mailbox that has been synced before, with no run under way\<close>
  "il_start i v n0 s \<longleftrightarrow> store_ok (il_db s) \<and> cursor_of i (il_db s) = Some (Some n0, Some v) \<and> n0 \<le> il_next s \<and>
     (\<forall>m \<in> set (il_mails s). uid_of m < il_next s) \<and> (\<forall>k. phases s k = Idle)"

section \<open>The invariant\<close>

definition stored :: "int \<Rightarrow> int \<Rightarrow> db \<Rightarrow> int \<Rightarrow> bool" where
  "stored i v d x \<longleftrightarrow> (i, v, x) \<in> msg_key ` set (msgs d)"

definition covered :: "int \<Rightarrow> int \<Rightarrow> int \<Rightarrow> il_state \<Rightarrow> int set \<Rightarrow> int option \<Rightarrow> bool" where
  \<comment> \<open>the cursor is at a UID below UIDNEXT, and what lies before it is stored or in \<open>A\<close>\<close>
  "covered i v n0 s A c \<longleftrightarrow> (\<exists>n. c = Some n \<and> n0 \<le> n \<and> n \<le> il_next s \<and>
     (\<forall>m \<in> set (il_mails s). n0 \<le> uid_of m \<and> uid_of m < n \<longrightarrow> stored i v (il_db s) (uid_of m) \<or> uid_of m \<in> A))"

fun phase_ok :: "int \<Rightarrow> int \<Rightarrow> int \<Rightarrow> il_state \<Rightarrow> phase \<Rightarrow> bool" where
  "phase_ok i v n0 s Idle = True"
| "phase_ok i v n0 s (Snapshot a) = (last_uidvalidity a = Some v \<and> covered i v n0 s {} (last_synced_uidnext a))"
| "phase_ok i v n0 s (Fetched fb) = (fb_uidvalidity fb = v \<and> covered i v n0 s (fm_uid ` set (fb_new fb)) (fb_uidnext fb))"
| "phase_ok i v n0 s (Saved fb) = (fb_uidvalidity fb = v \<and> covered i v n0 s {} (fb_uidnext fb))"

definition row_ok :: "int \<Rightarrow> int \<Rightarrow> int \<Rightarrow> il_state \<Rightarrow> bool" where
  "row_ok i v n0 s \<longleftrightarrow> (\<forall>c uv. cursor_of i (il_db s) = Some (c, uv) \<longrightarrow> uv = Some v \<and> covered i v n0 s {} c)"

definition il_inv :: "int \<Rightarrow> int \<Rightarrow> int \<Rightarrow> il_state \<Rightarrow> bool" where
  "il_inv i v n0 s \<longleftrightarrow> store_ok (il_db s) \<and> n0 \<le> il_next s \<and> (\<forall>m \<in> set (il_mails s). uid_of m < il_next s) \<and>
     row_ok i v n0 s \<and> (\<forall>k. phase_ok i v n0 s (phases s k))"

lemma covered_phases [simp]: "covered i v n0 (s\<lparr>phases := p\<rparr>) A c = covered i v n0 s A c"
  by (simp add: covered_def)

lemma phase_ok_phases [simp]: "phase_ok i v n0 (s\<lparr>phases := p\<rparr>) q = phase_ok i v n0 s q"
  by (cases q) simp_all

lemma covered_db:
  "covered i v n0 s A c \<Longrightarrow> (\<And>x. stored i v (il_db s) x \<Longrightarrow> stored i v d x) \<Longrightarrow> (\<And>x. x \<in> A \<Longrightarrow> x \<in> B \<or> stored i v d x) \<Longrightarrow>
   covered i v n0 (s\<lparr>il_db := d\<rparr>) B c"
  unfolding covered_def by fastforce

lemma phase_ok_db:
  "phase_ok i v n0 s q \<Longrightarrow> (\<And>x. stored i v (il_db s) x \<Longrightarrow> stored i v d x) \<Longrightarrow> phase_ok i v n0 (s\<lparr>il_db := d\<rparr>) q"
  by (cases q) (auto elim: covered_db)

lemma covered_deliver:
  "covered i v n0 s A c \<Longrightarrow> \<forall>m \<in> set ms. il_next s \<le> uid_of m \<Longrightarrow> il_next s \<le> nx \<Longrightarrow>
   covered i v n0 (s\<lparr>il_mails := il_mails s @ ms, il_next := nx\<rparr>) A c"
  unfolding covered_def by fastforce

lemma phase_ok_deliver:
  "phase_ok i v n0 s q \<Longrightarrow> \<forall>m \<in> set ms. il_next s \<le> uid_of m \<Longrightarrow> il_next s \<le> nx \<Longrightarrow>
   phase_ok i v n0 (s\<lparr>il_mails := il_mails s @ ms, il_next := nx\<rparr>) q"
  by (cases q) (auto intro: covered_deliver)

lemma stored_kept: "kept d d' \<Longrightarrow> stored i v d x \<Longrightarrow> stored i v d' x"
proof -
  assume k: "kept d d'" and "stored i v d x"
  then obtain m where m: "m \<in> set (msgs d)" "msg_key m = (i, v, x)" by (auto simp: stored_def)
  then obtain y where y: "y \<in> set (msgs d')" "y = m\<lparr>pushed_at := pushed_at y\<rparr>" using k unfolding kept_def by blast
  have "msg_key y = msg_key m" by (subst y(2)) (simp add: msg_key_def)
  then show "stored i v d' x" using m(2) y(1) by (force simp: stored_def)
qed

section \<open>The steps\<close>

lemma fetched_covers:
  assumes srv: "serves box v (Some (il_next s)) (il_mails s)" and snap: "phase_ok i v n0 s (Snapshot a)"
    and f: "fetch_open_box cv now today days mb box (last_synced_uidnext a) (last_uidvalidity a) = Inr fb" and n0: "n0 \<le> il_next s"
  shows "phase_ok i v n0 s (Fetched fb)"
proof -
  obtain n where n: "last_synced_uidnext a = Some n" "last_uidvalidity a = Some v"
    and c: "\<forall>m \<in> set (il_mails s). n0 \<le> uid_of m \<and> uid_of m < n \<longrightarrow> stored i v (il_db s) (uid_of m)"
    using snap by (auto simp: covered_def)
  note inc = incremental_uids [OF srv f [unfolded n]]
  have "fb_uidnext fb = Some (il_next s)"
    using f serves_status [OF srv] by (auto simp: fetch_open_box_def final_uidnext_def split: sum.splits)
  then show ?thesis using inc(1,2) c n0 by (auto simp: covered_def)
qed

lemma saved_covers:
  assumes "transaction (save_messages now i (fb_uidvalidity fb) (fb_new fb)) d = (r, d')"
  shows "\<And>x. stored i v d x \<Longrightarrow> stored i v d' x" and "r = Inr q \<Longrightarrow> m \<in> set (fb_new fb) \<Longrightarrow> stored i (fb_uidvalidity fb) d' (fm_uid m)"
    and "accounts d' = accounts d"
proof -
  obtain r0 d0 where s: "save_messages now i (fb_uidvalidity fb) (fb_new fb) d = (r0, d0)" by (rule prod.exhaust)
  have acc: "accounts d0 = accounts d" using save_messages_accounts [of now i "fb_uidvalidity fb" "fb_new fb" d] s by simp
  show "\<And>x. stored i v d x \<Longrightarrow> stored i v d' x" "r = Inr q \<Longrightarrow> m \<in> set (fb_new fb) \<Longrightarrow> stored i (fb_uidvalidity fb) d' (fm_uid m)"
    "accounts d' = accounts d"
    using assms s acc save_messages_run [of now i "fb_uidvalidity fb" "fb_new fb" d]
    by (cases q; fastforce simp: transaction_def stored_def rollback_def split: sum.splits)+
qed

lemma tx_grown:
  assumes "store_ok d" and "\<And>d0. keeps (grown True d0) m" and "transaction m d = (r, d')"
  shows "store_ok d'" and "stored i v d x \<Longrightarrow> stored i v d' x"
proof -
  have "grown True d d" using assms(1) by (simp add: grown_def)
  from keepsD [OF grown_transaction [OF assms(2)] this] have g: "grown True d d'" using assms(3) by simp
  then show "store_ok d'" "stored i v d x \<Longrightarrow> stored i v d' x" using stored_kept by (auto simp: grown_def)
qed

lemma find_marked: "(\<And>a. acc_id (f a) = acc_id a) \<Longrightarrow>
    find (\<lambda>a. acc_id a = i) (update_where (\<lambda>a. acc_id a = i) f as) = map_option f (find (\<lambda>a. acc_id a = i) as)"
  by (induction as) auto

lemma cursor_marked:
  assumes "transaction (mark_sync_success now i c uv) d = (r, d')" and "cursor_of i d' = Some (c', u')"
  shows "cursor_of i d = Some (c', u') \<or> (c', u') = (c, uv)"
proof -
  obtain r0 d0 where m: "mark_sync_success now i c uv d = (r0, d0)" by (rule prod.exhaust)
  show ?thesis
  proof (cases r0)
    case (Inl e)
    then show ?thesis using assms m by (auto simp: transaction_def cursor_of_def get_by_id_def)
  next
    case (Inr x)
    let ?f = "\<lambda>a. a\<lparr>last_synced_uidnext := c, last_uidvalidity := uv, last_synced_at := Some now, last_sync_error := None,
       consecutive_failures := 0, updated_at := now\<rparr>"
    have "d' = d\<lparr>accounts := update_where (\<lambda>a. acc_id a = i) ?f (accounts d)\<rparr>"
      using assms(1) m Inr by (auto simp: transaction_def mark_sync_success_def update_row_def dest: write_accounts_InrD)
    then have "get_by_id i d' = map_option ?f (get_by_id i d)" by (simp add: get_by_id_def find_marked)
    then show ?thesis using assms(2) by (auto simp: cursor_of_def)
  qed
qed

lemma il_inv_update:
  "il_inv i v n0 s \<Longrightarrow> phase_ok i v n0 s q \<Longrightarrow> il_inv i v n0 (s\<lparr>phases := (phases s)(k := q)\<rparr>)"
  by (simp add: il_inv_def row_ok_def)

lemma il_inv_db:
  assumes "il_inv i v n0 s" and "store_ok d" and "\<And>x. stored i v (il_db s) x \<Longrightarrow> stored i v d x"
    and "\<And>c uv. cursor_of i d = Some (c, uv) \<Longrightarrow> cursor_of i (il_db s) = Some (c, uv) \<or> uv = Some v \<and> covered i v n0 s {} c"
  shows "il_inv i v n0 (s\<lparr>il_db := d\<rparr>)"
proof -
  have "covered i v n0 (s\<lparr>il_db := d\<rparr>) {} c" if "covered i v n0 s {} c" for c by (rule covered_db [OF that assms(3)]) auto
  then show ?thesis using assms phase_ok_db [OF _ assms(3)] unfolding il_inv_def row_ok_def by fastforce
qed

lemma il_step_inv: "il_step i v s t \<Longrightarrow> il_inv i v n0 s \<Longrightarrow> il_inv i v n0 t"
proof (induction rule: il_step.induct)
  case (deliver ms s nx)
  then show ?case unfolding il_inv_def row_ok_def
    by (auto intro!: phase_ok_deliver covered_deliver dest: bspec)
next
  case (read_row s a k)
  then have "phase_ok i v n0 s (Snapshot a)" by (auto simp: il_inv_def row_ok_def cursor_of_def)
  with read_row show ?case by (intro il_inv_update)
next
  case (fetch s k a box cv now today days mb fb)
  then have "phase_ok i v n0 s (Snapshot a)" "n0 \<le> il_next s" by (auto simp: il_inv_def) (metis phase_ok.simps(2))+
  with fetch show ?case by (intro il_inv_update fetched_covers)
next
  case (save s k fb now r d)
  have p: "phase_ok i v n0 s (Fetched fb)" using save by (metis il_inv_def)
  have ok: "store_ok (il_db s)" using save(3) by (simp add: il_inv_def)
  note sc = saved_covers [OF save(2)]
  have inv: "il_inv i v n0 (s\<lparr>il_db := d\<rparr>)"
    by (rule il_inv_db [OF save(3) tx_grown(1) [OF ok grown_save save(2)] sc(1)]) (simp_all add: cursor_of_def get_by_id_def sc(3))
  have "phase_ok i v n0 (s\<lparr>il_db := d\<rparr>) (case r of Inl e \<Rightarrow> Idle | Inr x \<Rightarrow> Saved fb)"
  proof (cases r)
    case (Inr x)
    have "covered i v n0 (s\<lparr>il_db := d\<rparr>) {} (fb_uidnext fb)"
      by (rule covered_db [of _ _ _ _ "fm_uid ` set (fb_new fb)"]) (use p sc(1) sc(2) [OF Inr] in auto)
    then show ?thesis using p Inr by simp
  qed simp
  from il_inv_update [OF inv this] show ?case by simp
next
  case (mark s k fb now r d)
  have p: "phase_ok i v n0 s (Saved fb)" using mark by (metis il_inv_def)
  have ok: "store_ok (il_db s)" using mark(3) by (simp add: il_inv_def)
  have inv: "il_inv i v n0 (s\<lparr>il_db := d\<rparr>)"
    by (rule il_inv_db [OF mark(3) tx_grown(1) [OF ok _ mark(2)] tx_grown(2) [OF ok _ mark(2)]])
      (use p cursor_marked [OF mark(2)] in \<open>auto intro: grown_marks\<close>)
  from il_inv_update [OF inv, of Idle k] show ?case by simp
next
  case (give_up s k)
  then show ?case by (intro il_inv_update) simp_all
next
  case (other d s)
  show ?case by (rule il_inv_db [OF other(4,1) stored_kept [OF other(2)]]) (use other(3) in auto)
qed

lemma il_start_inv: "il_start i v n0 s \<Longrightarrow> il_inv i v n0 s"
  by (auto simp: il_start_def il_inv_def row_ok_def covered_def)

lemma il_reach_inv: "(il_step i v)\<^sup>*\<^sup>* s t \<Longrightarrow> il_inv i v n0 s \<Longrightarrow> il_inv i v n0 t"
  by (induction rule: rtranclp_induct) (auto intro: il_step_inv)

lemma stored_once:
  assumes "msgs_ok d" and "stored i v d x"
  shows "length (filter (\<lambda>m. msg_key m = (i, v, x)) (msgs d)) = 1"
proof -
  have "distinct (map msg_key ms) \<Longrightarrow> k \<in> msg_key ` set ms \<Longrightarrow> length (filter (\<lambda>m. msg_key m = k) ms) = 1" for ms k
    by (induction ms) (auto simp: filter_empty_conv image_iff)
  then show ?thesis using assms by (auto simp: msgs_ok_def stored_def)
qed


section \<open>An execution\<close>

datatype action = Read nat | Arrive raw_msg | Fetch nat | Save nat | Mark nat

fun act :: "action \<Rightarrow> il_state \<Rightarrow> il_state" where
  \<comment> \<open>mailbox 1 at UIDVALIDITY 9; an action that is not possible changes nothing\<close>
  "act (Read k) s = (case get_by_id 1 (il_db s) of None \<Rightarrow> s | Some a \<Rightarrow> s\<lparr>phases := (phases s)(k := Snapshot a)\<rparr>)"
| "act (Arrive m) s = (if il_next s \<le> uid_of m then s\<lparr>il_mails := il_mails s @ [m], il_next := uid_of m + 1\<rparr> else s)"
| "act (Fetch k) s = (case phases s k of
     Snapshot a \<Rightarrow> (case fetch_open_box plain_cv 0 0 30 1024 (toy_box 9 (il_next s) (il_mails s)) (last_synced_uidnext a) (last_uidvalidity a) of
         Inl e \<Rightarrow> s | Inr fb \<Rightarrow> s\<lparr>phases := (phases s)(k := Fetched fb)\<rparr>)
   | _ \<Rightarrow> s)"
| "act (Save k) s = (case phases s k of
     Fetched fb \<Rightarrow> (case transaction (save_messages 5 1 (fb_uidvalidity fb) (fb_new fb)) (il_db s) of
         (r, d) \<Rightarrow> s\<lparr>il_db := d, phases := (phases s)(k := (case r of Inl e \<Rightarrow> Idle | Inr x \<Rightarrow> Saved fb))\<rparr>)
   | _ \<Rightarrow> s)"
| "act (Mark k) s = (case phases s k of
     Saved fb \<Rightarrow> (case transaction (mark_sync_success 5 1 (fb_uidnext fb) (Some (fb_uidvalidity fb))) (il_db s) of
         (r, d) \<Rightarrow> s\<lparr>il_db := d, phases := (phases s)(k := Idle)\<rparr>)
   | _ \<Rightarrow> s)"

lemma act_step:
  assumes "\<forall>m \<in> set (il_mails s). uid_of m < il_next s"
  shows "act x s = s \<or> il_step 1 9 s (act x s)" and "\<forall>m \<in> set (il_mails (act x s)). uid_of m < il_next (act x s)"
proof -
  note serving = toy_box_serves [OF assms, of 9]
  show "act x s = s \<or> il_step 1 9 s (act x s)"
    by (cases x) (auto intro: il_step.read_row il_step.fetch [OF _ serving] il_step.mark
      dest: il_step.save [where r = "Inl e" for e, simplified] il_step.save [where r = "Inr e" for e, simplified]
      intro: il_step.deliver [where ms = "[m]" for m, simplified] split: option.split phase.split sum.split prod.split)
  show "\<forall>m \<in> set (il_mails (act x s)). uid_of m < il_next (act x s)"
    using assms by (cases x) (auto split: option.split phase.split sum.split prod.split)
qed

lemma acts_steps: "\<forall>m \<in> set (il_mails s). uid_of m < il_next s \<Longrightarrow> (il_step 1 9)\<^sup>*\<^sup>* s (fold act xs s)"
proof (induction xs arbitrary: s)
  case (Cons x xs)
  from act_step [OF Cons.prems, of x] Cons.IH [of "act x s"] show ?case
    by (auto intro: converse_rtranclp_into_rtranclp)
qed simp

definition overlap_start :: il_state where
  "overlap_start = \<lparr>il_db = sample_db\<lparr>accounts := [(mail_row 1)\<lparr>last_synced_uidnext := Some 2, last_uidvalidity := Some 9\<rparr>], acc_seq := 100\<rparr>,
     il_mails = [raw 1], il_next = 2, phases = (\<lambda>_. Idle)\<rparr>"

definition overlap :: "action list" where
  \<comment> \<open>two runs read the same row; the later fetch is saved and marked first, so the cursor goes from 4 back to 3\<close>
  "overlap = [Read 0, Read 1, Arrive (raw 2), Fetch 0, Arrive (raw 3), Fetch 1, Save 1, Mark 1, Save 0, Mark 0]"

lemma overlap_starts: "il_start 1 9 2 overlap_start"
proof -
  have "store_ok (il_db overlap_start)" by code_simp
  moreover have "cursor_of 1 (il_db overlap_start) = Some (Some 2, Some 9)" by code_simp
  ultimately show ?thesis by (simp add: il_start_def overlap_start_def raw_def uid_of_def)
qed

lemma overlap_cursor:
  "cursor_of 1 (il_db (fold act (take 8 overlap) overlap_start)) = Some (Some 4, Some 9)"
  "cursor_of 1 (il_db (fold act overlap overlap_start)) = Some (Some 3, Some 9)"
  "map uid_of (il_mails (fold act overlap overlap_start)) = [1, 2, 3]"
  by code_simp+


end
