(* ===== verification/Sql.thy ===== *)
theory Sql
  imports Utf8
begin

text \<open>
  The SQL the migrations of \<open>migrations/versions/\<close> are written in. A database is a \<open>catalog\<close> (tables with
  their columns, constraints, indexes and triggers; functions) and its \<open>data\<close> (the rows of each table, the
  serial counters, the clock, the tables with queued deferred trigger events). \<open>stmt\<close> has one constructor
  per form of statement the migrations issue. \<open>cat_step\<close> is the effect of a statement on the catalog and
  \<open>data_step\<close> its effect on the rows; both fail with a \<open>sql_error\<close> where the statement does. CHECK and WHERE
  conditions are expressions with the three truth values of SQL. Column types are compared but values are not
  checked against them.
\<close>

section \<open>Values and conditions\<close>

datatype sqlval = SNull | SNum int | SStr pystr | SBool bool | SBytes bytes | STime int

type_synonym row = "string \<Rightarrow> sqlval"

datatype sqlexp =
    Col string
  | Const sqlval
  | Equals sqlexp sqlexp
  | Differs sqlexp sqlexp
  | Conj sqlexp sqlexp
  | Disj sqlexp sqlexp
  | Neg sqlexp
  | Is_Null sqlexp
  | One_Of sqlexp "string list"
  | Between sqlexp int int
  | Char_Length sqlexp
  | Lower sqlexp
  | Starts_With sqlexp string
  | Hex_Colour sqlexp

definition sql_text :: "string \<Rightarrow> sqlval" where
  "sql_text s = SStr (u s)"

fun sql_eq :: "sqlval \<Rightarrow> sqlval \<Rightarrow> sqlval" where
  \<comment> \<open>a comparison with NULL is NULL\<close>
  "sql_eq SNull _ = SNull"
| "sql_eq _ SNull = SNull"
| "sql_eq a b = SBool (a = b)"

fun sql_not :: "sqlval \<Rightarrow> sqlval" where
  "sql_not (SBool b) = SBool (\<not> b)"
| "sql_not _ = SNull"

fun sql_and :: "sqlval \<Rightarrow> sqlval \<Rightarrow> sqlval" where
  "sql_and (SBool False) _ = SBool False"
| "sql_and _ (SBool False) = SBool False"
| "sql_and (SBool True) (SBool True) = SBool True"
| "sql_and _ _ = SNull"

definition sql_or :: "sqlval \<Rightarrow> sqlval \<Rightarrow> sqlval" where
  "sql_or a b = sql_not (sql_and (sql_not a) (sql_not b))"

definition hex_digit :: "int \<Rightarrow> bool" where
  "hex_digit c \<longleftrightarrow> 48 \<le> c \<and> c \<le> 57 \<or> 65 \<le> c \<and> c \<le> 70 \<or> 97 \<le> c \<and> c \<le> 102"

fun eval :: "row \<Rightarrow> sqlexp \<Rightarrow> sqlval" where
  "eval r (Col c) = r c"
| "eval r (Const v) = v"
| "eval r (Equals a b) = sql_eq (eval r a) (eval r b)"
| "eval r (Differs a b) = sql_not (sql_eq (eval r a) (eval r b))"
| "eval r (Conj a b) = sql_and (eval r a) (eval r b)"
| "eval r (Disj a b) = sql_or (eval r a) (eval r b)"
| "eval r (Neg a) = sql_not (eval r a)"
| "eval r (Is_Null a) = SBool (eval r a = SNull)"
| "eval r (One_Of a ss) = (case eval r a of SStr s \<Rightarrow> SBool (s \<in> set (map u ss)) | _ \<Rightarrow> SNull)"
| "eval r (Between a lo hi) = (case eval r a of SNum n \<Rightarrow> SBool (lo \<le> n \<and> n \<le> hi) | _ \<Rightarrow> SNull)"
| "eval r (Char_Length a) = (case eval r a of SStr s \<Rightarrow> SNum (int (length s)) | _ \<Rightarrow> SNull)"
| "eval r (Lower a) = (case eval r a of SStr s \<Rightarrow> SStr (py_lower s) | _ \<Rightarrow> SNull)"
| "eval r (Starts_With a p) = (case eval r a of SStr s \<Rightarrow> SBool (py_startswith (u p) s) | _ \<Rightarrow> SNull)"
| "eval r (Hex_Colour a) = (case eval r a of
       SStr s \<Rightarrow> SBool (length s = 7 \<and> hd s = 35 \<and> list_all hex_digit (tl s)) | _ \<Rightarrow> SNull)"

abbreviation Is_Not_Null :: "sqlexp \<Rightarrow> sqlexp" where
  "Is_Not_Null e \<equiv> Neg (Is_Null e)"

fun cols_of :: "sqlexp \<Rightarrow> string list" where
  "cols_of (Col c) = [c]"
| "cols_of (Const v) = []"
| "cols_of (Equals a b) = cols_of a @ cols_of b"
| "cols_of (Differs a b) = cols_of a @ cols_of b"
| "cols_of (Conj a b) = cols_of a @ cols_of b"
| "cols_of (Disj a b) = cols_of a @ cols_of b"
| "cols_of (Neg a) = cols_of a"
| "cols_of (Is_Null a) = cols_of a"
| "cols_of (One_Of a ss) = cols_of a"
| "cols_of (Between a lo hi) = cols_of a"
| "cols_of (Char_Length a) = cols_of a"
| "cols_of (Lower a) = cols_of a"
| "cols_of (Starts_With a p) = cols_of a"
| "cols_of (Hex_Colour a) = cols_of a"

definition passes :: "row \<Rightarrow> sqlexp \<Rightarrow> bool" where
  \<comment> \<open>a CHECK is violated only by FALSE: NULL passes\<close>
  "passes r e \<longleftrightarrow> eval r e \<noteq> SBool False"

lemma eval_cong: "(\<And>c. c \<in> set (cols_of e) \<Longrightarrow> r c = r' c) \<Longrightarrow> eval r e = eval r' e"
  by (induction e) simp_all

section \<open>The catalog\<close>

datatype coltype = Big_Int | Int4 | Txt | Varchar nat | Boolean | Timestamptz | Bytea | Jsonb

datatype coldefault = No_Default | Serial | Now | Literal sqlval

record column =
  c_name :: string
  c_type :: coltype
  c_nullable :: bool
  c_default :: coldefault

datatype fk_action = Cascade | Restrict | Set_Null

datatype constr =
    Primary_Key "string list"
  | Unique "string list"
  | Check sqlexp
  | Check_Not_Valid sqlexp  \<comment> \<open>added \<open>NOT VALID\<close>: enforced on new and updated rows only\<close>
  | Foreign_Key string string string fk_action bool
      \<comment> \<open>column, referenced table and column, \<open>ON DELETE\<close>, \<open>DEFERRABLE INITIALLY DEFERRED\<close>\<close>

datatype index_key = Asc sqlexp | Desc sqlexp

record index =
  i_name :: string
  i_keys :: "index_key list"
  i_unique :: bool
  i_where :: "sqlexp option"

record trigger =
  t_name :: string
  t_columns :: "string list"  \<comment> \<open>of \<open>UPDATE OF\<close>; empty when the trigger names no column\<close>
  t_deferred :: bool  \<comment> \<open>a constraint trigger, \<open>AFTER\<close> the change; otherwise \<open>BEFORE UPDATE\<close>\<close>
  t_function :: string

record tbl =
  t_cols :: "column list"
  t_cons :: "(string \<times> constr) list"
  t_idx :: "index list"
  t_trgs :: "trigger list"

record catalog =
  tables :: "(string \<times> tbl) list"
  routines :: "string list"

record data =
  rows :: "string \<Rightarrow> row list"
  serial :: "string \<Rightarrow> int"
  clock :: int
  pending :: "string list"

datatype sql_error =
    Undefined_Table | Duplicate_Relation | Undefined_Column | Duplicate_Column | Undefined_Object
  | Duplicate_Object | Dependent_Objects | Not_Null_Violation | Unique_Violation | Check_Violation
  | Foreign_Key_Violation | Pending_Events | Stack_Depth | Runtime_Error string

definition empty_catalog :: catalog where
  "empty_catalog = \<lparr>tables = [], routines = []\<rparr>"

definition empty_data :: data where
  "empty_data = \<lparr>rows = (\<lambda>_. []), serial = (\<lambda>_. 1), clock = 0, pending = []\<rparr>"

definition col_names :: "tbl \<Rightarrow> string list" where
  "col_names T = map c_name (t_cols T)"

fun key_cols :: "index_key \<Rightarrow> string list" where
  "key_cols (Asc e) = cols_of e"
| "key_cols (Desc e) = cols_of e"

definition index_cols :: "index \<Rightarrow> string list" where
  "index_cols i = concat (map key_cols (i_keys i)) @ (case i_where i of None \<Rightarrow> [] | Some e \<Rightarrow> cols_of e)"

fun constr_cols :: "constr \<Rightarrow> string list" where
  "constr_cols (Primary_Key cs) = cs"
| "constr_cols (Unique cs) = cs"
| "constr_cols (Check e) = cols_of e"
| "constr_cols (Check_Not_Valid e) = cols_of e"
| "constr_cols (Foreign_Key c _ _ _ _) = [c]"

fun is_key :: "constr \<Rightarrow> bool" where
  "is_key (Primary_Key _) = True"
| "is_key (Unique _) = True"
| "is_key _ = False"

fun key_names :: "(string \<times> constr) list \<Rightarrow> string list" where
  "key_names [] = []"
| "key_names ((n, k) # ks) = (if is_key k then n # key_names ks else key_names ks)"

fun names_of :: "(string \<times> tbl) list \<Rightarrow> string list" where
  "names_of [] = []"
| "names_of ((t, T) # ts) = t # map i_name (t_idx T) @ key_names (t_cons T) @ names_of ts"

definition relation_names :: "catalog \<Rightarrow> string list" where
  \<comment> \<open>tables, indexes and the indexes behind key constraints share one name space\<close>
  "relation_names c = names_of (tables c)"

fun fkeys_onto :: "string \<Rightarrow> string \<Rightarrow> (string \<times> constr) list \<Rightarrow> (string \<times> string \<times> string \<times> fk_action) list" where
  "fkeys_onto t t' [] = []"
| "fkeys_onto t t' ((n, Foreign_Key x rt rx act b) # ks) =
     (if rt = t then (t', x, rx, act) # fkeys_onto t t' ks else fkeys_onto t t' ks)"
| "fkeys_onto t t' (nk # ks) = fkeys_onto t t' ks"

fun references_in :: "(string \<times> tbl) list \<Rightarrow> string \<Rightarrow> (string \<times> string \<times> string \<times> fk_action) list" where
  "references_in [] t = []"
| "references_in ((t', T) # ts) t = fkeys_onto t t' (t_cons T) @ references_in ts t"

definition references :: "catalog \<Rightarrow> string \<Rightarrow> (string \<times> string \<times> string \<times> fk_action) list" where
  \<comment> \<open>the foreign keys onto table \<open>t\<close>: (table, column, referenced column, action)\<close>
  "references c t = references_in (tables c) t"

fun deferred_in :: "string \<Rightarrow> (string \<times> constr) list \<Rightarrow> (string \<times> constr) list" where
  "deferred_in t [] = []"
| "deferred_in t ((n, Foreign_Key x rt rx act True) # ks) = (t, Foreign_Key x rt rx act True) # deferred_in t ks"
| "deferred_in t (nk # ks) = deferred_in t ks"

fun deferred_fkeys :: "(string \<times> tbl) list \<Rightarrow> (string \<times> constr) list" where
  \<comment> \<open>the foreign keys that are \<open>DEFERRABLE INITIALLY DEFERRED\<close>, with their tables\<close>
  "deferred_fkeys [] = []"
| "deferred_fkeys ((t, T) # ts) = deferred_in t (t_cons T) @ deferred_fkeys ts"

fun has_column :: "tbl option \<Rightarrow> string \<Rightarrow> bool" where
  "has_column None x = False"
| "has_column (Some T) x = (x \<in> set (col_names T))"

fun fk_target_ok :: "catalog \<Rightarrow> string \<Rightarrow> tbl \<Rightarrow> string \<times> constr \<Rightarrow> bool" where
  "fk_target_ok c t T (n, Foreign_Key x rt rx act b) =
     has_column (if rt = t then Some T else map_of (tables c) rt) rx"
| "fk_target_ok c t T nk = True"

fun put :: "string \<Rightarrow> tbl \<Rightarrow> (string \<times> tbl) list \<Rightarrow> (string \<times> tbl) list" where
  \<comment> \<open>replaces table \<open>t\<close> where it stands\<close>
  "put t T [] = []"
| "put t T ((n, U) # ts) = (if n = t then (t, T) # ts else (n, U) # put t T ts)"

definition put_table :: "string \<Rightarrow> tbl \<Rightarrow> catalog \<Rightarrow> catalog" where
  "put_table t T c = c\<lparr>tables := put t T (tables c)\<rparr>"

fun constraint_exists :: "string \<Rightarrow> (string \<times> tbl) list \<Rightarrow> bool" where
  "constraint_exists n [] = False"
| "constraint_exists n ((t, T) # ts) = (n \<in> set (map fst (t_cons T)) \<or> constraint_exists n ts)"

fun trigger_exists :: "string \<Rightarrow> (string \<times> tbl) list \<Rightarrow> bool" where
  "trigger_exists n [] = False"
| "trigger_exists n ((t, T) # ts) = (n \<in> set (map t_name (t_trgs T)) \<or> trigger_exists n ts)"

fun index_exists :: "string \<Rightarrow> (string \<times> tbl) list \<Rightarrow> bool" where
  "index_exists n [] = False"
| "index_exists n ((t, T) # ts) = (n \<in> set (map i_name (t_idx T)) \<or> index_exists n ts)"

section \<open>Statements\<close>

text \<open>
  The Boolean that follows a constructor is the statement's \<open>IF EXISTS\<close> / \<open>IF NOT EXISTS\<close>. The conditions
  of \<open>Update\<close>, \<open>Delete\<close> and \<open>Insert\<close> may contain subqueries, so they are functions of the data and the row;
  \<open>Insert\<close> carries the columns of its \<open>ON CONFLICT (...) DO NOTHING\<close>.
\<close>

datatype stmt =
    Create_Table bool string "column list" "(string \<times> constr) list"
  | Drop_Table bool string
  | Add_Column string bool column "(string \<times> constr) list"
  | Drop_Column string bool string
  | Set_Nullable string string bool
  | Set_Default string string coldefault
  | Add_Constraint string bool string constr
  | Drop_Constraint string bool string
  | Create_Index bool string index
  | Drop_Index bool string
  | Create_Function string
  | Drop_Function bool bool string  \<comment> \<open>the second Boolean is \<open>CASCADE\<close>\<close>
  | Create_Trigger bool string trigger
  | Drop_Trigger bool string string
  | Update string "string list" "data \<Rightarrow> row \<Rightarrow> bool" "data \<Rightarrow> row \<Rightarrow> row"
  | Delete string "data \<Rightarrow> row \<Rightarrow> bool"
  | Insert string "data \<Rightarrow> (string \<times> sqlval) list list" "string list"
  | Set_Constraints_Immediate
  | Assert_Row string "data \<Rightarrow> row \<Rightarrow> bool" string
      \<comment> \<open>a \<open>SELECT\<close> whose \<open>fetchone()\<close> must not be \<open>None\<close>, else \<open>raise RuntimeError\<close>\<close>
  | Raise string

section \<open>Effect on the catalog\<close>

definition andthen :: "'e + 'a \<Rightarrow> ('a \<Rightarrow> 'e + 'b) \<Rightarrow> 'e + 'b" where
  "andthen m f = (case m of Inl e \<Rightarrow> Inl e | Inr x \<Rightarrow> f x)"

fun with_found :: "(tbl \<Rightarrow> catalog \<Rightarrow> sql_error + catalog) \<Rightarrow> tbl option \<Rightarrow> catalog \<Rightarrow> sql_error + catalog" where
  "with_found f None c = Inl Undefined_Table"
| "with_found f (Some T) c = f T c"

definition on_table :: "(tbl \<Rightarrow> catalog \<Rightarrow> sql_error + catalog) \<Rightarrow> string \<Rightarrow> catalog \<Rightarrow> sql_error + catalog" where
  "on_table f t c = with_found f (map_of (tables c) t) c"

fun columns_known :: "tbl \<Rightarrow> string \<times> constr \<Rightarrow> bool" where
  "columns_known T (n, k) = list_all (\<lambda>x. x \<in> set (col_names T)) (constr_cols k)"

definition add_table :: "string \<Rightarrow> tbl \<Rightarrow> catalog \<Rightarrow> sql_error + catalog" where
  "add_table t T c =
     (if \<not> distinct (col_names T) then Inl Duplicate_Column
      else if \<not> distinct (map fst (t_cons T)) \<or> list_ex (List.member (relation_names c)) (key_names (t_cons T))
        then Inl Duplicate_Object
      else if \<not> list_all (columns_known T) (t_cons T) then Inl Undefined_Column
      else if \<not> list_all (fk_target_ok c t T) (t_cons T) then Inl Undefined_Table
      else Inr (c\<lparr>tables := tables c @ [(t, T)]\<rparr>))"

definition create_table :: "bool \<Rightarrow> string \<Rightarrow> column list \<Rightarrow> (string \<times> constr) list \<Rightarrow> catalog \<Rightarrow> sql_error + catalog" where
  "create_table ine t cols cons c =
     (if t \<in> set (relation_names c) then (if ine then Inr c else Inl Duplicate_Relation)
      else add_table t \<lparr>t_cols = cols, t_cons = cons, t_idx = [], t_trgs = []\<rparr> c)"

fun from_other :: "string \<Rightarrow> string \<times> string \<times> string \<times> fk_action \<Rightarrow> bool" where
  "from_other t (t', x, rx, act) = (t' \<noteq> t)"

fun onto_column :: "string \<Rightarrow> string \<Rightarrow> string \<times> string \<times> string \<times> fk_action \<Rightarrow> bool" where
  "onto_column t y (t', x, rx, act) = (t' \<noteq> t \<and> rx = y)"

fun without :: "string \<Rightarrow> (string \<times> tbl) list \<Rightarrow> (string \<times> tbl) list" where
  "without t [] = []"
| "without t ((n, T) # ts) = (if n = t then without t ts else (n, T) # without t ts)"

definition drop_table :: "bool \<Rightarrow> string \<Rightarrow> catalog \<Rightarrow> sql_error + catalog" where
  \<comment> \<open>without \<open>CASCADE\<close>: refused while another table references it\<close>
  "drop_table ie t c =
     (if map_of (tables c) t = None then (if ie then Inr c else Inl Undefined_Table)
      else if list_ex (from_other t) (references c t) then Inl Dependent_Objects
      else Inr (c\<lparr>tables := without t (tables c)\<rparr>))"

definition add_column :: "string \<Rightarrow> bool \<Rightarrow> column \<Rightarrow> (string \<times> constr) list \<Rightarrow> tbl \<Rightarrow> catalog \<Rightarrow> sql_error + catalog" where
  "add_column t ine k cons T c =
     (if c_name k \<in> set (col_names T) then (if ine then Inr c else Inl Duplicate_Column)
      else if \<not> list_all (fk_target_ok c t T) cons then Inl Undefined_Table
      else Inr (put_table t (T\<lparr>t_cols := t_cols T @ [k], t_cons := t_cons T @ cons\<rparr>) c))"

definition drop_column_of :: "string \<Rightarrow> tbl \<Rightarrow> tbl" where
  \<comment> \<open>the table's own constraints and indexes that involve the column go with it\<close>
  "drop_column_of x T = T\<lparr>
     t_cols := filter (\<lambda>k. c_name k \<noteq> x) (t_cols T),
     t_cons := filter (\<lambda>(_, k). x \<notin> set (constr_cols k)) (t_cons T),
     t_idx := filter (\<lambda>i. x \<notin> set (index_cols i)) (t_idx T)\<rparr>"

definition drop_column :: "string \<Rightarrow> bool \<Rightarrow> string \<Rightarrow> tbl \<Rightarrow> catalog \<Rightarrow> sql_error + catalog" where
  "drop_column t ie x T c =
     (if x \<notin> set (col_names T) then (if ie then Inr c else Inl Undefined_Column)
      else if list_ex (onto_column t x) (references c t) \<or> list_ex (\<lambda>g. x \<in> set (t_columns g)) (t_trgs T)
        then Inl Dependent_Objects
      else Inr (put_table t (drop_column_of x T) c))"

fun nullable_col :: "string \<Rightarrow> bool \<Rightarrow> column list \<Rightarrow> column list" where
  "nullable_col x b [] = []"
| "nullable_col x b (k # ks) = (if c_name k = x then k\<lparr>c_nullable := b\<rparr> # ks else k # nullable_col x b ks)"

fun default_col :: "string \<Rightarrow> coldefault \<Rightarrow> column list \<Rightarrow> column list" where
  "default_col x v [] = []"
| "default_col x v (k # ks) = (if c_name k = x then k\<lparr>c_default := v\<rparr> # ks else k # default_col x v ks)"

definition set_columns :: "string \<Rightarrow> string \<Rightarrow> (column list \<Rightarrow> column list) \<Rightarrow> tbl \<Rightarrow> catalog \<Rightarrow> sql_error + catalog" where
  "set_columns t x f T c =
     (if x \<notin> set (col_names T) then Inl Undefined_Column else Inr (put_table t (T\<lparr>t_cols := f (t_cols T)\<rparr>) c))"

definition add_constraint :: "string \<Rightarrow> bool \<Rightarrow> string \<Rightarrow> constr \<Rightarrow> tbl \<Rightarrow> catalog \<Rightarrow> sql_error + catalog" where
  "add_constraint t ine n k T c =
     (if ine \<and> constraint_exists n (tables c) then Inr c
      else if n \<in> set (map fst (t_cons T)) \<or> is_key k \<and> n \<in> set (relation_names c) then Inl Duplicate_Object
      else if \<not> columns_known T (n, k) then Inl Undefined_Column
      else if \<not> fk_target_ok c t T (n, k) then Inl Undefined_Table
      else Inr (put_table t (T\<lparr>t_cons := t_cons T @ [(n, k)]\<rparr>) c))"

definition drop_constraint :: "string \<Rightarrow> bool \<Rightarrow> string \<Rightarrow> tbl \<Rightarrow> catalog \<Rightarrow> sql_error + catalog" where
  "drop_constraint t ie n T c =
     (if n \<notin> set (map fst (t_cons T)) then (if ie then Inr c else Inl Undefined_Object)
      else Inr (put_table t (T\<lparr>t_cons := filter (\<lambda>(m, _). m \<noteq> n) (t_cons T)\<rparr>) c))"

definition create_index :: "string \<Rightarrow> bool \<Rightarrow> index \<Rightarrow> tbl \<Rightarrow> catalog \<Rightarrow> sql_error + catalog" where
  "create_index t ine i T c =
     (if i_name i \<in> set (relation_names c) then (if ine then Inr c else Inl Duplicate_Relation)
      else if \<not> list_all (\<lambda>x. x \<in> set (col_names T)) (index_cols i) then Inl Undefined_Column
      else Inr (put_table t (T\<lparr>t_idx := t_idx T @ [i]\<rparr>) c))"

fun without_index :: "string \<Rightarrow> (string \<times> tbl) list \<Rightarrow> (string \<times> tbl) list" where
  "without_index n [] = []"
| "without_index n ((t, T) # ts) = (if n \<in> set (map i_name (t_idx T))
     then (t, T\<lparr>t_idx := filter (\<lambda>i. i_name i \<noteq> n) (t_idx T)\<rparr>) # ts else (t, T) # without_index n ts)"

definition drop_index :: "bool \<Rightarrow> string \<Rightarrow> catalog \<Rightarrow> sql_error + catalog" where
  "drop_index ie n c =
     (if \<not> index_exists n (tables c) then (if ie then Inr c else Inl Undefined_Object)
      else Inr (c\<lparr>tables := without_index n (tables c)\<rparr>))"

fun function_used :: "string \<Rightarrow> (string \<times> tbl) list \<Rightarrow> bool" where
  "function_used f [] = False"
| "function_used f ((t, T) # ts) = (f \<in> set (map t_function (t_trgs T)) \<or> function_used f ts)"

fun without_function :: "string \<Rightarrow> (string \<times> tbl) list \<Rightarrow> (string \<times> tbl) list" where
  "without_function f [] = []"
| "without_function f ((t, T) # ts) = (t, T\<lparr>t_trgs := filter (\<lambda>g. t_function g \<noteq> f) (t_trgs T)\<rparr>) # without_function f ts"

definition drop_function :: "bool \<Rightarrow> bool \<Rightarrow> string \<Rightarrow> catalog \<Rightarrow> sql_error + catalog" where
  "drop_function ie casc f c =
     (if f \<notin> set (routines c) then (if ie then Inr c else Inl Undefined_Object)
      else if \<not> casc \<and> function_used f (tables c) then Inl Dependent_Objects
      else Inr (c\<lparr>routines := removeAll f (routines c), tables := without_function f (tables c)\<rparr>))"

definition create_trigger :: "string \<Rightarrow> bool \<Rightarrow> trigger \<Rightarrow> tbl \<Rightarrow> catalog \<Rightarrow> sql_error + catalog" where
  "create_trigger t ine g T c =
     (if ine \<and> trigger_exists (t_name g) (tables c) then Inr c
      else if t_name g \<in> set (map t_name (t_trgs T)) then Inl Duplicate_Object
      else if t_function g \<notin> set (routines c) then Inl Undefined_Object
      else if \<not> list_all (\<lambda>x. x \<in> set (col_names T)) (t_columns g) then Inl Undefined_Column
      else Inr (put_table t (T\<lparr>t_trgs := t_trgs T @ [g]\<rparr>) c))"

definition drop_trigger :: "string \<Rightarrow> bool \<Rightarrow> string \<Rightarrow> tbl \<Rightarrow> catalog \<Rightarrow> sql_error + catalog" where
  "drop_trigger t ie n T c =
     (if n \<notin> set (map t_name (t_trgs T)) then (if ie then Inr c else Inl Undefined_Object)
      else Inr (put_table t (T\<lparr>t_trgs := filter (\<lambda>g. t_name g \<noteq> n) (t_trgs T)\<rparr>) c))"

definition known_columns :: "string list \<Rightarrow> tbl \<Rightarrow> catalog \<Rightarrow> sql_error + catalog" where
  "known_columns cs T c = (if list_all (\<lambda>x. x \<in> set (col_names T)) cs then Inr c else Inl Undefined_Column)"

fun cat_step :: "stmt \<Rightarrow> catalog \<Rightarrow> sql_error + catalog" where
  "cat_step (Create_Table ine t cols cons) c = create_table ine t cols cons c"
| "cat_step (Drop_Table ie t) c = drop_table ie t c"
| "cat_step (Add_Column t ine k cons) c = on_table (add_column t ine k cons) t c"
| "cat_step (Drop_Column t ie x) c = on_table (drop_column t ie x) t c"
| "cat_step (Set_Nullable t x b) c = on_table (set_columns t x (nullable_col x b)) t c"
| "cat_step (Set_Default t x v) c = on_table (set_columns t x (default_col x v)) t c"
| "cat_step (Add_Constraint t ine n k) c = on_table (add_constraint t ine n k) t c"
| "cat_step (Drop_Constraint t ie n) c = on_table (drop_constraint t ie n) t c"
| "cat_step (Create_Index ine t i) c = on_table (create_index t ine i) t c"
| "cat_step (Drop_Index ie n) c = drop_index ie n c"
| "cat_step (Create_Function f) c = Inr (c\<lparr>routines := List.insert f (routines c)\<rparr>)"
| "cat_step (Drop_Function ie casc f) c = drop_function ie casc f c"
| "cat_step (Create_Trigger ine t g) c = on_table (create_trigger t ine g) t c"
| "cat_step (Drop_Trigger ie t n) c =
     (if ie \<and> map_of (tables c) t = None then Inr c else on_table (drop_trigger t ie n) t c)"
| "cat_step (Update t cs p f) c = on_table (known_columns cs) t c"
| "cat_step (Delete t p) c = on_table (known_columns []) t c"
| "cat_step (Insert t vs key) c = on_table (known_columns key) t c"
| "cat_step Set_Constraints_Immediate c = Inr c"
| "cat_step (Assert_Row t p m) c = on_table (known_columns []) t c"
| "cat_step (Raise m) c = Inl (Runtime_Error m)"

fun cat_steps :: "stmt list \<Rightarrow> catalog \<Rightarrow> sql_error + catalog" where
  "cat_steps [] c = Inr c"
| "cat_steps (s # ss) c = andthen (cat_step s c) (cat_steps ss)"


section \<open>Effect on the data\<close>

definition sat :: "sqlexp \<Rightarrow> data \<Rightarrow> row \<Rightarrow> bool" where
  \<comment> \<open>\<open>WHERE e\<close>: only TRUE selects\<close>
  "sat e d r \<longleftrightarrow> eval r e = SBool True"

definition matches :: "sqlval \<Rightarrow> sqlval \<Rightarrow> bool" where
  \<comment> \<open>\<open>a = b\<close> is TRUE\<close>
  "matches a b \<longleftrightarrow> a \<noteq> SNull \<and> a = b"

fun index_expr :: "index_key \<Rightarrow> sqlexp" where
  "index_expr (Asc e) = e"
| "index_expr (Desc e) = e"

definition keys_distinct :: "(row \<Rightarrow> sqlval list) \<Rightarrow> row list \<Rightarrow> bool" where
  \<comment> \<open>rows with a NULL in the key are never duplicates\<close>
  "keys_distinct key rs \<longleftrightarrow> distinct (filter (\<lambda>k. SNull \<notin> set k) (map key rs))"

definition constr_holds :: "data \<Rightarrow> string \<Rightarrow> constr \<Rightarrow> bool" where
  "constr_holds d t k = (case k of
       Primary_Key cs \<Rightarrow> keys_distinct (\<lambda>r. map r cs) (rows d t) \<and> (\<forall>r \<in> set (rows d t). \<forall>x \<in> set cs. r x \<noteq> SNull)
     | Unique cs \<Rightarrow> keys_distinct (\<lambda>r. map r cs) (rows d t)
     | Check e \<Rightarrow> \<forall>r \<in> set (rows d t). passes r e
     | Check_Not_Valid e \<Rightarrow> True
     | Foreign_Key x rt rx _ _ \<Rightarrow> \<forall>r \<in> set (rows d t). r x = SNull \<or> r x \<in> (\<lambda>q. q rx) ` set (rows d rt))"

definition index_holds :: "data \<Rightarrow> string \<Rightarrow> index \<Rightarrow> bool" where
  "index_holds d t i \<longleftrightarrow> (i_unique i \<longrightarrow> keys_distinct (\<lambda>r. map (\<lambda>k. eval r (index_expr k)) (i_keys i))
     (filter (\<lambda>r. case i_where i of None \<Rightarrow> True | Some e \<Rightarrow> eval r e = SBool True) (rows d t)))"

definition error_of :: "constr \<Rightarrow> sql_error" where
  "error_of k = (case k of Primary_Key _ \<Rightarrow> Unique_Violation | Unique _ \<Rightarrow> Unique_Violation
     | Check _ \<Rightarrow> Check_Violation | Check_Not_Valid _ \<Rightarrow> Check_Violation
     | Foreign_Key _ _ _ _ _ \<Rightarrow> Foreign_Key_Violation)"

definition enforced :: "data \<Rightarrow> string \<Rightarrow> row list \<Rightarrow> constr \<Rightarrow> bool" where
  \<comment> \<open>what a statement that wrote \<open>touched\<close> has to satisfy; deferred foreign keys wait\<close>
  "enforced d t touched k = (case k of
       Check e \<Rightarrow> list_all (\<lambda>r. passes r e) touched
     | Check_Not_Valid e \<Rightarrow> list_all (\<lambda>r. passes r e) touched
     | Foreign_Key x rt rx _ deferred \<Rightarrow>
         deferred \<or> list_all (\<lambda>r. r x = SNull \<or> r x \<in> (\<lambda>q. q rx) ` set (rows d rt)) touched
     | _ \<Rightarrow> constr_holds d t k)"

definition nulls_ok :: "tbl \<Rightarrow> row \<Rightarrow> bool" where
  "nulls_ok T r \<longleftrightarrow> list_all (\<lambda>k. c_nullable k \<or> r (c_name k) \<noteq> SNull) (t_cols T)"

definition check_write :: "tbl \<Rightarrow> string \<Rightarrow> row list \<Rightarrow> data \<Rightarrow> sql_error + data" where
  "check_write T t touched d =
     (if \<not> list_all (nulls_ok T) touched then Inl Not_Null_Violation
      else case find (\<lambda>(_, k). \<not> enforced d t touched k) (t_cons T) of
        Some (_, k) \<Rightarrow> Inl (error_of k)
      | None \<Rightarrow> if list_all (index_holds d t) (t_idx T) then Inr d else Inl Unique_Violation)"

definition touch :: "tbl \<Rightarrow> int \<Rightarrow> row \<Rightarrow> row" where
  \<comment> \<open>the trigger function \<open>set_updated_at\<close>, \<open>BEFORE UPDATE\<close>\<close>
  "touch T now r = (if \<exists>g \<in> set (t_trgs T). t_function g = ''set_updated_at'' then r(''updated_at'' := STime now) else r)"

definition defers :: "tbl \<Rightarrow> (string list) option \<Rightarrow> bool" where
  \<comment> \<open>does an \<open>INSERT\<close> (\<open>None\<close>) or an \<open>UPDATE\<close> of these columns queue a deferred event?\<close>
  "defers T cs \<longleftrightarrow>
     (\<exists>(_, k) \<in> set (t_cons T). case k of Foreign_Key x _ _ _ True \<Rightarrow> (case cs of None \<Rightarrow> True | Some xs \<Rightarrow> x \<in> set xs) | _ \<Rightarrow> False) \<or>
     (\<exists>g \<in> set (t_trgs T). t_deferred g \<and> (case cs of None \<Rightarrow> True
        | Some xs \<Rightarrow> t_columns g = [] \<or> (\<exists>x \<in> set xs. x \<in> set (t_columns g))))"

definition queue :: "bool \<Rightarrow> string \<Rightarrow> data \<Rightarrow> data" where
  "queue b t d = (if b then d\<lparr>pending := List.insert t (pending d)\<rparr> else d)"

definition set_rows :: "string \<Rightarrow> row list \<Rightarrow> data \<Rightarrow> data" where
  "set_rows t rs d = d\<lparr>rows := (rows d)(t := rs)\<rparr>"

fun fold_err :: "('b \<Rightarrow> 'a \<Rightarrow> 'e + 'a) \<Rightarrow> 'b list \<Rightarrow> 'a \<Rightarrow> 'e + 'a" where
  "fold_err f [] a = Inr a"
| "fold_err f (b # bs) a = andthen (f b a) (fold_err f bs)"

definition hits :: "row list \<Rightarrow> string \<Rightarrow> string \<Rightarrow> row \<Rightarrow> bool" where
  \<comment> \<open>a row whose column \<open>x\<close> refers to one of the rows \<open>gone\<close>\<close>
  "hits gone x rx r \<longleftrightarrow> list_ex (\<lambda>g. matches (r x) (g rx)) gone"

fun set_null_in :: "tbl option \<Rightarrow> int \<Rightarrow> string \<Rightarrow> row \<Rightarrow> row" where
  "set_null_in None now x r = r(x := SNull)"
| "set_null_in (Some T) now x r = touch T now (r(x := SNull))"

fun follow_key :: "(string \<Rightarrow> (row \<Rightarrow> bool) \<Rightarrow> data \<Rightarrow> sql_error + data) \<Rightarrow> catalog \<Rightarrow> row list
    \<Rightarrow> string \<times> string \<times> string \<times> fk_action \<Rightarrow> data \<Rightarrow> sql_error + data" where
  \<comment> \<open>the referential action of one foreign key when the rows \<open>gone\<close> are deleted\<close>
  "follow_key del c gone (t, x, rx, Cascade) d = del t (hits gone x rx) d"
| "follow_key del c gone (t, x, rx, Set_Null) d =
     Inr (set_rows t (map (\<lambda>r. if hits gone x rx r then set_null_in (map_of (tables c) t) (clock d) x r else r) (rows d t)) d)"
| "follow_key del c gone (t, x, rx, Restrict) d =
     (if list_ex (hits gone x rx) (rows d t) then Inl Foreign_Key_Violation else Inr d)"

primrec delete_rows :: "nat \<Rightarrow> catalog \<Rightarrow> string \<Rightarrow> (row \<Rightarrow> bool) \<Rightarrow> data \<Rightarrow> sql_error + data" where
  \<comment> \<open>\<open>DELETE\<close> with its referential actions, nested at most to the depth given\<close>
  "delete_rows 0 c t p d = Inl Stack_Depth"
| "delete_rows (Suc n) c t p d =
     (if filter p (rows d t) = [] then Inr d
      else fold_err (follow_key (delete_rows n c) c (filter p (rows d t))) (references c t)
        (set_rows t (filter (\<lambda>r. \<not> p r) (rows d t)) d))"

definition default_value :: "data \<Rightarrow> string \<Rightarrow> column \<Rightarrow> sqlval" where
  "default_value d t k = (case c_default k of No_Default \<Rightarrow> SNull | Serial \<Rightarrow> SNum (serial d t)
     | Now \<Rightarrow> STime (clock d) | Literal v \<Rightarrow> v)"

definition insert_row :: "tbl \<Rightarrow> string \<Rightarrow> string list \<Rightarrow> (string \<times> sqlval) list \<Rightarrow> data \<Rightarrow> sql_error + data" where
  "insert_row T t key vs d =
     (let r = (\<lambda>x. case map_of vs x of Some v \<Rightarrow> v | None \<Rightarrow>
            (case find (\<lambda>k. c_name k = x) (t_cols T) of None \<Rightarrow> SNull | Some k \<Rightarrow> default_value d t k));
        d1 = (if \<exists>k \<in> set (t_cols T). c_default k = Serial \<and> map_of vs (c_name k) = None
              then d\<lparr>serial := (serial d)(t := serial d t + 1)\<rparr> else d) in
      if \<not> nulls_ok T r then Inl Not_Null_Violation
      else if key \<noteq> [] \<and> list_ex (\<lambda>q. \<forall>x \<in> set key. matches (q x) (r x)) (rows d t) then Inr d1
      else check_write T t [r] (queue (defers T None) t (set_rows t (rows d t @ [r]) d1)))"

definition with_table :: "catalog \<Rightarrow> string \<Rightarrow> (tbl \<Rightarrow> sql_error + 'a) \<Rightarrow> sql_error + 'a" where
  "with_table c t f = (case map_of (tables c) t of None \<Rightarrow> Inl Undefined_Table | Some T \<Rightarrow> f T)"

definition altering :: "string \<Rightarrow> data \<Rightarrow> sql_error + data \<Rightarrow> sql_error + data" where
  \<comment> \<open>\<open>ALTER TABLE\<close> and \<open>DROP TABLE\<close> refuse a table with pending trigger events\<close>
  "altering t d m = (if t \<in> set (pending d) then Inl Pending_Events else m)"

fun data_step :: "catalog \<Rightarrow> stmt \<Rightarrow> data \<Rightarrow> sql_error + data" where
  "data_step c (Create_Table ine t cols cons) d =
     Inr (if t \<in> set (relation_names c) then d else (set_rows t [] d)\<lparr>serial := (serial d)(t := 1)\<rparr>)"
| "data_step c (Drop_Table ie t) d = altering t d (Inr (set_rows t [] d))"
| "data_step c (Add_Column t ine k cons) d = with_table c t (\<lambda>T. altering t d
     (if c_name k \<in> set (col_names T) then Inr d
      else let v = default_value d t k;
               d' = set_rows t (map (\<lambda>r. r(c_name k := v)) (rows d t)) d in
        if \<not> c_nullable k \<and> v = SNull \<and> rows d t \<noteq> [] then Inl Not_Null_Violation
        else case find (\<lambda>(_, f). \<not> constr_holds d' t f) cons of Some (_, f) \<Rightarrow> Inl (error_of f) | None \<Rightarrow> Inr d'))"
| "data_step c (Drop_Column t ie x) d = altering t d (Inr (set_rows t (map (\<lambda>r. r(x := SNull)) (rows d t)) d))"
| "data_step c (Set_Nullable t x b) d = altering t d
     (if b \<or> list_all (\<lambda>r. r x \<noteq> SNull) (rows d t) then Inr d else Inl Not_Null_Violation)"
| "data_step c (Set_Default t x v) d = altering t d (Inr d)"
| "data_step c (Add_Constraint t ine n k) d = altering t d
     (if ine \<and> constraint_exists n (tables c) \<or> constr_holds d t k then Inr d
      else Inl (error_of k))"
| "data_step c (Drop_Constraint t ie n) d = altering t d (Inr d)"
| "data_step c (Create_Index ine t i) d =
     (if i_name i \<in> set (relation_names c) \<or> index_holds d t i then Inr d else Inl Unique_Violation)"
| "data_step c (Drop_Index ie n) d = Inr d"
| "data_step c (Create_Function f) d = Inr d"
| "data_step c (Drop_Function ie casc f) d = Inr d"
| "data_step c (Create_Trigger ine t g) d = Inr d"
| "data_step c (Drop_Trigger ie t n) d = Inr d"
| "data_step c (Update t cs p f) d = with_table c t (\<lambda>T.
     let new = (\<lambda>r. touch T (clock d) (f d r));
         d' = queue (defers T (Some cs) \<and> list_ex (p d) (rows d t)) t
                (set_rows t (map (\<lambda>r. if p d r then new r else r) (rows d t)) d) in
     if list_ex (\<lambda>(t', x, rx, _). rx \<in> set cs \<and> \<not> constr_holds d' t' (Foreign_Key x t rx Restrict False)) (references c t)
     then Inl Foreign_Key_Violation
     else check_write T t (map new (filter (p d) (rows d t))) d')"
| "data_step c (Delete t p) d = delete_rows (Suc (length (tables c))) c t (p d) d"
| "data_step c (Insert t vs key) d = with_table c t (\<lambda>T. fold_err (insert_row T t key) (vs d) d)"
| "data_step c Set_Constraints_Immediate d =
     (if list_all (\<lambda>(t, k). constr_holds d t k) (deferred_fkeys (tables c))
      then Inr (d\<lparr>pending := []\<rparr>) else Inl Foreign_Key_Violation)"
| "data_step c (Assert_Row t p m) d = (if list_ex (p d) (rows d t) then Inr d else Inl (Runtime_Error m))"
| "data_step c (Raise m) d = Inl (Runtime_Error m)"

section \<open>Running statements\<close>

type_synonym pg = "catalog \<times> data"

definition exec1 :: "stmt \<Rightarrow> pg \<Rightarrow> sql_error + pg" where
  "exec1 s = (\<lambda>(c, d). andthen (cat_step s c) (\<lambda>c'. andthen (data_step c s d) (\<lambda>d'. Inr (c', d'))))"

fun exec :: "stmt list \<Rightarrow> pg \<Rightarrow> sql_error + pg" where
  "exec [] g = Inr g"
| "exec (s # ss) g = andthen (exec1 s g) (exec ss)"

definition empty_pg :: pg where
  "empty_pg = (empty_catalog, empty_data)"

fun serial_below :: "int \<Rightarrow> sqlval \<Rightarrow> bool" where
  "serial_below n (SNum m) = (m < n)"
| "serial_below n _ = False"

lemma serial_below_iff: "serial_below n v \<longleftrightarrow> (\<exists>m. v = SNum m \<and> m < n)"
  by (cases v) auto

definition consistent :: "pg \<Rightarrow> bool" where
  \<comment> \<open>every row satisfies the catalog, serial numbers are fresh, nothing is queued\<close>
  "consistent g = (case g of (c, d) \<Rightarrow> pending d = [] \<and>
     (\<forall>(t, T) \<in> set (tables c).
        (\<forall>r \<in> set (rows d t). nulls_ok T r) \<and>
        (\<forall>(n, k) \<in> set (t_cons T). constr_holds d t k) \<and>
        (\<forall>i \<in> set (t_idx T). index_holds d t i) \<and>
        (\<forall>k \<in> set (t_cols T). c_default k = Serial \<longrightarrow>
            (\<forall>r \<in> set (rows d t). serial_below (serial d t) (r (c_name k))))))"

lemma andthen_simps [simp]:
  "andthen (Inr x) f = f x" "andthen (Inl e) f = Inl e"
  by (simp_all add: andthen_def)

lemma andthen_Inr_iff: "andthen m f = Inr y \<longleftrightarrow> (\<exists>x. m = Inr x \<and> f x = Inr y)"
  by (cases m) auto

lemma andthen_Inl_iff: "andthen m f = Inl e \<longleftrightarrow> m = Inl e \<or> (\<exists>x. m = Inr x \<and> f x = Inl e)"
  by (cases m) auto

lemma andthen_assoc: "andthen (andthen m f) g = andthen m (\<lambda>x. andthen (f x) g)"
  by (cases m) auto

lemma exec_append: "exec (ss @ ss') g = andthen (exec ss g) (exec ss')"
  by (induction ss arbitrary: g) (auto simp: andthen_def split: sum.splits)

lemma cat_steps_append: "cat_steps (ss @ ss') c = andthen (cat_steps ss c) (cat_steps ss')"
  by (induction ss arbitrary: c) (auto simp: andthen_def split: sum.splits)

lemma exec_catalog:
  \<comment> \<open>the catalog a run leaves does not depend on the rows\<close>
  "exec ss (c, d) = Inr (c', d') \<Longrightarrow> cat_steps ss c = Inr c'"
proof (induction ss arbitrary: c d)
  case (Cons s ss)
  then obtain c1 d1 where "cat_step s c = Inr c1" "exec ss (c1, d1) = Inr (c', d')"
    by (auto simp: exec1_def andthen_Inr_iff)
  with Cons.IH show ?case by simp
qed simp

section \<open>What a cascading delete leaves alone\<close>

definition untouched :: "string set \<Rightarrow> data \<Rightarrow> data \<Rightarrow> bool" where
  "untouched S d d' \<longleftrightarrow> serial d' = serial d \<and> clock d' = clock d \<and> pending d' = pending d \<and>
     (\<forall>t. t \<notin> S \<longrightarrow> rows d' t = rows d t)"

lemma untouched_refl [intro, simp]: "untouched S d d"
  by (simp add: untouched_def)

lemma untouched_trans: "untouched S d1 d2 \<Longrightarrow> untouched S d2 d3 \<Longrightarrow> untouched S d1 d3"
  by (simp add: untouched_def)

lemma untouched_mono: "untouched S d d' \<Longrightarrow> S \<subseteq> S' \<Longrightarrow> untouched S' d d'"
  by (auto simp: untouched_def)

lemma untouched_rows: "untouched S d d' \<Longrightarrow> t \<notin> S \<Longrightarrow> rows d' t = rows d t"
  by (simp add: untouched_def)

lemma set_rows_simps [simp]:
  "rows (set_rows t rs d) = (rows d)(t := rs)" "serial (set_rows t rs d) = serial d"
  "clock (set_rows t rs d) = clock d" "pending (set_rows t rs d) = pending d"
  by (simp_all add: set_rows_def)

lemma set_rows_same [simp]: "set_rows t (rows d t) d = d"
  by (simp add: set_rows_def)

lemma untouched_set_rows [simp]: "t \<in> S \<Longrightarrow> untouched S d (set_rows t rs d)"
  by (auto simp: untouched_def)

lemma fold_err_rel:
  assumes "\<And>b a. b \<in> set bs \<Longrightarrow> \<exists>a'. f b a = Inr a' \<and> R a a'"
    and "\<And>a. R a a" and "\<And>a b c. R a b \<Longrightarrow> R b c \<Longrightarrow> R a c"
  shows "\<exists>a'. fold_err f bs a = Inr a' \<and> R a a'"
  using assms(1)
proof (induction bs arbitrary: a)
  case Nil
  then show ?case using assms(2) by simp
next
  case (Cons b bs)
  from Cons.prems obtain a1 where a1: "f b a = Inr a1" "R a a1" by (metis list.set_intros(1))
  from Cons obtain a2 where "fold_err f bs a1 = Inr a2" "R a1 a2" by (metis list.set_intros(2))
  with a1 assms(3) show ?case by auto
qed

primrec cascades :: "nat \<Rightarrow> catalog \<Rightarrow> string \<Rightarrow> bool" where
  \<comment> \<open>below \<open>t\<close> there are only \<open>ON DELETE CASCADE\<close> keys, nested less than \<open>n\<close> deep\<close>
  "cascades 0 c t = False"
| "cascades (Suc n) c t = list_all (\<lambda>(t', x, rx, act). act = Cascade \<and> cascades n c t') (references c t)"

primrec below :: "nat \<Rightarrow> catalog \<Rightarrow> string \<Rightarrow> string set" where
  \<comment> \<open>the tables a delete from \<open>t\<close> can reach, \<open>t\<close> included\<close>
  "below 0 c t = {}"
| "below (Suc n) c t = insert t (\<Union>(t', x, rx, act) \<in> set (references c t). below n c t')"

definition below_keys :: "nat \<Rightarrow> catalog \<Rightarrow> (string \<times> string \<times> string \<times> fk_action) list \<Rightarrow> string set" where
  "below_keys n c ks = (\<Union>(t', x, rx, act) \<in> set ks. below n c t')"

lemma below_keys_simps [simp]:
  "below_keys n c [] = {}" "below_keys n c ((t, x, rx, act) # ks) = below n c t \<union> below_keys n c ks"
  by (auto simp: below_keys_def)

lemma below_Suc: "below (Suc n) c t = insert t (below_keys n c (references c t))"
  by (simp add: below_keys_def)

lemma follow_keys_cascade:
  assumes IH: "\<And>t p d. cascades n c t \<Longrightarrow> \<exists>d'. delete_rows n c t p d = Inr d' \<and> untouched (below n c t) d d'"
    and "list_all (\<lambda>(t', x, rx, act). act = Cascade \<and> cascades n c t') ks"
  shows "\<exists>d'. fold_err (follow_key (delete_rows n c) c gone) ks d = Inr d' \<and> untouched (below_keys n c ks) d d'"
proof (rule fold_err_rel)
  fix b a assume b: "b \<in> set ks"
  obtain t' x rx act where b_eq: "b = (t', x, rx, act)" by (cases b)
  with b assms(2) have act: "act = Cascade" and "cascades n c t'" by (auto simp: list_all_iff)
  from IH [OF this(2), of "hits gone x rx" a] obtain a' where
    a': "delete_rows n c t' (hits gone x rx) a = Inr a'" "untouched (below n c t') a a'" by blast
  moreover have "below n c t' \<subseteq> below_keys n c ks" using b by (auto simp: b_eq below_keys_def)
  ultimately show "\<exists>a'. follow_key (delete_rows n c) c gone b a = Inr a' \<and> untouched (below_keys n c ks) a a'"
    by (auto simp: b_eq act intro: untouched_mono)
qed (auto intro: untouched_trans)

lemma delete_rows_none: "filter p (rows d t) = [] \<Longrightarrow> delete_rows (Suc n) c t p d = Inr d"
  by simp

lemma delete_rows_some: "filter p (rows d t) \<noteq> [] \<Longrightarrow> delete_rows (Suc n) c t p d =
    fold_err (follow_key (delete_rows n c) c (filter p (rows d t))) (references c t)
      (set_rows t (filter (\<lambda>r. \<not> p r) (rows d t)) d)"
  by simp

lemma filter_not_none: "filter p xs = [] \<Longrightarrow> filter (\<lambda>r. \<not> p r) xs = xs"
  by (simp add: filter_empty_conv filter_id_conv)

lemma delete_rows_cascades:
  "cascades n c t \<Longrightarrow> \<exists>d'. delete_rows n c t p d = Inr d' \<and> untouched (below n c t) d d'"
proof (induction n arbitrary: t p d)
  case (Suc n)
  show ?case
  proof (cases "filter p (rows d t) = []")
    case True
    then show ?thesis by (intro exI [of _ d] conjI delete_rows_none untouched_refl)
  next
    case False
    let ?d1 = "set_rows t (filter (\<lambda>r. \<not> p r) (rows d t)) d"
    obtain d' where d': "delete_rows (Suc n) c t p d = Inr d'" "untouched (below_keys n c (references c t)) ?d1 d'"
      unfolding delete_rows_some [OF False]
      using follow_keys_cascade [OF Suc.IH, of "references c t"] Suc.prems by fastforce
    have "untouched (below (Suc n) c t) d ?d1" by (simp add: below_Suc)
    moreover have "untouched (below (Suc n) c t) ?d1 d'"
      by (rule untouched_mono [OF d'(2)]) (auto simp: below_Suc simp del: below.simps)
    ultimately show ?thesis using d'(1) untouched_trans by blast
  qed
qed simp

lemma delete_rows_own:
  \<comment> \<open>no cascade comes back to \<open>t\<close>: its rows are exactly those the condition spares\<close>
  assumes "cascades (Suc n) c t" and "t \<notin> below_keys n c (references c t)"
  obtains d' where "delete_rows (Suc n) c t p d = Inr d'" "untouched (below (Suc n) c t) d d'"
    "rows d' t = filter (\<lambda>r. \<not> p r) (rows d t)"
proof (cases "filter p (rows d t) = []")
  case True
  then show ?thesis using that [OF delete_rows_none [OF True] untouched_refl] by (simp add: filter_not_none)
next
  case False
  let ?d1 = "set_rows t (filter (\<lambda>r. \<not> p r) (rows d t)) d"
  obtain d' where d': "delete_rows (Suc n) c t p d = Inr d'" "untouched (below_keys n c (references c t)) ?d1 d'"
    unfolding delete_rows_some [OF False]
    using follow_keys_cascade [OF delete_rows_cascades, of n c "references c t" "filter p (rows d t)" ?d1] assms(1) by auto
  have "rows d' t = filter (\<lambda>r. \<not> p r) (rows d t)"
    using untouched_rows [OF d'(2) assms(2)] by simp
  moreover have "untouched (below (Suc n) c t) d d'"
    using delete_rows_cascades [OF assms(1), of p d] d'(1) by auto
  ultimately show ?thesis using that d'(1) by blast
qed

section \<open>Runs on rows\<close>

lemma exec_Cons: "cat_step s c = Inr c' \<Longrightarrow> data_step c s d = Inr d' \<Longrightarrow> exec (s # ss) (c, d) = exec ss (c', d')"
  by (simp add: exec1_def)

fun is_drop :: "stmt \<Rightarrow> bool" where
  "is_drop (Drop_Table ie t) = True"
| "is_drop (Drop_Column t ie x) = True"
| "is_drop (Drop_Index ie n) = True"
| "is_drop s = False"

fun drop_effect :: "stmt \<Rightarrow> data \<Rightarrow> data" where
  "drop_effect (Drop_Table ie t) d = set_rows t [] d"
| "drop_effect (Drop_Column t ie x) d = set_rows t (map (\<lambda>r. r(x := SNull)) (rows d t)) d"
| "drop_effect s d = d"

lemma drop_step: "is_drop s \<Longrightarrow> pending d = [] \<Longrightarrow> data_step c s d = Inr (drop_effect s d) \<and> pending (drop_effect s d) = []"
  by (cases s) (simp_all add: altering_def)

lemma exec_drops:
  \<comment> \<open>with nothing pending, dropping never fails on the data\<close>
  "list_all is_drop ss \<Longrightarrow> pending d = [] \<Longrightarrow> cat_steps ss c = Inr c' \<Longrightarrow> exec ss (c, d) = Inr (c', fold drop_effect ss d)"
proof (induction ss arbitrary: c d)
  case (Cons s ss)
  from Cons.prems(3) obtain c1 where "cat_step s c = Inr c1" "cat_steps ss c1 = Inr c'"
    by (auto simp: andthen_Inr_iff)
  with Cons drop_step [of s d c] show ?case by (simp add: exec_Cons del: exec.simps(2))
qed simp

definition blank :: "data \<Rightarrow> bool" where
  "blank d \<longleftrightarrow> rows d = (\<lambda>_. []) \<and> pending d = []"

definition needs_no_rows :: "stmt \<Rightarrow> bool" where
  \<comment> \<open>statements that cannot fail, and write nothing, while there are no rows\<close>
  "needs_no_rows s \<longleftrightarrow> (case s of Insert t vs key \<Rightarrow> \<forall>d. blank d \<longrightarrow> vs d = [] | Assert_Row t p m \<Rightarrow> False
     | Raise m \<Rightarrow> False | _ \<Rightarrow> True)"

lemma blank_rows: "blank d \<Longrightarrow> rows d t = []"
  by (simp add: blank_def)

lemma blank_set_rows: "blank d \<Longrightarrow> blank (set_rows t [] d)"
  by (auto simp: blank_def fun_eq_iff)

lemma blank_constr_holds: "rows d t = [] \<Longrightarrow> constr_holds d t k"
  by (cases k) (simp_all add: constr_holds_def keys_distinct_def)

lemma blank_index_holds: "rows d t = [] \<Longrightarrow> index_holds d t i"
  by (simp add: index_holds_def keys_distinct_def)

lemma blank_enforced: "rows d t = [] \<Longrightarrow> enforced d t [] k"
  by (cases k) (simp_all add: enforced_def blank_constr_holds)

lemma blank_check_write: "rows d t = [] \<Longrightarrow> check_write T t [] d = Inr d"
proof -
  assume "rows d t = []"
  then have "find (\<lambda>(_, k). \<not> enforced d t [] k) (t_cons T) = None"
    by (auto simp: find_None_iff blank_enforced)
  then show ?thesis using \<open>rows d t = []\<close> by (simp add: check_write_def list_all_iff blank_index_holds)
qed

lemma on_table_found: "on_table f t c = Inr c' \<Longrightarrow> \<exists>T. map_of (tables c) t = Some T"
  by (cases "map_of (tables c) t") (simp_all add: on_table_def)

lemma find_never: "find (\<lambda>(n, k). False) ks = None"
  by (auto simp: find_None_iff)

lemma blank_step:
  assumes "cat_step s c = Inr c'" and b: "blank d" and "needs_no_rows s"
  shows "\<exists>d'. data_step c s d = Inr d' \<and> blank d'"
proof -
  have p: "pending d = []" and r: "\<And>t. rows d t = []" using b by (simp_all add: blank_def)
  have s: "set_rows t [] d = d" for t using r by (simp add: set_rows_def fun_upd_idem)
  show ?thesis
    using assms(1,3) b
    by (cases s) (auto simp: altering_def with_table_def needs_no_rows_def p r s queue_def blank_constr_holds blank_index_holds
        list_all_iff list_ex_iff Let_def find_never blank_check_write dest!: on_table_found,
      auto simp: blank_def)
qed

lemma exec_blank:
  "list_all needs_no_rows ss \<Longrightarrow> cat_steps ss c = Inr c' \<Longrightarrow> blank d \<Longrightarrow> \<exists>d'. exec ss (c, d) = Inr (c', d') \<and> blank d'"
proof (induction ss arbitrary: c d)
  case (Cons s ss)
  from Cons.prems(2) obtain c1 where c1: "cat_step s c = Inr c1" "cat_steps ss c1 = Inr c'"
    by (auto simp: andthen_Inr_iff)
  moreover obtain d1 where "data_step c s d = Inr d1" "blank d1"
    using blank_step [OF c1(1) Cons.prems(3)] Cons.prems(1) by auto
  ultimately show ?case using Cons by (simp add: exec_Cons del: exec.simps(2))
qed simp

section \<open>Consistent databases\<close>

lemma consistent_pending: "consistent (c, d) \<Longrightarrow> pending d = []"
  by (simp add: consistent_def)

lemma consistent_table:
  assumes "consistent (c, d)" and "map_of (tables c) t = Some T"
  shows "\<And>r. r \<in> set (rows d t) \<Longrightarrow> nulls_ok T r" "\<And>n k. (n, k) \<in> set (t_cons T) \<Longrightarrow> constr_holds d t k"
    "\<And>k r. k \<in> set (t_cols T) \<Longrightarrow> c_default k = Serial \<Longrightarrow> r \<in> set (rows d t) \<Longrightarrow> \<exists>n. r (c_name k) = SNum n \<and> n < serial d t"
  using assms(1) map_of_SomeD [OF assms(2)] unfolding consistent_def serial_below_iff by fastforce+

definition table_consistent :: "data \<Rightarrow> string \<Rightarrow> tbl \<Rightarrow> bool" where
  "table_consistent d t T \<longleftrightarrow>
     (\<forall>r \<in> set (rows d t). nulls_ok T r) \<and> (\<forall>(n, k) \<in> set (t_cons T). constr_holds d t k) \<and>
     (\<forall>i \<in> set (t_idx T). index_holds d t i) \<and>
     (\<forall>k \<in> set (t_cols T). c_default k = Serial \<longrightarrow> (\<forall>r \<in> set (rows d t). serial_below (serial d t) (r (c_name k))))"

lemma consistent_from_tables:
  \<comment> \<open>only the tables with rows have to be looked at\<close>
  assumes "pending d = []" and "distinct (map fst (tables c))"
    and "\<And>t T. rows d t \<noteq> [] \<Longrightarrow> map_of (tables c) t = Some T \<Longrightarrow> table_consistent d t T"
  shows "consistent (c, d)"
proof -
  have "table_consistent d t T" if "(t, T) \<in> set (tables c)" for t T
  proof (cases "rows d t = []")
    case True
    then show ?thesis by (auto simp: table_consistent_def blank_constr_holds blank_index_holds)
  next
    case False
    then show ?thesis using assms(2,3) that by (simp add: map_of_eq_Some_iff)
  qed
  then show ?thesis using assms(1) unfolding consistent_def table_consistent_def by fastforce
qed

lemma blank_consistent: "blank d \<Longrightarrow> consistent (c, d)"
  by (auto simp: consistent_def blank_def blank_constr_holds blank_index_holds)

lemma keys_distinct_single:
  "\<forall>r \<in> set rs. r x \<noteq> SNull \<Longrightarrow> keys_distinct (\<lambda>r. map r [x]) rs \<longleftrightarrow> distinct (map (\<lambda>r. r x) rs)"
proof -
  assume nn: "\<forall>r \<in> set rs. r x \<noteq> SNull"
  have "filter (\<lambda>k. SNull \<notin> set k) (map (\<lambda>r. map r [x]) rs) = map (\<lambda>v. [v]) (map (\<lambda>r. r x) rs)"
    using nn by (induction rs) auto
  then show ?thesis unfolding keys_distinct_def by (simp add: distinct_map inj_on_def)
qed

lemma keys_distinct_pair:
  \<comment> \<open>rows that differ in the second column differ in the pair\<close>
  assumes "distinct (map (\<lambda>r. r y) rs)"
  shows "keys_distinct (\<lambda>r. map r [x, y]) rs"
proof -
  have "distinct (map (\<lambda>r. [r x, r y]) rs)"
    using assms by (auto simp: distinct_map inj_on_def)
  then show ?thesis by (simp add: keys_distinct_def)
qed

lemma nulls_ok_upd: "nulls_ok T r \<Longrightarrow> v \<noteq> SNull \<Longrightarrow> nulls_ok T (r(x := v))"
  by (auto simp: nulls_ok_def list_all_iff)

lemma passes_upd: "x \<notin> set (cols_of e) \<Longrightarrow> passes (r(x := v)) e \<longleftrightarrow> passes r e"
  unfolding passes_def by (subst eval_cong [of e "r(x := v)" r]) auto

end
