(* ===== verification/Initial_Schema.thy ===== *)
theory Initial_Schema
  imports Sql
begin

text \<open>
  Revisions 001 to 003 of \<open>migrations/versions/\<close>: the seven tables of the first schema with the trigger function
  \<open>set_updated_at\<close>, the lower-case rule on user names, and the tag tables. A \<open>migration\<close> holds the
  module's \<open>revision\<close> and \<open>down_revision\<close> and the statements of its \<open>upgrade()\<close> and \<open>downgrade()\<close>. Constraints the
  source leaves unnamed carry the name PostgreSQL gives them (\<open>t_pkey\<close>, \<open>t_col_fkey\<close>, \<open>t_col_key\<close>).
\<close>

record migration =
  revision :: string
  down_revision :: "string option"
  upgrade :: "stmt list"
  downgrade :: "stmt list"

section \<open>Column and constraint forms\<close>

definition opt :: "string \<Rightarrow> coltype \<Rightarrow> column" where
  "opt n ty = \<lparr>c_name = n, c_type = ty, c_nullable = True, c_default = No_Default\<rparr>"

definition req :: "string \<Rightarrow> coltype \<Rightarrow> column" where
  "req n ty = \<lparr>c_name = n, c_type = ty, c_nullable = False, c_default = No_Default\<rparr>"

definition dflt :: "string \<Rightarrow> coltype \<Rightarrow> coldefault \<Rightarrow> column" where
  \<comment> \<open>\<open>NOT NULL\<close> with a server default\<close>
  "dflt n ty v = \<lparr>c_name = n, c_type = ty, c_nullable = False, c_default = v\<rparr>"

abbreviation flag :: "string \<Rightarrow> bool \<Rightarrow> column" where
  "flag n b \<equiv> dflt n Boolean (Literal (SBool b))"

abbreviation stamp :: "string \<Rightarrow> column" where
  "stamp n \<equiv> dflt n Timestamptz Now"

abbreviation serial_id :: column where
  "serial_id \<equiv> dflt ''id'' Big_Int Serial"

definition pkey :: "string \<Rightarrow> string list \<Rightarrow> string \<times> constr" where
  "pkey t cs = (t @ ''_pkey'', Primary_Key cs)"

definition fkey :: "string \<Rightarrow> string \<Rightarrow> string \<Rightarrow> fk_action \<Rightarrow> string \<times> constr" where
  "fkey t x rt act = (t @ ''_'' @ x @ ''_fkey'', Foreign_Key x rt ''id'' act False)"

definition ukey :: "string \<Rightarrow> string \<Rightarrow> string \<times> constr" where
  "ukey t x = (t @ ''_'' @ x @ ''_key'', Unique [x])"

definition ix :: "string \<Rightarrow> string list \<Rightarrow> index" where
  "ix n cs = \<lparr>i_name = n, i_keys = map (Asc \<circ> Col) cs, i_unique = False, i_where = None\<rparr>"

definition ix_where :: "string \<Rightarrow> string list \<Rightarrow> sqlexp \<Rightarrow> index" where
  "ix_where n cs e = \<lparr>i_name = n, i_keys = map (Asc \<circ> Col) cs, i_unique = False, i_where = Some e\<rparr>"

definition updated_at_trigger :: "string \<Rightarrow> trigger" where
  "updated_at_trigger n = \<lparr>t_name = n, t_columns = [], t_deferred = False, t_function = ''set_updated_at''\<rparr>"

abbreviation is_true :: "string \<Rightarrow> sqlexp" where
  "is_true x \<equiv> Equals (Col x) (Const (SBool True))"

abbreviation length_between :: "string \<Rightarrow> int \<Rightarrow> int \<Rightarrow> sqlexp" where
  "length_between x lo hi \<equiv> Between (Char_Length (Col x)) lo hi"

section \<open>20260505\_001: initial schema\<close>

definition create_users :: "stmt list" where
  "create_users = [
     Create_Table False ''users'' [
       serial_id,
       req ''username'' Txt,
       opt ''email'' Txt,
       opt ''password_hash'' (Varchar 255),
       flag ''is_admin'' False,
       flag ''password_reset_required'' True,
       opt ''lockout_until'' Timestamptz,
       dflt ''failed_login_attempts'' Int4 (Literal (SNum 0)),
       opt ''last_login_at'' Timestamptz,
       stamp ''created_at'',
       stamp ''updated_at'']
      [pkey ''users'' [''id''], (''uq_users_username'', Unique [''username''])],
     Create_Index False ''users'' (ix_where ''ix_users_is_admin_partial'' [''is_admin''] (is_true ''is_admin'')),
     Create_Trigger False ''users'' (updated_at_trigger ''trg_users_updated_at'')]"

definition create_mail_accounts :: "stmt list" where
  "create_mail_accounts = [
     Create_Table False ''mail_accounts'' [
       serial_id,
       req ''user_id'' Big_Int,
       req ''email'' Txt,
       req ''encrypted_password'' Bytea,
       req ''imap_host'' Txt,
       dflt ''imap_port'' Int4 (Literal (SNum 993)),
       flag ''imap_ssl'' True,
       req ''smtp_host'' Txt,
       dflt ''smtp_port'' Int4 (Literal (SNum 465)),
       flag ''smtp_ssl'' True,
       flag ''smtp_starttls'' False,
       opt ''smtp_username'' Txt,
       opt ''smtp_encrypted_password'' Bytea,
       flag ''is_active'' True,
       opt ''last_synced_uidnext'' Big_Int,
       opt ''last_uidvalidity'' Big_Int,
       opt ''last_synced_at'' Timestamptz,
       opt ''last_sync_error'' Txt,
       dflt ''consecutive_failures'' Int4 (Literal (SNum 0)),
       stamp ''created_at'',
       stamp ''updated_at'']
      [pkey ''mail_accounts'' [''id''],
       fkey ''mail_accounts'' ''user_id'' ''users'' Cascade,
       (''ck_mail_accounts_imap_port'', Check (Between (Col ''imap_port'') 1 65535)),
       (''ck_mail_accounts_smtp_port'', Check (Between (Col ''smtp_port'') 1 65535)),
       (''ck_mail_accounts_smtp_ssl_xor'', Check (Neg (Conj (Col ''smtp_ssl'') (Col ''smtp_starttls'')))),
       (''uq_mail_accounts_user_email'', Unique [''user_id'', ''email''])],
     Create_Index False ''mail_accounts'' (ix ''ix_mail_accounts_user_id'' [''user_id'']),
     Create_Index False ''mail_accounts''
       (ix_where ''ix_mail_accounts_active_partial'' [''is_active''] (is_true ''is_active'')),
     Create_Trigger False ''mail_accounts'' (updated_at_trigger ''trg_mail_accounts_updated_at'')]"

definition create_messages :: "stmt list" where
  "create_messages = [
     Create_Table False ''messages'' [
       serial_id,
       req ''mail_account_id'' Big_Int,
       req ''uid'' Big_Int,
       req ''uidvalidity'' Big_Int,
       opt ''message_id_header'' Txt,
       req ''from_addr'' Txt,
       opt ''from_name'' Txt,
       dflt ''to_addrs'' Txt (Literal (sql_text '''')),
       opt ''cc_addrs'' Txt,
       opt ''subject'' Txt,
       req ''internal_date'' Timestamptz,
       dflt ''body_text'' Txt (Literal (sql_text '''')),
       flag ''body_truncated'' False,
       flag ''body_present'' True,
       flag ''is_read'' False,
       opt ''in_reply_to'' Txt,
       opt ''refs_header'' Txt,
       stamp ''fetched_at'']
      [pkey ''messages'' [''id''],
       fkey ''messages'' ''mail_account_id'' ''mail_accounts'' Cascade,
       (''uq_messages_account_uidv_uid'', Unique [''mail_account_id'', ''uidvalidity'', ''uid''])],
     Create_Index False ''messages'' \<lparr>i_name = ''ix_messages_account_internal_date_desc'',
       i_keys = [Asc (Col ''mail_account_id''), Desc (Col ''internal_date'')], i_unique = False, i_where = None\<rparr>,
     Create_Index False ''messages'' (ix_where ''ix_messages_unread_partial'' [''mail_account_id'', ''is_read'']
       (Equals (Col ''is_read'') (Const (SBool False)))),
     Create_Index False ''messages'' (ix ''ix_messages_internal_date'' [''internal_date''])]"

definition create_attachments :: "stmt list" where
  "create_attachments = [
     Create_Table False ''attachments'' [
       serial_id,
       req ''message_id'' Big_Int,
       req ''filename'' Txt,
       opt ''content_type'' Txt,
       req ''size_bytes'' Big_Int,
       req ''s3_key'' Txt,
       flag ''skipped_too_large'' False,
       stamp ''created_at'']
      [pkey ''attachments'' [''id''], fkey ''attachments'' ''message_id'' ''messages'' Cascade],
     Create_Index False ''attachments'' (ix ''ix_attachments_message_id'' [''message_id''])]"

definition create_sent_messages :: "stmt list" where
  "create_sent_messages = [
     Create_Table False ''sent_messages'' [
       serial_id,
       req ''user_id'' Big_Int,
       req ''from_account_id'' Big_Int,
       req ''to_addrs'' Txt,
       opt ''cc_addrs'' Txt,
       opt ''bcc_addrs'' Txt,
       opt ''subject'' Txt,
       req ''body_text'' Txt,
       opt ''in_reply_to'' Txt,
       opt ''refs_header'' Txt,
       req ''smtp_message_id'' Txt,
       flag ''appended_to_sent'' False,
       opt ''appended_error'' Txt,
       stamp ''sent_at'']
      [pkey ''sent_messages'' [''id''],
       fkey ''sent_messages'' ''user_id'' ''users'' Cascade,
       fkey ''sent_messages'' ''from_account_id'' ''mail_accounts'' Cascade],
     Create_Index False ''sent_messages'' \<lparr>i_name = ''ix_sent_messages_user_sent_at_desc'',
       i_keys = [Asc (Col ''user_id''), Desc (Col ''sent_at'')], i_unique = False, i_where = None\<rparr>,
     Create_Index False ''sent_messages'' (ix ''ix_sent_messages_from_account'' [''from_account_id'']),
     Create_Table False ''sent_attachments'' [
       serial_id,
       req ''sent_message_id'' Big_Int,
       req ''filename'' Txt,
       opt ''content_type'' Txt,
       req ''size_bytes'' Big_Int,
       req ''s3_key'' Txt,
       stamp ''created_at'']
      [pkey ''sent_attachments'' [''id''], fkey ''sent_attachments'' ''sent_message_id'' ''sent_messages'' Cascade]]"

definition create_admin_audit :: "stmt list" where
  "create_admin_audit = [
     Create_Table False ''admin_audit'' [
       serial_id,
       req ''actor_user_id'' Big_Int,
       req ''action'' Txt,
       opt ''target_user_id'' Big_Int,
       opt ''target_username'' Txt,
       opt ''details'' Jsonb,
       opt ''ip'' Txt,
       opt ''user_agent'' Txt,
       stamp ''created_at'']
      [pkey ''admin_audit'' [''id'']],
     Create_Index False ''admin_audit'' \<lparr>i_name = ''ix_admin_audit_created_at_desc'',
       i_keys = [Desc (Col ''created_at'')], i_unique = False, i_where = None\<rparr>,
     Create_Index False ''admin_audit'' \<lparr>i_name = ''ix_admin_audit_actor_created_desc'',
       i_keys = [Asc (Col ''actor_user_id''), Desc (Col ''created_at'')], i_unique = False, i_where = None\<rparr>,
     Create_Index False ''admin_audit'' (ix_where ''ix_admin_audit_target_user_partial'' [''target_user_id'']
       (Is_Not_Null (Col ''target_user_id'')))]"

definition downgrade_001 :: "stmt list" where
  "downgrade_001 = [
     Drop_Table False ''admin_audit'',
     Drop_Table False ''sent_attachments'',
     Drop_Table False ''sent_messages'',
     Drop_Table False ''attachments'',
     Drop_Table False ''messages'',
     Drop_Trigger True ''mail_accounts'' ''trg_mail_accounts_updated_at'',
     Drop_Table False ''mail_accounts'',
     Drop_Trigger True ''users'' ''trg_users_updated_at'',
     Drop_Table False ''users'',
     Drop_Function True False ''set_updated_at'']"

definition m001 :: migration where
  "m001 = \<lparr>revision = ''20260505_001'', down_revision = None,
     upgrade = Create_Function ''set_updated_at'' # create_users @ create_mail_accounts @ create_messages @
       create_attachments @ create_sent_messages @ create_admin_audit,
     downgrade = downgrade_001\<rparr>"

section \<open>20260505\_002: lower-case user names\<close>

definition m002 :: migration where
  "m002 = \<lparr>revision = ''20260505_002'', down_revision = Some ''20260505_001'',
     upgrade = [
       Update ''users'' [''username''] (sat (Differs (Col ''username'') (Lower (Col ''username''))))
         (\<lambda>d r. r(''username'' := eval r (Lower (Col ''username'')))),
       Add_Constraint ''users'' False ''ck_users_username_lower'' (Check (Equals (Col ''username'') (Lower (Col ''username''))))],
     downgrade = [Drop_Constraint ''users'' False ''ck_users_username_lower'']\<rparr>"

section \<open>20260507\_003: tags\<close>

definition create_tags :: "stmt list" where
  "create_tags = [
     Create_Table False ''tags'' [
       serial_id,
       req ''user_id'' Big_Int,
       req ''name'' Txt,
       req ''color'' Txt,
       flag ''is_builtin'' False,
       stamp ''created_at'',
       stamp ''updated_at'']
      [pkey ''tags'' [''id''],
       fkey ''tags'' ''user_id'' ''users'' Cascade,
       (''uq_tags_user_name'', Unique [''user_id'', ''name'']),
       (''ck_tags_name_length'', Check (length_between ''name'' 1 64)),
       (''ck_tags_color_hex'', Check (Hex_Colour (Col ''color'')))],
     Create_Index False ''tags'' (ix ''ix_tags_user_id'' [''user_id'']),
     Create_Trigger False ''tags'' (updated_at_trigger ''trg_tags_updated_at'')]"

definition create_tag_rules :: "stmt list" where
  "create_tag_rules = [
     Create_Table False ''tag_rules'' [
       serial_id,
       req ''tag_id'' Big_Int,
       req ''type'' Txt,
       req ''pattern'' Txt,
       stamp ''created_at'']
      [pkey ''tag_rules'' [''id''],
       fkey ''tag_rules'' ''tag_id'' ''tags'' Cascade,
       (''ck_tag_rules_type'', Check (One_Of (Col ''type'')
          [''subject_contains'', ''body_contains'', ''sender_contains'', ''sender_exact''])),
       (''ck_tag_rules_pattern_length'', Check (length_between ''pattern'' 1 256))],
     Create_Index False ''tag_rules'' (ix ''ix_tag_rules_tag_id'' [''tag_id''])]"

definition create_message_tags :: "stmt list" where
  "create_message_tags = [
     Create_Table False ''message_tags'' [
       req ''message_id'' Big_Int,
       req ''tag_id'' Big_Int,
       stamp ''created_at'']
      [fkey ''message_tags'' ''message_id'' ''messages'' Cascade,
       fkey ''message_tags'' ''tag_id'' ''tags'' Cascade,
       (''pk_message_tags'', Primary_Key [''message_id'', ''tag_id''])],
     Create_Index False ''message_tags'' (ix ''ix_message_tags_tag_message'' [''tag_id'', ''message_id''])]"

definition downgrade_003 :: "stmt list" where
  "downgrade_003 = [
     Drop_Index False ''ix_message_tags_tag_message'',
     Drop_Table False ''message_tags'',
     Drop_Index False ''ix_tag_rules_tag_id'',
     Drop_Table False ''tag_rules'',
     Drop_Trigger True ''tags'' ''trg_tags_updated_at'',
     Drop_Index False ''ix_tags_user_id'',
     Drop_Table False ''tags'']"

definition m003 :: migration where
  "m003 = \<lparr>revision = ''20260507_003'', down_revision = Some ''20260505_002'',
     upgrade = create_tags @ create_tag_rules @ create_message_tags, downgrade = downgrade_003\<rparr>"

end
