(* ===== verification/Feature_Migrations.thy ===== *)
theory Feature_Migrations
  imports Initial_Schema
begin

text \<open>
  Revisions 004 to 024 of \<open>migrations/versions/\<close>: groups and roles, Telegram, webhooks, tag match modes, OAuth columns,
  team membership, forwarding, global tags and the push outbox column. The data statements (\<open>UPDATE ... FROM\<close>,
  \<open>INSERT ... SELECT\<close>, the window function of revision 012) are functions of the rows.
\<close>

section \<open>20260508\_004: groups and roles\<close>

definition ck_display_name :: "sqlexp" where
  "ck_display_name = Disj (Is_Null (Col ''display_name'')) (length_between ''display_name'' 1 100)"

definition ck_role :: "sqlexp" where
  "ck_role = One_Of (Col ''role'') [''super_admin'', ''group_leader'', ''group_member'']"

abbreviation role_is :: "string \<Rightarrow> sqlexp" where
  "role_is s \<equiv> Equals (Col ''role'') (Const (sql_text s))"

definition create_groups :: "stmt list" where
  "create_groups = [
     Create_Table False ''groups'' [
       serial_id,
       req ''name'' Txt,
       req ''leader_user_id'' Big_Int,
       stamp ''created_at'',
       stamp ''updated_at'']
      [pkey ''groups'' [''id''],
       fkey ''groups'' ''leader_user_id'' ''users'' Restrict,
       (''uq_groups_leader_user_id'', Unique [''leader_user_id'']),
       (''ck_groups_name_length'', Check (length_between ''name'' 1 100))],
     Create_Index False ''groups'' (ix ''ix_groups_leader_user_id'' [''leader_user_id'']),
     Create_Trigger False ''groups'' (updated_at_trigger ''trg_groups_updated_at'')]"

definition users_roles :: "stmt list" where
  "users_roles = [
     Add_Column ''users'' False (opt ''role'' Txt) [],
     Add_Column ''users'' False (opt ''display_name'' Txt) [],
     Add_Column ''users'' False (opt ''group_id'' Big_Int)
       [(''users_group_id_fkey'', Foreign_Key ''group_id'' ''groups'' ''id'' Set_Null True)],
     Update ''users'' [''role''] (sat (is_true ''is_admin'')) (\<lambda>d r. r(''role'' := sql_text ''super_admin'')),
     Update ''users'' [''role''] (sat (Equals (Col ''is_admin'') (Const (SBool False))))
       (\<lambda>d r. r(''role'' := sql_text ''group_member'')),
     Set_Nullable ''users'' ''role'' False,
     Set_Default ''users'' ''role'' (Literal (sql_text ''group_member'')),
     Add_Constraint ''users'' False ''ck_users_role'' (Check ck_role),
     Add_Constraint ''users'' False ''ck_users_display_name_length'' (Check ck_display_name),
     Add_Constraint ''users'' False ''users_role_group_invariant'' (Check_Not_Valid
       (Disj (Disj (Conj (role_is ''super_admin'') (Is_Null (Col ''group_id'')))
                   (Conj (role_is ''group_leader'') (Is_Not_Null (Col ''group_id''))))
             (Conj (role_is ''group_member'') (Is_Not_Null (Col ''group_id''))))),
     Drop_Index False ''ix_users_is_admin_partial'',
     Drop_Column ''users'' False ''is_admin'',
     Create_Index False ''users'' (ix_where ''ix_users_role_super_admin_partial'' [''role''] (role_is ''super_admin'')),
     Create_Index False ''users'' (ix_where ''ix_users_group_id_partial'' [''group_id''] (Is_Not_Null (Col ''group_id'')))]"

definition leader_check_and_names :: "stmt list" where
  "leader_check_and_names = [
     Create_Function ''check_group_leader_consistency'',
     Create_Trigger False ''users'' \<lparr>t_name = ''trg_users_group_leader_consistency'', t_columns = [''role'', ''group_id''],
       t_deferred = True, t_function = ''check_group_leader_consistency''\<rparr>,
     Add_Column ''mail_accounts'' False (opt ''display_name'' Txt) [],
     Add_Constraint ''mail_accounts'' False ''ck_mail_accounts_display_name_length'' (Check ck_display_name)]"

definition downgrade_004 :: "stmt list" where
  "downgrade_004 = [
     Drop_Constraint ''mail_accounts'' False ''ck_mail_accounts_display_name_length'',
     Drop_Column ''mail_accounts'' False ''display_name'',
     Drop_Trigger True ''users'' ''trg_users_group_leader_consistency'',
     Drop_Function True False ''check_group_leader_consistency'',
     Drop_Index False ''ix_users_group_id_partial'',
     Drop_Index False ''ix_users_role_super_admin_partial'',
     Add_Column ''users'' False (flag ''is_admin'' False) [],
     Update ''users'' [''is_admin''] (\<lambda>d r. True) (\<lambda>d r. r(''is_admin'' := eval r (role_is ''super_admin''))),
     Create_Index False ''users'' (ix_where ''ix_users_is_admin_partial'' [''is_admin''] (is_true ''is_admin'')),
     Drop_Constraint ''users'' False ''users_role_group_invariant'',
     Drop_Constraint ''users'' False ''ck_users_display_name_length'',
     Drop_Constraint ''users'' False ''ck_users_role'',
     Drop_Column ''users'' False ''group_id'',
     Drop_Column ''users'' False ''display_name'',
     Drop_Column ''users'' False ''role'',
     Drop_Trigger True ''groups'' ''trg_groups_updated_at'',
     Drop_Index False ''ix_groups_leader_user_id'',
     Drop_Table False ''groups'']"

definition m004 :: migration where
  "m004 = \<lparr>revision = ''20260508_004'', down_revision = Some ''20260507_003'',
     upgrade = create_groups @ users_roles @ leader_check_and_names, downgrade = downgrade_004\<rparr>"

section \<open>005 to 009: loosening the group rules\<close>

definition m005 :: migration where
  "m005 = \<lparr>revision = ''20260508_005'', down_revision = Some ''20260508_004'',
     upgrade = [Drop_Constraint ''users'' True ''users_role_group_invariant''],
     downgrade = [Add_Constraint ''users'' False ''users_role_group_invariant'' (Check_Not_Valid
       (Disj (Conj (role_is ''super_admin'') (Is_Null (Col ''group_id'')))
             (Conj (One_Of (Col ''role'') [''group_leader'', ''group_member'']) (Is_Not_Null (Col ''group_id'')))))]\<rparr>"

definition m006 :: migration where
  "m006 = \<lparr>revision = ''20260508_006'', down_revision = Some ''20260508_005'',
     upgrade = [
       Drop_Trigger True ''users'' ''users_group_leader_consistency_check'',
       Drop_Function True True ''users_group_leader_consistency_check_fn''],
     downgrade = []\<rparr>"

definition m007 :: migration where
  "m007 = \<lparr>revision = ''20260508_007'', down_revision = Some ''20260508_006'',
     upgrade = [
       Drop_Trigger True ''users'' ''trg_users_group_leader_consistency'',
       Drop_Function True True ''trg_users_group_leader_consistency_fn'',
       Drop_Function True True ''users_group_leader_consistency_fn''],
     downgrade = []\<rparr>"

definition m008 :: migration where
  "m008 = \<lparr>revision = ''20260509_008'', down_revision = Some ''20260508_007'',
     upgrade = [Set_Nullable ''groups'' ''leader_user_id'' True],
     downgrade = [Set_Nullable ''groups'' ''leader_user_id'' False]\<rparr>"

definition owner_of :: "data \<Rightarrow> row \<Rightarrow> row option" where
  \<comment> \<open>\<open>FROM users u WHERE ma.user_id = u.id\<close>\<close>
  "owner_of d r = find (\<lambda>v. matches (r ''user_id'') (v ''id'')) (rows d ''users'')"

definition m009 :: migration where
  "m009 = \<lparr>revision = ''20260509_009'', down_revision = Some ''20260509_008'',
     upgrade = [
       Add_Column ''mail_accounts'' False (opt ''group_id'' Big_Int) [fkey ''mail_accounts'' ''group_id'' ''groups'' Set_Null],
       Update ''mail_accounts'' [''group_id''] (\<lambda>d r. owner_of d r \<noteq> None)
         (\<lambda>d r. r(''group_id'' := (case owner_of d r of Some v \<Rightarrow> v ''group_id'' | None \<Rightarrow> r ''group_id''))),
       Create_Index True ''mail_accounts'' (ix ''ix_mail_accounts_group_id'' [''group_id''])],
     downgrade = [
       Drop_Index True ''ix_mail_accounts_group_id'',
       Drop_Column ''mail_accounts'' True ''group_id'']\<rparr>"

section \<open>20260510\_010: Telegram\<close>

definition create_telegram :: "stmt list" where
  "create_telegram = [
     Create_Table True ''telegram_links'' [
       req ''telegram_user_id'' Big_Int,
       req ''user_id'' Big_Int,
       stamp ''created_at'',
       opt ''dead_at'' Timestamptz]
      [pkey ''telegram_links'' [''telegram_user_id''],
       ukey ''telegram_links'' ''user_id'',
       fkey ''telegram_links'' ''user_id'' ''users'' Cascade],
     Create_Index True ''telegram_links'' (ix ''telegram_links_user_id_idx'' [''user_id'']),
     Create_Table True ''telegram_notifications'' [
       serial_id,
       req ''message_id'' Big_Int,
       req ''user_id'' Big_Int,
       opt ''sent_at'' Timestamptz,
       opt ''telegram_message_id'' Big_Int]
      [pkey ''telegram_notifications'' [''id''],
       fkey ''telegram_notifications'' ''message_id'' ''messages'' Cascade,
       fkey ''telegram_notifications'' ''user_id'' ''users'' Cascade,
       (''telegram_notifications_unique'', Unique [''message_id'', ''user_id''])],
     Create_Index True ''telegram_notifications'' (ix ''telegram_notifications_message_id_idx'' [''message_id'']),
     Create_Index True ''telegram_notifications'' (ix ''telegram_notifications_user_id_idx'' [''user_id'']),
     Create_Table True ''users_settings'' [
       req ''user_id'' Big_Int,
       flag ''tg_notifications_enabled'' True,
       stamp ''updated_at'']
      [pkey ''users_settings'' [''user_id''], fkey ''users_settings'' ''user_id'' ''users'' Cascade],
     Create_Trigger True ''users_settings'' (updated_at_trigger ''trg_users_settings_updated_at'')]"

definition m010 :: migration where
  "m010 = \<lparr>revision = ''20260510_010'', down_revision = Some ''20260509_009'',
     upgrade = create_telegram,
     downgrade = [
       Drop_Table True ''users_settings'',
       Drop_Table True ''telegram_notifications'',
       Drop_Table True ''telegram_links'']\<rparr>"

section \<open>011 to 013: HTML bodies, duplicate addresses\<close>

definition m011 :: migration where
  "m011 = \<lparr>revision = ''20260513_011'', down_revision = Some ''20260510_010'',
     upgrade = [Add_Column ''messages'' True (opt ''body_html'' Txt) []],
     downgrade = [Drop_Column ''messages'' True ''body_html'']\<rparr>"

definition sql_num :: "sqlval \<Rightarrow> int" where
  "sql_num v = (case v of SNum n \<Rightarrow> n | _ \<Rightarrow> 0)"

definition lower_email :: "row \<Rightarrow> sqlval" where
  "lower_email r = eval r (Lower (Col ''email''))"

definition survivor_id :: "data \<Rightarrow> row \<Rightarrow> int" where
  \<comment> \<open>\<open>MIN(id) OVER (PARTITION BY LOWER(email))\<close>\<close>
  "survivor_id d r = Min (set (map (\<lambda>q. sql_num (q ''id''))
     (filter (\<lambda>q. lower_email q = lower_email r) (rows d ''mail_accounts''))))"

definition loser :: "data \<Rightarrow> row \<Rightarrow> bool" where
  "loser d r \<longleftrightarrow> sql_num (r ''id'') \<noteq> survivor_id d r"

definition loser_message :: "data \<Rightarrow> row \<Rightarrow> bool" where
  "loser_message d m \<longleftrightarrow> list_ex (\<lambda>r. loser d r \<and> matches (m ''mail_account_id'') (r ''id'')) (rows d ''mail_accounts'')"

definition email_lower_index :: index where
  "email_lower_index = \<lparr>i_name = ''ux_mail_accounts_email_lower'', i_keys = [Asc (Lower (Col ''email''))],
     i_unique = True, i_where = None\<rparr>"

definition m012 :: migration where
  "m012 = \<lparr>revision = ''20260514_012'', down_revision = Some ''20260513_011'',
     upgrade = [
       Delete ''messages'' loser_message,
       Delete ''mail_accounts'' loser,
       Create_Index True ''mail_accounts'' email_lower_index],
     downgrade = [Drop_Index True ''ux_mail_accounts_email_lower'']\<rparr>"

definition m013 :: migration where
  "m013 = \<lparr>revision = ''20260514_013'', down_revision = Some ''20260514_012'',
     upgrade = [Drop_Index True ''ux_mail_accounts_email_lower''],
     downgrade = [Create_Index True ''mail_accounts'' email_lower_index]\<rparr>"

section \<open>20260515\_014: webhooks\<close>

definition create_webhooks :: "stmt list" where
  "create_webhooks = [
     Create_Table True ''webhooks'' [
       serial_id,
       req ''group_id'' Big_Int,
       req ''url'' Txt,
       req ''secret_encrypted'' Bytea,
       flag ''is_active'' True,
       dflt ''consecutive_failures'' Int4 (Literal (SNum 0)),
       opt ''dead_at'' Timestamptz,
       opt ''last_fired_at'' Timestamptz,
       opt ''last_error'' Txt,
       stamp ''created_at'',
       stamp ''updated_at'']
      [pkey ''webhooks'' [''id''],
       ukey ''webhooks'' ''group_id'',
       fkey ''webhooks'' ''group_id'' ''groups'' Cascade,
       (''webhooks_url_https_check'', Check (Starts_With (Col ''url'') ''https://'')),
       (''webhooks_url_length_check'', Check (length_between ''url'' 9 2048))],
     Create_Index True ''webhooks'' (ix_where ''webhooks_active_idx'' [''is_active''] (is_true ''is_active'')),
     Create_Trigger True ''webhooks'' (updated_at_trigger ''trg_webhooks_updated_at''),
     Create_Table True ''webhook_deliveries'' [
       serial_id,
       req ''webhook_id'' Big_Int,
       req ''message_id'' Big_Int,
       opt ''sent_at'' Timestamptz,
       opt ''response_code'' Int4,
       opt ''response_excerpt'' Txt,
       stamp ''created_at'']
      [pkey ''webhook_deliveries'' [''id''],
       fkey ''webhook_deliveries'' ''webhook_id'' ''webhooks'' Cascade,
       fkey ''webhook_deliveries'' ''message_id'' ''messages'' Cascade,
       (''webhook_deliveries_unique'', Unique [''webhook_id'', ''message_id''])],
     Create_Index True ''webhook_deliveries'' (ix ''webhook_deliveries_webhook_id_idx'' [''webhook_id'']),
     Create_Index True ''webhook_deliveries'' (ix ''webhook_deliveries_message_id_idx'' [''message_id''])]"

definition m014 :: migration where
  "m014 = \<lparr>revision = ''20260515_014'', down_revision = Some ''20260514_013'',
     upgrade = create_webhooks,
     downgrade = [
       Drop_Table True ''webhook_deliveries'',
       Drop_Trigger True ''webhooks'' ''trg_webhooks_updated_at'',
       Drop_Table True ''webhooks'']\<rparr>"

section \<open>015, 016: tag match modes\<close>

definition m015 :: migration where
  "m015 = \<lparr>revision = ''20260521_015'', down_revision = Some ''20260515_014'',
     upgrade = [
       Add_Column ''tags'' True (dflt ''match_mode'' Txt (Literal (sql_text ''any''))) [],
       Add_Constraint ''tags'' True ''ck_tags_match_mode'' (Check (One_Of (Col ''match_mode'') [''any'', ''all'']))],
     downgrade = [
       Drop_Constraint ''tags'' True ''ck_tags_match_mode'',
       Drop_Column ''tags'' True ''match_mode'']\<rparr>"

definition m016 :: migration where
  "m016 = \<lparr>revision = ''20260521_016'', down_revision = Some ''20260521_015'',
     upgrade = [Delete ''tags'' (sat (is_true ''is_builtin''))],
     downgrade = []\<rparr>"

section \<open>20260527\_017: several Telegram links per user\<close>

fun sql_less :: "sqlval \<Rightarrow> sqlval \<Rightarrow> bool" where
  "sql_less (SNum a) (SNum b) = (a < b)"
| "sql_less (STime a) (STime b) = (a < b)"
| "sql_less _ _ = False"

definition first_link :: "data \<Rightarrow> row \<Rightarrow> sqlval" where
  \<comment> \<open>the scalar subquery with \<open>LIMIT 1\<close>\<close>
  "first_link d r = (case find (\<lambda>l. matches (l ''user_id'') (r ''user_id'')) (rows d ''telegram_links'') of
     None \<Rightarrow> SNull | Some l \<Rightarrow> l ''telegram_user_id'')"

definition upgrade_017 :: "stmt list" where
  "upgrade_017 = [
     Drop_Constraint ''telegram_links'' True ''telegram_links_user_id_key'',
     Create_Index True ''telegram_links'' (ix ''telegram_links_user_id_idx'' [''user_id'']),
     Add_Column ''telegram_notifications'' True (opt ''telegram_user_id'' Big_Int) [],
     Update ''telegram_notifications'' [''telegram_user_id''] (sat (Is_Null (Col ''telegram_user_id'')))
       (\<lambda>d r. r(''telegram_user_id'' := first_link d r)),
     Update ''telegram_notifications'' [''telegram_user_id''] (sat (Is_Null (Col ''telegram_user_id'')))
       (\<lambda>d r. r(''telegram_user_id'' := SNum 0)),
     Set_Nullable ''telegram_notifications'' ''telegram_user_id'' False,
     Drop_Constraint ''telegram_notifications'' True ''telegram_notifications_unique'',
     Add_Constraint ''telegram_notifications'' False ''telegram_notifications_msg_chat_uq''
       (Unique [''message_id'', ''telegram_user_id''])]"

definition downgrade_017 :: "stmt list" where
  "downgrade_017 = [
     Drop_Constraint ''telegram_notifications'' True ''telegram_notifications_msg_chat_uq'',
     Delete ''telegram_notifications'' (\<lambda>d a. list_ex (\<lambda>b. matches (a ''message_id'') (b ''message_id'') \<and>
       matches (a ''user_id'') (b ''user_id'') \<and> sql_less (b ''id'') (a ''id'')) (rows d ''telegram_notifications'')),
     Add_Constraint ''telegram_notifications'' False ''telegram_notifications_unique'' (Unique [''message_id'', ''user_id'']),
     Drop_Column ''telegram_notifications'' True ''telegram_user_id'',
     Delete ''telegram_links'' (\<lambda>d a. list_ex (\<lambda>b. matches (a ''user_id'') (b ''user_id'') \<and>
       a ''telegram_user_id'' \<noteq> b ''telegram_user_id'' \<and>
       (sql_less (b ''created_at'') (a ''created_at'') \<or> b ''created_at'' = a ''created_at'' \<and>
        sql_less (b ''telegram_user_id'') (a ''telegram_user_id''))) (rows d ''telegram_links'')),
     Add_Constraint ''telegram_links'' False ''telegram_links_user_id_key'' (Unique [''user_id''])]"

definition m017 :: migration where
  "m017 = \<lparr>revision = ''20260527_017'', down_revision = Some ''20260521_016'',
     upgrade = upgrade_017, downgrade = downgrade_017\<rparr>"

section \<open>20260527\_018: OAuth for Outlook\<close>

definition ck_auth_type :: sqlexp where
  "ck_auth_type = One_Of (Col ''auth_type'') [''password'', ''oauth_outlook'']"

definition ck_password_creds :: sqlexp where
  "ck_password_creds = Disj (Differs (Col ''auth_type'') (Const (sql_text ''password'')))
     (Is_Not_Null (Col ''encrypted_password''))"

definition ck_oauth_creds :: sqlexp where
  "ck_oauth_creds = Disj (Differs (Col ''auth_type'') (Const (sql_text ''oauth_outlook'')))
     (Conj (Is_Not_Null (Col ''oauth_refresh_token_encrypted''))
           (Equals (Col ''oauth_provider'') (Const (sql_text ''outlook''))))"

definition upgrade_018 :: "stmt list" where
  "upgrade_018 = [
     Add_Column ''mail_accounts'' True (dflt ''auth_type'' Txt (Literal (sql_text ''password''))) [],
     Add_Column ''mail_accounts'' True (opt ''oauth_provider'' Txt) [],
     Add_Column ''mail_accounts'' True (opt ''oauth_refresh_token_encrypted'' Bytea) [],
     Add_Column ''mail_accounts'' True (opt ''oauth_access_token_encrypted'' Bytea) [],
     Add_Column ''mail_accounts'' True (opt ''oauth_access_token_expires_at'' Timestamptz) [],
     Add_Column ''mail_accounts'' True (flag ''oauth_needs_consent'' False) [],
     Add_Column ''mail_accounts'' True (opt ''oauth_scopes'' Txt) [],
     Add_Column ''mail_accounts'' True (opt ''proxy_url'' Txt) [],
     Set_Nullable ''mail_accounts'' ''encrypted_password'' True,
     Drop_Constraint ''mail_accounts'' True ''ck_mail_accounts_auth_type'',
     Add_Constraint ''mail_accounts'' False ''ck_mail_accounts_auth_type'' (Check ck_auth_type),
     Drop_Constraint ''mail_accounts'' True ''ck_mail_accounts_password_creds'',
     Add_Constraint ''mail_accounts'' False ''ck_mail_accounts_password_creds'' (Check ck_password_creds),
     Drop_Constraint ''mail_accounts'' True ''ck_mail_accounts_oauth_creds'',
     Add_Constraint ''mail_accounts'' False ''ck_mail_accounts_oauth_creds'' (Check ck_oauth_creds)]"

definition downgrade_018 :: "stmt list" where
  "downgrade_018 = [
     Drop_Constraint ''mail_accounts'' True ''ck_mail_accounts_oauth_creds'',
     Drop_Constraint ''mail_accounts'' True ''ck_mail_accounts_password_creds'',
     Drop_Constraint ''mail_accounts'' True ''ck_mail_accounts_auth_type'',
     Drop_Column ''mail_accounts'' True ''proxy_url'',
     Drop_Column ''mail_accounts'' True ''oauth_scopes'',
     Drop_Column ''mail_accounts'' True ''oauth_needs_consent'',
     Drop_Column ''mail_accounts'' True ''oauth_access_token_expires_at'',
     Drop_Column ''mail_accounts'' True ''oauth_access_token_encrypted'',
     Drop_Column ''mail_accounts'' True ''oauth_refresh_token_encrypted'',
     Drop_Column ''mail_accounts'' True ''oauth_provider'',
     Set_Nullable ''mail_accounts'' ''encrypted_password'' False,
     Drop_Column ''mail_accounts'' True ''auth_type'']"

definition m018 :: migration where
  "m018 = \<lparr>revision = ''20260527_018'', down_revision = Some ''20260527_017'',
     upgrade = upgrade_018, downgrade = downgrade_018\<rparr>"

section \<open>019 to 024\<close>

definition m019 :: migration where
  "m019 = \<lparr>revision = ''20260623_019'', down_revision = Some ''20260527_018'',
     upgrade = [
       Create_Table False ''user_groups'' [
         serial_id,
         req ''user_id'' Big_Int,
         req ''group_id'' Big_Int,
         stamp ''created_at'']
        [pkey ''user_groups'' [''id''],
         fkey ''user_groups'' ''user_id'' ''users'' Cascade,
         fkey ''user_groups'' ''group_id'' ''groups'' Cascade,
         (''uq_user_groups_user_group'', Unique [''user_id'', ''group_id''])],
       Create_Index False ''user_groups'' (ix ''ix_user_groups_group_id'' [''group_id'']),
       Insert ''user_groups'' (\<lambda>d. map (\<lambda>v. [(''user_id'', v ''id''), (''group_id'', v ''group_id'')])
         (filter (\<lambda>v. v ''group_id'' \<noteq> SNull) (rows d ''users''))) [''user_id'', ''group_id'']],
     downgrade = [Drop_Table True ''user_groups'']\<rparr>"

definition m020 :: migration where
  "m020 = \<lparr>revision = ''20260703_020'', down_revision = Some ''20260623_019'',
     upgrade = [Add_Column ''mail_accounts'' False (opt ''disabled_alert_sent_at'' Timestamptz) []],
     downgrade = [Drop_Column ''mail_accounts'' False ''disabled_alert_sent_at'']\<rparr>"

definition create_forwarding :: "stmt list" where
  "create_forwarding = [
     Create_Table True ''group_forwarding'' [
       serial_id,
       req ''group_id'' Big_Int,
       req ''forward_to'' Txt,
       flag ''is_active'' True,
       stamp ''created_at'',
       stamp ''updated_at'']
      [pkey ''group_forwarding'' [''id''],
       ukey ''group_forwarding'' ''group_id'',
       fkey ''group_forwarding'' ''group_id'' ''groups'' Cascade],
     Create_Trigger True ''group_forwarding'' (updated_at_trigger ''trg_group_forwarding_updated_at''),
     Create_Table True ''message_forwards'' [
       serial_id,
       req ''message_id'' Big_Int,
       req ''group_id'' Big_Int,
       req ''forward_to'' Txt,
       opt ''sent_at'' Timestamptz,
       opt ''error'' Txt,
       stamp ''created_at'']
      [pkey ''message_forwards'' [''id''],
       fkey ''message_forwards'' ''message_id'' ''messages'' Cascade,
       fkey ''message_forwards'' ''group_id'' ''groups'' Cascade,
       (''message_forwards_unique'', Unique [''message_id'', ''group_id''])],
     Create_Index True ''message_forwards'' (ix ''message_forwards_message_id_idx'' [''message_id'']),
     Create_Index True ''message_forwards'' (ix ''message_forwards_group_id_idx'' [''group_id''])]"

definition m021 :: migration where
  "m021 = \<lparr>revision = ''20260703_021'', down_revision = Some ''20260703_020'',
     upgrade = create_forwarding,
     downgrade = [
       Drop_Table True ''message_forwards'',
       Drop_Trigger True ''group_forwarding'' ''trg_group_forwarding_updated_at'',
       Drop_Table True ''group_forwarding'']\<rparr>"

definition m022 :: migration where
  "m022 = \<lparr>revision = ''20260706_022'', down_revision = Some ''20260703_021'',
     upgrade = [Add_Column ''users'' True (opt ''password_encrypted'' Bytea) []],
     downgrade = [Drop_Column ''users'' True ''password_encrypted'']\<rparr>"

definition m023 :: migration where
  "m023 = \<lparr>revision = ''20260709_023'', down_revision = Some ''20260706_022'',
     upgrade = [
       Set_Nullable ''tags'' ''user_id'' True,
       Create_Index True ''tags'' \<lparr>i_name = ''uq_tags_global_name'', i_keys = [Asc (Col ''name'')], i_unique = True,
         i_where = Some (Is_Null (Col ''user_id''))\<rparr>],
     downgrade = [
       Drop_Index True ''uq_tags_global_name'',
       Set_Nullable ''tags'' ''user_id'' False]\<rparr>"

definition m024 :: migration where
  "m024 = \<lparr>revision = ''20260710_024'', down_revision = Some ''20260709_023'',
     upgrade = [
       Add_Column ''messages'' True (opt ''pushed_at'' Timestamptz) [],
       Create_Index True ''messages'' (ix_where ''ix_messages_pushed_at_pending'' [''id''] (Is_Null (Col ''pushed_at'')))],
     downgrade = [
       Drop_Index True ''ix_messages_pushed_at_pending'',
       Drop_Column ''messages'' True ''pushed_at'']\<rparr>"

end
