(* ===== verification/Orm_Schema.thy ===== *)
theory Orm_Schema
  imports Initial_Schema World
begin

text \<open>
  The tables \<open>shared/models/\<close> declares (\<open>User\<close>, \<open>MailAccount\<close>, \<open>Message\<close>), in the vocabulary of the migrations, and the
  link to the rows of the running program: a row of the record types of \<open>World\<close> passes the CHECK constraints of its
  table exactly when the predicates \<open>account_checks\<close> and \<open>user_checks\<close> hold. Constraints without a name in the
  models carry the one PostgreSQL gives them.
\<close>

section \<open>The declared tables\<close>

definition orm_users :: tbl where
  "orm_users = \<lparr>t_cols = [
       serial_id,
       req ''username'' Txt,
       opt ''email'' Txt,
       opt ''display_name'' Txt,
       opt ''password_hash'' (Varchar 255),
       opt ''password_encrypted'' Bytea,
       dflt ''role'' Txt (Literal (sql_text ''group_member'')),
       flag ''password_reset_required'' True,
       opt ''lockout_until'' Timestamptz,
       dflt ''failed_login_attempts'' Int4 (Literal (SNum 0)),
       opt ''last_login_at'' Timestamptz,
       stamp ''created_at'',
       stamp ''updated_at''],
     t_cons = [
       pkey ''users'' [''id''],
       ukey ''users'' ''username'',
       (''ck_users_username_lower'', Check (Equals (Col ''username'') (Lower (Col ''username'')))),
       (''ck_users_role'', Check (One_Of (Col ''role'') [''super_admin'', ''group_leader'', ''group_member''])),
       (''ck_users_display_name_length'',
          Check (Disj (Is_Null (Col ''display_name'')) (length_between ''display_name'' 1 100)))],
     t_idx = [ix_where ''ix_users_role_super_admin_partial'' [''role'']
       (Equals (Col ''role'') (Const (sql_text ''super_admin'')))],
     t_trgs = []\<rparr>"

definition orm_mail_accounts :: tbl where
  "orm_mail_accounts = \<lparr>t_cols = [
       serial_id,
       req ''user_id'' Big_Int,
       req ''email'' Txt,
       opt ''display_name'' Txt,
       opt ''encrypted_password'' Bytea,
       dflt ''auth_type'' Txt (Literal (sql_text ''password'')),
       opt ''oauth_provider'' Txt,
       opt ''oauth_refresh_token_encrypted'' Bytea,
       opt ''oauth_access_token_encrypted'' Bytea,
       opt ''oauth_access_token_expires_at'' Timestamptz,
       flag ''oauth_needs_consent'' False,
       opt ''oauth_scopes'' Txt,
       opt ''proxy_url'' Txt,
       req ''imap_host'' Txt,
       dflt ''imap_port'' Int4 (Literal (SNum 993)),
       flag ''imap_ssl'' True,
       req ''smtp_host'' Txt,
       dflt ''smtp_port'' Int4 (Literal (SNum 465)),
       flag ''smtp_ssl'' True,
       flag ''smtp_starttls'' False,
       opt ''smtp_username'' Txt,
       opt ''smtp_encrypted_password'' Bytea,
       flag ''is_active'' True,
       opt ''last_synced_uidnext'' Big_Int,
       opt ''last_uidvalidity'' Big_Int,
       opt ''last_synced_at'' Timestamptz,
       opt ''last_sync_error'' Txt,
       dflt ''consecutive_failures'' Int4 (Literal (SNum 0)),
       opt ''disabled_alert_sent_at'' Timestamptz,
       stamp ''created_at'',
       stamp ''updated_at''],
     t_cons = [
       pkey ''mail_accounts'' [''id''],
       fkey ''mail_accounts'' ''user_id'' ''users'' Cascade,
       (''ck_mail_accounts_imap_port'', Check (Between (Col ''imap_port'') 1 65535)),
       (''ck_mail_accounts_smtp_port'', Check (Between (Col ''smtp_port'') 1 65535)),
       (''ck_mail_accounts_smtp_ssl_xor'', Check (Neg (Conj (Col ''smtp_ssl'') (Col ''smtp_starttls'')))),
       (''ck_mail_accounts_display_name_length'',
          Check (Disj (Is_Null (Col ''display_name'')) (length_between ''display_name'' 1 100))),
       (''ck_mail_accounts_auth_type'', Check (One_Of (Col ''auth_type'') [''password'', ''oauth_outlook''])),
       (''ck_mail_accounts_password_creds'', Check (Disj
          (Differs (Col ''auth_type'') (Const (sql_text ''password''))) (Is_Not_Null (Col ''encrypted_password'')))),
       (''ck_mail_accounts_oauth_creds'', Check (Disj
          (Differs (Col ''auth_type'') (Const (sql_text ''oauth_outlook'')))
          (Conj (Is_Not_Null (Col ''oauth_refresh_token_encrypted''))
                (Equals (Col ''oauth_provider'') (Const (sql_text ''outlook'')))))),
       (''uq_mail_accounts_user_email'', Unique [''user_id'', ''email''])],
     t_idx = [
       ix ''ix_mail_accounts_user_id'' [''user_id''],
       ix_where ''ix_mail_accounts_active_partial'' [''is_active''] (is_true ''is_active'')],
     t_trgs = []\<rparr>"

definition orm_messages :: tbl where
  "orm_messages = \<lparr>t_cols = [
       serial_id,
       req ''mail_account_id'' Big_Int,
       req ''uid'' Big_Int,
       req ''uidvalidity'' Big_Int,
       opt ''message_id_header'' Txt,
       req ''from_addr'' Txt,
       opt ''from_name'' Txt,
       dflt ''to_addrs'' Txt (Literal (sql_text '''')),
       opt ''cc_addrs'' Txt,
       opt ''subject'' Txt,
       req ''internal_date'' Timestamptz,
       dflt ''body_text'' Txt (Literal (sql_text '''')),
       opt ''body_html'' Txt,
       flag ''body_truncated'' False,
       flag ''body_present'' True,
       flag ''is_read'' False,
       opt ''in_reply_to'' Txt,
       opt ''refs_header'' Txt,
       stamp ''fetched_at'',
       opt ''pushed_at'' Timestamptz],
     t_cons = [
       pkey ''messages'' [''id''],
       fkey ''messages'' ''mail_account_id'' ''mail_accounts'' Cascade,
       (''uq_messages_account_uidv_uid'', Unique [''mail_account_id'', ''uidvalidity'', ''uid''])],
     t_idx = [
       \<lparr>i_name = ''ix_messages_account_internal_date_desc'',
         i_keys = [Asc (Col ''mail_account_id''), Desc (Col ''internal_date'')], i_unique = False, i_where = None\<rparr>,
       ix_where ''ix_messages_unread_partial'' [''mail_account_id'', ''is_read'']
         (Equals (Col ''is_read'') (Const (SBool False))),
       ix ''ix_messages_internal_date'' [''internal_date''],
       ix_where ''ix_messages_pushed_at_pending'' [''id''] (Is_Null (Col ''pushed_at''))],
     t_trgs = []\<rparr>"

definition orm_schema :: "(string \<times> tbl) list" where
  "orm_schema = [(''users'', orm_users), (''mail_accounts'', orm_mail_accounts), (''messages'', orm_messages)]"

definition same_set :: "'a list \<Rightarrow> 'a list \<Rightarrow> bool" where
  "same_set xs ys \<longleftrightarrow> list_all (\<lambda>x. x \<in> set ys) xs \<and> list_all (\<lambda>y. y \<in> set xs) ys"

definition same_table :: "tbl \<Rightarrow> tbl \<Rightarrow> bool" where
  \<comment> \<open>same columns, constraints and indexes, in any order; the models declare no triggers\<close>
  "same_table T U \<longleftrightarrow> same_set (t_cols T) (t_cols U) \<and> same_set (t_cons T) (t_cons U) \<and> same_set (t_idx T) (t_idx U)"

section \<open>Rows of the running program\<close>

definition sql_of :: "('a \<Rightarrow> sqlval) \<Rightarrow> 'a option \<Rightarrow> sqlval" where
  "sql_of f v = (case v of None \<Rightarrow> SNull | Some x \<Rightarrow> f x)"

definition row_of :: "(string \<times> sqlval) list \<Rightarrow> row" where
  "row_of vs x = (case map_of vs x of None \<Rightarrow> SNull | Some v \<Rightarrow> v)"

definition account_row :: "account \<Rightarrow> row" where
  \<comment> \<open>the columns the CHECK constraints and keys read\<close>
  "account_row a = row_of [
     (''id'', SNum (acc_id a)), (''user_id'', SNum (acc_user_id a)), (''email'', SStr (email a)),
     (''display_name'', sql_of SStr (display_name a)), (''encrypted_password'', sql_of SBytes (encrypted_password a)),
     (''auth_type'', sql_text (auth_type a)), (''oauth_provider'', sql_of sql_text (oauth_provider a)),
     (''oauth_refresh_token_encrypted'', sql_of SBytes (oauth_refresh_token_encrypted a)),
     (''imap_port'', SNum (imap_port a)), (''smtp_port'', SNum (smtp_port a)),
     (''smtp_ssl'', SBool (smtp_ssl a)), (''smtp_starttls'', SBool (smtp_starttls a))]"

definition user_row :: "user \<Rightarrow> row" where
  "user_row x = row_of [
     (''id'', SNum (usr_id x)), (''username'', SStr (usr_username x)), (''role'', sql_text (usr_role x)),
     (''display_name'', sql_of SStr (usr_display_name x))]"

fun checks_of :: "(string \<times> constr) list \<Rightarrow> sqlexp list" where
  "checks_of [] = []"
| "checks_of ((n, Check e) # ks) = e # checks_of ks"
| "checks_of (nk # ks) = checks_of ks"

lemma u_inject [simp]: "u s = u t \<longleftrightarrow> s = t"
  by (auto simp: u_def inj_def map_injective intro: injI)

lemma account_row_cols [simp]:
  "account_row a ''display_name'' = sql_of SStr (display_name a)"
  "account_row a ''encrypted_password'' = sql_of SBytes (encrypted_password a)"
  "account_row a ''auth_type'' = sql_text (auth_type a)"
  "account_row a ''oauth_provider'' = sql_of sql_text (oauth_provider a)"
  "account_row a ''oauth_refresh_token_encrypted'' = sql_of SBytes (oauth_refresh_token_encrypted a)"
  "account_row a ''imap_port'' = SNum (imap_port a)"
  "account_row a ''smtp_port'' = SNum (smtp_port a)"
  "account_row a ''smtp_ssl'' = SBool (smtp_ssl a)"
  "account_row a ''smtp_starttls'' = SBool (smtp_starttls a)"
  by (simp_all add: account_row_def row_of_def)

lemma user_row_cols [simp]:
  "user_row x ''username'' = SStr (usr_username x)"
  "user_row x ''role'' = sql_text (usr_role x)"
  "user_row x ''display_name'' = sql_of SStr (usr_display_name x)"
  by (simp_all add: user_row_def row_of_def)

lemma sql_text_eq [simp]: "sql_eq (sql_text s) (sql_text t) = SBool (s = t)"
  by (simp add: sql_text_def)

lemma sql_and_bools [simp]: "sql_and (SBool a) (SBool b) = SBool (a \<and> b)"
  by (cases a; cases b) simp_all

lemma passes_between: "r x = SNum n \<Longrightarrow> passes r (Between (Col x) lo hi) \<longleftrightarrow> lo \<le> n \<and> n \<le> hi"
  by (simp add: passes_def)

lemma passes_one_of: "r x = sql_text s \<Longrightarrow> passes r (One_Of (Col x) ss) \<longleftrightarrow> s \<in> set ss"
  by (auto simp: passes_def sql_text_def)

lemma display_name_check:
  "r ''display_name'' = sql_of SStr v \<Longrightarrow>
   passes r (Disj (Is_Null (Col ''display_name'')) (length_between ''display_name'' 1 100)) \<longleftrightarrow> opt_len_ok v"
  by (cases v) (auto simp: passes_def sql_of_def sql_or_def opt_len_ok_def)

lemma oauth_creds_check:
  "passes (account_row a) (Disj (Differs (Col ''auth_type'') (Const (sql_text ''oauth_outlook'')))
     (Conj (Is_Not_Null (Col ''oauth_refresh_token_encrypted'')) (Equals (Col ''oauth_provider'') (Const (sql_text ''outlook''))))) \<longleftrightarrow>
   (auth_type a \<noteq> ''oauth_outlook'' \<or> oauth_refresh_token_encrypted a \<noteq> None \<and> oauth_provider a \<in> {None, Some ''outlook''})"
  by (cases "oauth_provider a"; cases "oauth_refresh_token_encrypted a"; cases "auth_type a = ''oauth_outlook''")
    (auto simp: passes_def sql_of_def sql_or_def)

lemma password_creds_check:
  "passes (account_row a) (Disj (Differs (Col ''auth_type'') (Const (sql_text ''password''))) (Is_Not_Null (Col ''encrypted_password'')))
   \<longleftrightarrow> (auth_type a \<noteq> ''password'' \<or> encrypted_password a \<noteq> None)"
  by (cases "encrypted_password a"; cases "auth_type a = ''password''") (auto simp: passes_def sql_of_def sql_or_def)

lemma ssl_check:
  "passes (account_row a) (Neg (Conj (Col ''smtp_ssl'') (Col ''smtp_starttls''))) \<longleftrightarrow> \<not> (smtp_ssl a \<and> smtp_starttls a)"
  by (cases "smtp_ssl a"; cases "smtp_starttls a") (simp_all add: passes_def)

lemma username_check: "passes (user_row x) (Equals (Col ''username'') (Lower (Col ''username''))) \<longleftrightarrow>
    usr_username x = py_lower (usr_username x)"
  by (simp add: passes_def)

lemma account_checks_iff:
  "list_all (passes (account_row a)) (checks_of (t_cons orm_mail_accounts)) \<longleftrightarrow> account_checks a"
  by (auto simp: orm_mail_accounts_def pkey_def fkey_def account_checks_def ssl_check oauth_creds_check
      password_creds_check display_name_check [where v = "display_name a"]
      passes_between [where n = "imap_port a"] passes_between [where n = "smtp_port a"]
      passes_one_of [where s = "auth_type a"])

lemma user_checks_iff:
  "list_all (passes (user_row x)) (checks_of (t_cons orm_users)) \<longleftrightarrow> user_checks x"
  by (auto simp: orm_users_def pkey_def ukey_def user_checks_def display_name_check [where v = "usr_display_name x"]
      username_check passes_one_of [where s = "usr_role x"])


lemma null_provider_passes:
  \<comment> \<open>an Outlook mailbox without a provider satisfies \<open>ck_mail_accounts_oauth_creds\<close>\<close>
  "auth_type a = ''oauth_outlook'' \<Longrightarrow> oauth_refresh_token_encrypted a \<noteq> None \<Longrightarrow> oauth_provider a = None \<Longrightarrow>
   ((''ck_mail_accounts_oauth_creds'', Check e) \<in> set (t_cons orm_mail_accounts)) \<Longrightarrow> passes (account_row a) e"
  using oauth_creds_check [of a] by (simp add: orm_mail_accounts_def pkey_def fkey_def)

end
