(* ===== verification/Decommission.thy ===== *)
theory Decommission
  imports Feature_Migrations Orm_Schema
begin

text \<open>
  Revisions 025 to 028 of \<open>migrations/versions/\<close> (ADR-0044), the chain of all revisions with the runner of
  \<open>migrations/env.py\<close>, and the tables \<open>shared/models/\<close> declares. Facts: what the chain leaves is what the ORM declares,
  which downgrades invert their upgrade, and what the four last revisions keep of an arbitrary database.
\<close>

section \<open>20260715\_025: one owner for every mailbox\<close>

definition crm_service :: sqlval where
  "crm_service = sql_text ''crm-service''"

definition seed_crm_service :: stmt where
  "seed_crm_service = Insert ''users'' (\<lambda>d. [[
     (''username'', crm_service),
     (''role'', sql_text ''super_admin''),
     (''password_reset_required'', SBool False)]]) [''username'']"

definition is_crm :: sqlexp where
  "is_crm = Equals (Col ''username'') (Const crm_service)"

definition crm_id :: "data \<Rightarrow> sqlval" where
  "crm_id d = (case find (sat is_crm d) (rows d ''users'') of None \<Rightarrow> SNull | Some v \<Rightarrow> v ''id'')"

definition crm_service_id :: "stmt list" where
  "crm_service_id = [seed_crm_service, Assert_Row ''users'' (sat is_crm) ''technical user not found'']"

definition merge_duplicates :: "stmt list" where
  "merge_duplicates = [Delete ''messages'' loser_message, Delete ''mail_accounts'' loser]"

definition repoint :: stmt where
  "repoint = Update ''mail_accounts'' [''user_id'']
     (\<lambda>d r. r ''user_id'' \<noteq> SNull \<and> crm_id d \<noteq> SNull \<and> r ''user_id'' \<noteq> crm_id d)
     (\<lambda>d r. r(''user_id'' := crm_id d))"

definition upgrade_025 :: "stmt list" where
  "upgrade_025 = crm_service_id @ merge_duplicates @ [
     repoint,
     Set_Constraints_Immediate,
     Drop_Index True ''ix_mail_accounts_group_id'',
     Drop_Column ''mail_accounts'' False ''group_id'']"

definition m025 :: migration where
  "m025 = \<lparr>revision = ''20260715_025'', down_revision = Some ''20260710_024'',
     upgrade = upgrade_025,
     downgrade = [
       Add_Column ''mail_accounts'' False (opt ''group_id'' Big_Int) [fkey ''mail_accounts'' ''group_id'' ''groups'' Set_Null],
       Create_Index True ''mail_accounts'' (ix ''ix_mail_accounts_group_id'' [''group_id''])]\<rparr>"

section \<open>026 to 028\<close>

definition drop_order :: "string list" where
  "drop_order = [''sent_attachments'', ''sent_messages'', ''attachments'', ''message_tags'', ''tag_rules'', ''tags'',
     ''telegram_notifications'', ''telegram_links'', ''webhook_deliveries'', ''webhooks'', ''message_forwards'',
     ''group_forwarding'', ''user_groups'', ''users_settings'', ''admin_audit'']"

definition m026 :: migration where
  "m026 = \<lparr>revision = ''20260715_026'', down_revision = Some ''20260715_025'',
     upgrade = map (Drop_Table False) drop_order,
     downgrade = [Raise ''ADR-0044 Phase D is irreversible'']\<rparr>"

definition m027 :: migration where
  "m027 = \<lparr>revision = ''20260715_027'', down_revision = Some ''20260715_026'',
     upgrade = [Drop_Column ''users'' False ''group_id'', Drop_Table False ''groups''],
     downgrade = [Raise ''ADR-0044 Phase E is irreversible'']\<rparr>"

definition m028 :: migration where
  "m028 = \<lparr>revision = ''20260715_028'', down_revision = Some ''20260715_027'',
     upgrade = [Delete ''users'' (sat (Differs (Col ''username'') (Const crm_service)))],
     downgrade = [Raise ''ADR-0044 Phase F is irreversible'']\<rparr>"

section \<open>The chain\<close>

definition before_decommission :: "migration list" where
  "before_decommission = [m001, m002, m003, m004, m005, m006, m007, m008, m009, m010, m011, m012, m013, m014, m015, m016,
     m017, m018, m019, m020, m021, m022, m023, m024]"

definition versions :: "migration list" where
  "versions = before_decommission @ [m025, m026, m027, m028]"

function chain_from :: "migration list \<Rightarrow> string option \<Rightarrow> migration list" where
  \<comment> \<open>follows the \<open>down_revision\<close> links from revision \<open>r\<close>\<close>
  "chain_from ms r = (case find (\<lambda>m. down_revision m = r) ms of
       None \<Rightarrow> []
     | Some m \<Rightarrow> m # chain_from (filter (\<lambda>m'. down_revision m' \<noteq> r) ms) (Some (revision m)))"
  by auto
termination
proof (relation "measure (\<lambda>(ms, _). length ms)")
  fix ms :: "migration list" and r m
  assume "find (\<lambda>m. down_revision m = r) ms = Some m"
  then have "m \<in> set ms" "down_revision m = r" by (auto simp: find_Some_iff)
  then have "length (filter (\<lambda>m'. down_revision m' \<noteq> r) ms) < length ms"
    by (auto intro: length_filter_less)
  then show "((filter (\<lambda>m'. down_revision m' \<noteq> r) ms, Some (revision m)), ms, r) \<in> measure (\<lambda>(ms, _). length ms)"
    by simp
qed simp

definition run_migrations :: "migration list \<Rightarrow> string option \<Rightarrow> pg \<Rightarrow> sql_error option \<times> pg" where
  \<comment> \<open>\<open>_do_run_migrations\<close>: every pending revision in one transaction\<close>
  "run_migrations ms r g = (case exec (concat (map upgrade (chain_from ms r))) g of
       Inl e \<Rightarrow> (Some e, g) | Inr g' \<Rightarrow> (None, g'))"

declare chain_from.simps [simp del]

section \<open>The schema at both ends of the decommission\<close>

definition users_024 :: tbl where
  "users_024 = \<lparr>t_cols = [
       serial_id,
       req ''username'' Txt,
       opt ''email'' Txt,
       opt ''password_hash'' (Varchar 255),
       flag ''password_reset_required'' True,
       opt ''lockout_until'' Timestamptz,
       dflt ''failed_login_attempts'' Int4 (Literal (SNum 0)),
       opt ''last_login_at'' Timestamptz,
       stamp ''created_at'',
       stamp ''updated_at'',
       dflt ''role'' Txt (Literal (sql_text ''group_member'')),
       opt ''display_name'' Txt,
       opt ''group_id'' Big_Int,
       opt ''password_encrypted'' Bytea],
     t_cons = [
       pkey ''users'' [''id''],
       (''uq_users_username'', Unique [''username'']),
       (''ck_users_username_lower'', Check (Equals (Col ''username'') (Lower (Col ''username'')))),
       (''users_group_id_fkey'', Foreign_Key ''group_id'' ''groups'' ''id'' Set_Null True),
       (''ck_users_role'', Check ck_role),
       (''ck_users_display_name_length'', Check ck_display_name)],
     t_idx = [
       ix_where ''ix_users_role_super_admin_partial'' [''role''] (role_is ''super_admin''),
       ix_where ''ix_users_group_id_partial'' [''group_id''] (Is_Not_Null (Col ''group_id''))],
     t_trgs = [updated_at_trigger ''trg_users_updated_at'']\<rparr>"

definition mail_accounts_024 :: tbl where
  "mail_accounts_024 = \<lparr>t_cols = [
       serial_id,
       req ''user_id'' Big_Int,
       req ''email'' Txt,
       opt ''encrypted_password'' Bytea,
       req ''imap_host'' Txt,
       dflt ''imap_port'' Int4 (Literal (SNum 993)),
       flag ''imap_ssl'' True,
       req ''smtp_host'' Txt,
       dflt ''smtp_port'' Int4 (Literal (SNum 465)),
       flag ''smtp_ssl'' True,
       flag ''smtp_starttls'' False,
       opt ''smtp_username'' Txt,
       opt ''smtp_encrypted_password'' Bytea,
       flag ''is_active'' True,
       opt ''last_synced_uidnext'' Big_Int,
       opt ''last_uidvalidity'' Big_Int,
       opt ''last_synced_at'' Timestamptz,
       opt ''last_sync_error'' Txt,
       dflt ''consecutive_failures'' Int4 (Literal (SNum 0)),
       stamp ''created_at'',
       stamp ''updated_at'',
       opt ''display_name'' Txt,
       opt ''group_id'' Big_Int,
       dflt ''auth_type'' Txt (Literal (sql_text ''password'')),
       opt ''oauth_provider'' Txt,
       opt ''oauth_refresh_token_encrypted'' Bytea,
       opt ''oauth_access_token_encrypted'' Bytea,
       opt ''oauth_access_token_expires_at'' Timestamptz,
       flag ''oauth_needs_consent'' False,
       opt ''oauth_scopes'' Txt,
       opt ''proxy_url'' Txt,
       opt ''disabled_alert_sent_at'' Timestamptz],
     t_cons = [
       pkey ''mail_accounts'' [''id''],
       fkey ''mail_accounts'' ''user_id'' ''users'' Cascade,
       (''ck_mail_accounts_imap_port'', Check (Between (Col ''imap_port'') 1 65535)),
       (''ck_mail_accounts_smtp_port'', Check (Between (Col ''smtp_port'') 1 65535)),
       (''ck_mail_accounts_smtp_ssl_xor'', Check (Neg (Conj (Col ''smtp_ssl'') (Col ''smtp_starttls'')))),
       (''uq_mail_accounts_user_email'', Unique [''user_id'', ''email'']),
       (''ck_mail_accounts_display_name_length'', Check ck_display_name),
       fkey ''mail_accounts'' ''group_id'' ''groups'' Set_Null,
       (''ck_mail_accounts_auth_type'', Check ck_auth_type),
       (''ck_mail_accounts_password_creds'', Check ck_password_creds),
       (''ck_mail_accounts_oauth_creds'', Check ck_oauth_creds)],
     t_idx = [
       ix ''ix_mail_accounts_user_id'' [''user_id''],
       ix_where ''ix_mail_accounts_active_partial'' [''is_active''] (is_true ''is_active''),
       ix ''ix_mail_accounts_group_id'' [''group_id'']],
     t_trgs = [updated_at_trigger ''trg_mail_accounts_updated_at'']\<rparr>"

definition messages_024 :: tbl where
  "messages_024 = \<lparr>t_cols = [
       serial_id,
       req ''mail_account_id'' Big_Int,
       req ''uid'' Big_Int,
       req ''uidvalidity'' Big_Int,
       opt ''message_id_header'' Txt,
       req ''from_addr'' Txt,
       opt ''from_name'' Txt,
       dflt ''to_addrs'' Txt (Literal (sql_text '''')),
       opt ''cc_addrs'' Txt,
       opt ''subject'' Txt,
       req ''internal_date'' Timestamptz,
       dflt ''body_text'' Txt (Literal (sql_text '''')),
       flag ''body_truncated'' False,
       flag ''body_present'' True,
       flag ''is_read'' False,
       opt ''in_reply_to'' Txt,
       opt ''refs_header'' Txt,
       stamp ''fetched_at'',
       opt ''body_html'' Txt,
       opt ''pushed_at'' Timestamptz],
     t_cons = t_cons orm_messages, t_idx = t_idx orm_messages, t_trgs = []\<rparr>"

definition legacy_schema :: catalog where
  \<comment> \<open>what revisions 001 to 024 leave on an empty database\<close>
  "legacy_schema = projr (cat_steps (concat (map upgrade before_decommission)) empty_catalog)"

definition head_schema :: catalog where
  "head_schema = \<lparr>tables = [
       (''users'', drop_column_of ''group_id'' users_024),
       (''mail_accounts'', drop_column_of ''group_id'' mail_accounts_024),
       (''messages'', messages_024)],
     routines = [''check_group_leader_consistency'', ''set_updated_at'']\<rparr>"

definition drops_025 :: "stmt list" where
  "drops_025 = [Drop_Index True ''ix_mail_accounts_group_id'', Drop_Column ''mail_accounts'' False ''group_id'']"

definition legacy_ok :: "catalog \<Rightarrow> bool" where
  "legacy_ok c \<longleftrightarrow>
     map_of (tables c) ''users'' = Some users_024 \<and>
     map_of (tables c) ''mail_accounts'' = Some mail_accounts_024 \<and>
     map_of (tables c) ''messages'' = Some messages_024 \<and>
     length (tables c) = 19 \<and> distinct (map fst (tables c)) \<and>
     references c ''mail_accounts'' = [(''messages'', ''mail_account_id'', ''id'', Cascade),
       (''sent_messages'', ''from_account_id'', ''id'', Cascade)] \<and>
     references c ''messages'' = map (\<lambda>t. (t, ''message_id'', ''id'', Cascade))
       [''attachments'', ''message_tags'', ''telegram_notifications'', ''webhook_deliveries'', ''message_forwards''] \<and>
     references c ''sent_messages'' = [(''sent_attachments'', ''sent_message_id'', ''id'', Cascade)] \<and>
     list_all (\<lambda>t. references c t = []) [''attachments'', ''message_tags'', ''telegram_notifications'',
       ''webhook_deliveries'', ''message_forwards'', ''sent_attachments''] \<and>
     deferred_fkeys (tables c) = [(''users'', Foreign_Key ''group_id'' ''groups'' ''id'' Set_Null True)] \<and>
     cat_steps (drops_025 @ upgrade m026 @ upgrade m027) c = Inr head_schema"

lemma legacy_evaluated:
  "case cat_steps (concat (map upgrade before_decommission)) empty_catalog of Inl e \<Rightarrow> False | Inr c \<Rightarrow> legacy_ok c"
  by code_simp

lemma legacy_checked: "legacy_ok legacy_schema"
  using legacy_evaluated unfolding legacy_schema_def by (auto split: sum.splits)

lemma legacy_tables_distinct: "distinct (map fst (tables legacy_schema))"
  using legacy_checked unfolding legacy_ok_def by blast

lemma legacy_run: "cat_steps (concat (map upgrade before_decommission)) empty_catalog = Inr legacy_schema"
  using legacy_evaluated unfolding legacy_schema_def by (auto split: sum.splits)

lemma legacy_facts:
  "map_of (tables legacy_schema) ''users'' = Some users_024"
  "map_of (tables legacy_schema) ''mail_accounts'' = Some mail_accounts_024"
  "map_of (tables legacy_schema) ''messages'' = Some messages_024"
  "length (tables legacy_schema) = 19"
  "references legacy_schema ''mail_accounts'' = [(''messages'', ''mail_account_id'', ''id'', Cascade),
       (''sent_messages'', ''from_account_id'', ''id'', Cascade)]"
  "references legacy_schema ''messages'' = [(''attachments'', ''message_id'', ''id'', Cascade),
     (''message_tags'', ''message_id'', ''id'', Cascade), (''telegram_notifications'', ''message_id'', ''id'', Cascade),
     (''webhook_deliveries'', ''message_id'', ''id'', Cascade), (''message_forwards'', ''message_id'', ''id'', Cascade)]"
  "references legacy_schema ''sent_messages'' = [(''sent_attachments'', ''sent_message_id'', ''id'', Cascade)]"
  "references legacy_schema ''attachments'' = []" "references legacy_schema ''message_tags'' = []"
  "references legacy_schema ''telegram_notifications'' = []" "references legacy_schema ''webhook_deliveries'' = []"
  "references legacy_schema ''message_forwards'' = []" "references legacy_schema ''sent_attachments'' = []"
  "deferred_fkeys (tables legacy_schema) = [(''users'', Foreign_Key ''group_id'' ''groups'' ''id'' Set_Null True)]"
  "cat_steps (drops_025 @ upgrade m026 @ upgrade m027) legacy_schema = Inr head_schema"
  using legacy_checked unfolding legacy_ok_def by simp_all

lemma messages_cascade:
  "cascades (Suc (Suc n)) legacy_schema ''messages''"
  "below_keys (Suc n) legacy_schema (references legacy_schema ''messages'') =
     {''attachments'', ''message_tags'', ''telegram_notifications'', ''webhook_deliveries'', ''message_forwards''}"
  by (auto simp: legacy_facts)

lemma accounts_cascade:
  "cascades (Suc (Suc n)) legacy_schema ''sent_messages''"
  "below (Suc (Suc n)) legacy_schema ''sent_messages'' = {''sent_messages'', ''sent_attachments''}"
  by (auto simp: legacy_facts)

lemma delete_messages_at:
  obtains d' where "delete_rows (Suc (Suc n)) legacy_schema ''messages'' p d = Inr d'"
    "rows d' ''messages'' = filter (\<lambda>r. \<not> p r) (rows d ''messages'')"
    "untouched (- {''users'', ''mail_accounts'', ''groups''}) d d'"
proof -
  have fresh: "''messages'' \<notin> below_keys (Suc n) legacy_schema (references legacy_schema ''messages'')"
    unfolding messages_cascade by simp
  obtain d' where d': "delete_rows (Suc (Suc n)) legacy_schema ''messages'' p d = Inr d'"
      "untouched (below (Suc (Suc n)) legacy_schema ''messages'') d d'"
      "rows d' ''messages'' = filter (\<lambda>r. \<not> p r) (rows d ''messages'')"
    by (rule delete_rows_own [OF messages_cascade(1) fresh])
  have "below (Suc (Suc n)) legacy_schema ''messages'' \<subseteq> - {''users'', ''mail_accounts'', ''groups''}"
    unfolding below_Suc messages_cascade by simp
  with d' that show ?thesis by (blast intro: untouched_mono)
qed

lemma delete_accounts_at:
  fixes d p
  defines "g \<equiv> filter p (rows d ''mail_accounts'')"
  obtains d' where "delete_rows (Suc (Suc (Suc n))) legacy_schema ''mail_accounts'' p d = Inr d'"
    "rows d' ''mail_accounts'' = filter (\<lambda>r. \<not> p r) (rows d ''mail_accounts'')"
    "rows d' ''messages'' = filter (\<lambda>m. \<not> hits g ''mail_account_id'' ''id'' m) (rows d ''messages'')"
    "untouched (- {''users'', ''groups''}) d d'"
proof (cases "g = []")
  case True
  then have none: "filter p (rows d ''mail_accounts'') = []" by (simp add: g_def)
  show ?thesis
    using that [OF delete_rows_none [OF none]] filter_not_none [OF none] True by (simp add: hits_def)
next
  case False
  then have some: "filter p (rows d ''mail_accounts'') \<noteq> []" by (simp add: g_def)
  let ?d1 = "set_rows ''mail_accounts'' (filter (\<lambda>r. \<not> p r) (rows d ''mail_accounts'')) d"
  obtain d2 where d2: "delete_rows (Suc (Suc n)) legacy_schema ''messages'' (hits g ''mail_account_id'' ''id'') ?d1 = Inr d2"
      "rows d2 ''messages'' = filter (\<lambda>r. \<not> hits g ''mail_account_id'' ''id'' r) (rows ?d1 ''messages'')"
      "untouched (- {''users'', ''mail_accounts'', ''groups''}) ?d1 d2"
    by (rule delete_messages_at)
  obtain d3 where d3: "delete_rows (Suc (Suc n)) legacy_schema ''sent_messages'' (hits g ''from_account_id'' ''id'') d2 = Inr d3"
      "untouched (below (Suc (Suc n)) legacy_schema ''sent_messages'') d2 d3"
    using delete_rows_cascades [OF accounts_cascade(1)] by blast
  have run: "delete_rows (Suc (Suc (Suc n))) legacy_schema ''mail_accounts'' p d = Inr d3"
    unfolding delete_rows_some [OF some] legacy_facts fold_err.simps follow_key.simps
    using d2(1) d3(1) unfolding g_def by (simp del: delete_rows.simps)
  have "untouched {''sent_messages'', ''sent_attachments''} d2 d3"
    using d3(2) unfolding accounts_cascade .
  then show ?thesis using d2(2,3) run by (intro that [of d3]) (auto simp: untouched_def)
qed

lemma delete_messages_legacy:
  obtains d' where "data_step legacy_schema (Delete ''messages'' p) d = Inr d'"
    "rows d' ''messages'' = filter (\<lambda>r. \<not> p d r) (rows d ''messages'')"
    "untouched (- {''users'', ''mail_accounts'', ''groups''}) d d'"
  by (rule delete_messages_at [of 18 "p d" d]) (simp add: legacy_facts del: delete_rows.simps)

lemma delete_accounts_legacy:
  obtains d' where "data_step legacy_schema (Delete ''mail_accounts'' p) d = Inr d'"
    "rows d' ''mail_accounts'' = filter (\<lambda>r. \<not> p d r) (rows d ''mail_accounts'')"
    "rows d' ''messages'' = filter (\<lambda>m. \<not> hits (filter (p d) (rows d ''mail_accounts'')) ''mail_account_id'' ''id'' m) (rows d ''messages'')"
    "untouched (- {''users'', ''groups''}) d d'"
  by (rule delete_accounts_at [of 17 "p d" d]) (simp add: legacy_facts del: delete_rows.simps)


end
