(* ===== verification/Decommission_Data.thy ===== *)
theory Decommission_Data
  imports Decommission
begin

text \<open>
  What revisions 025 to 028 do to the rows of an arbitrary consistent database at revision 024. In the order of the
  statements: the owner is seeded (\<open>seed_owner\<close>), duplicates of an address are merged onto the oldest row
  (\<open>survivors_distinct\<close>, \<open>survivors_cover\<close>), every mailbox is repointed (\<open>repoint_ok\<close>), the tables and columns
  are dropped (\<open>dropped_rows\<close>) and the human users deleted (\<open>delete_users_head\<close>).
\<close>

section \<open>General facts\<close>

lemma find_filter: "filter P xs = v # zs \<Longrightarrow> find P xs = Some v"
  by (induction xs) (auto split: if_splits)

lemma sat_is_crm: "sat is_crm d r \<longleftrightarrow> r ''username'' = crm_service"
  by (cases "r ''username''") (auto simp: sat_def is_crm_def crm_service_def sql_text_def)

lemma lower_crm_service [simp]: "py_lower (u ''crm-service'') = u ''crm-service''"
  by code_simp

section \<open>Seeding the owner\<close>

definition owner_ready :: "data \<Rightarrow> data \<Rightarrow> sqlval \<Rightarrow> bool" where
  \<comment> \<open>after the seed: one \<open>crm-service\<close> row, with the id given; no other table changed\<close>
  "owner_ready d d1 i \<longleftrightarrow> (\<forall>t. t \<noteq> ''users'' \<longrightarrow> rows d1 t = rows d t) \<and> clock d1 = clock d \<and> set (pending d1) \<subseteq> {''users''} \<and>
     (\<exists>v. filter (\<lambda>w. w ''username'' = crm_service) (rows d1 ''users'') = [v] \<and> v ''id'' = i) \<and> i \<noteq> SNull \<and>
     distinct (map (\<lambda>w. w ''id'') (rows d1 ''users'')) \<and>
     (\<forall>w \<in> set (rows d1 ''users''). w ''username'' \<noteq> SNull \<and> w ''id'' \<noteq> SNull \<and>
        (w ''group_id'' = SNull \<or> w ''group_id'' \<in> (\<lambda>q. q ''id'') ` set (rows d ''groups'')))"

lemma seed_users:
  assumes ok: "consistent (legacy_schema, d)"
  shows "distinct (map (\<lambda>w. w ''id'') (rows d ''users''))" "distinct (map (\<lambda>w. w ''username'') (rows d ''users''))"
    "\<forall>w \<in> set (rows d ''users''). w ''username'' \<noteq> SNull \<and> (\<exists>n. w ''id'' = SNum n \<and> n < serial d ''users'') \<and>
        (w ''group_id'' = SNull \<or> w ''group_id'' \<in> (\<lambda>q. q ''id'') ` set (rows d ''groups''))"
proof -
  note T = consistent_table [OF ok legacy_facts(1)]
  have nn: "w ''username'' \<noteq> SNull" if "w \<in> set (rows d ''users'')" for w
    using T(1) [OF that] by (simp add: nulls_ok_def users_024_def req_def opt_def dflt_def)
  have id: "\<exists>n. w ''id'' = SNum n \<and> n < serial d ''users''" if "w \<in> set (rows d ''users'')" for w
    using T(3) [of serial_id, OF _ _ that] by (simp add: users_024_def dflt_def)
  have "constr_holds d ''users'' (Primary_Key [''id''])" "constr_holds d ''users'' (Unique [''username''])"
    "constr_holds d ''users'' (Foreign_Key ''group_id'' ''groups'' ''id'' Set_Null True)"
    using T(2) by (simp_all add: users_024_def pkey_def)
  then show "distinct (map (\<lambda>w. w ''id'') (rows d ''users''))" "distinct (map (\<lambda>w. w ''username'') (rows d ''users''))"
    "\<forall>w \<in> set (rows d ''users''). w ''username'' \<noteq> SNull \<and> (\<exists>n. w ''id'' = SNum n \<and> n < serial d ''users'') \<and>
        (w ''group_id'' = SNull \<or> w ''group_id'' \<in> (\<lambda>q. q ''id'') ` set (rows d ''groups''))"
    using nn id keys_distinct_single [of "rows d ''users''" "''id''"] keys_distinct_single [of "rows d ''users''" "''username''"]
    by (auto simp: constr_holds_def)
qed

lemma filter_unique:
  "distinct (map f xs) \<Longrightarrow> v \<in> set xs \<Longrightarrow> f v = k \<Longrightarrow> filter (\<lambda>w. f w = k) xs = [v]"
  by (induction xs) (auto simp: filter_empty_conv image_iff)

definition seed_row :: "data \<Rightarrow> row" where
  "seed_row d = (\<lambda>x. case map_of [(''username'', crm_service), (''role'', sql_text ''super_admin''),
       (''password_reset_required'', SBool False)] x of Some v \<Rightarrow> v
     | None \<Rightarrow> (case find (\<lambda>k. c_name k = x) (t_cols users_024) of None \<Rightarrow> SNull | Some k \<Rightarrow> default_value d ''users'' k))"

lemma seed_row_cols [simp]:
  "seed_row d ''username'' = crm_service" "seed_row d ''role'' = sql_text ''super_admin''"
  "seed_row d ''id'' = SNum (serial d ''users'')" "seed_row d ''group_id'' = SNull" "seed_row d ''display_name'' = SNull"
  by (simp_all add: seed_row_def users_024_def req_def opt_def dflt_def default_value_def)

lemma seed_row_nulls: "nulls_ok users_024 (seed_row d)"
  by (simp add: nulls_ok_def seed_row_def users_024_def req_def opt_def dflt_def default_value_def sql_text_def crm_service_def)

lemma seed_row_passes:
  "passes (seed_row d) ck_role" "passes (seed_row d) ck_display_name"
  "passes (seed_row d) (Equals (Col ''username'') (Lower (Col ''username'')))"
  using lower_crm_service by (simp_all add: passes_def ck_role_def ck_display_name_def sql_or_def crm_service_def sql_text_def)

lemma seed_step:
  "data_step legacy_schema seed_crm_service d =
    (let d1 = d\<lparr>serial := (serial d)(''users'' := serial d ''users'' + 1)\<rparr> in
     if list_ex (\<lambda>q. matches (q ''username'') crm_service) (rows d ''users'') then Inr d1
     else check_write users_024 ''users'' [seed_row d]
       (queue (defers users_024 None) ''users'' (set_rows ''users'' (rows d ''users'' @ [seed_row d]) d1)))"
proof -
  let ?vs = "[(''username'', crm_service), (''role'', sql_text ''super_admin''), (''password_reset_required'', SBool False)]"
  have ser: "\<exists>k \<in> set (t_cols users_024). c_default k = Serial \<and> map_of ?vs (c_name k) = None"
    by (simp add: users_024_def dflt_def)
  have "insert_row users_024 ''users'' [''username''] ?vs d = (let d1 = d\<lparr>serial := (serial d)(''users'' := serial d ''users'' + 1)\<rparr> in
     if list_ex (\<lambda>q. matches (q ''username'') crm_service) (rows d ''users'') then Inr d1
     else check_write users_024 ''users'' [seed_row d]
       (queue (defers users_024 None) ''users'' (set_rows ''users'' (rows d ''users'' @ [seed_row d]) d1)))"
    unfolding insert_row_def Let_def seed_row_def [symmetric] using seed_row_nulls [of d] ser by simp
  moreover have "andthen m (fold_err f []) = m" for m :: "sql_error + data" and f :: "'b \<Rightarrow> data \<Rightarrow> sql_error + data"
    by (cases m) simp_all
  ultimately show ?thesis by (simp add: seed_crm_service_def with_table_def legacy_facts del: map_of.simps)
qed

lemma seed_existing:
  assumes v: "v \<in> set (rows d ''users'')" "v ''username'' = crm_service"
  shows "data_step legacy_schema seed_crm_service d = Inr (d\<lparr>serial := (serial d)(''users'' := serial d ''users'' + 1)\<rparr>)"
proof -
  have "list_ex (\<lambda>q. matches (q ''username'') crm_service) (rows d ''users'')"
    using v by (auto simp: list_ex_iff matches_def crm_service_def sql_text_def intro!: bexI [of _ v])
  then show ?thesis by (simp add: seed_step)
qed

lemma t_024:
  "t_cons users_024 = [(''users_pkey'', Primary_Key [''id'']),
       (''uq_users_username'', Unique [''username'']),
       (''ck_users_username_lower'', Check (Equals (Col ''username'') (Lower (Col ''username'')))),
       (''users_group_id_fkey'', Foreign_Key ''group_id'' ''groups'' ''id'' Set_Null True),
       (''ck_users_role'', Check ck_role),
       (''ck_users_display_name_length'', Check ck_display_name)]"
  "t_idx users_024 = [ix_where ''ix_users_role_super_admin_partial'' [''role''] (role_is ''super_admin''),
       ix_where ''ix_users_group_id_partial'' [''group_id''] (Is_Not_Null (Col ''group_id''))]"
  "t_trgs users_024 = [updated_at_trigger ''trg_users_updated_at'']"
  by (simp_all add: users_024_def pkey_def)

lemma seed_missing:
  assumes ok: "consistent (legacy_schema, d)" and none: "\<forall>w \<in> set (rows d ''users''). w ''username'' \<noteq> crm_service"
  defines "d2 \<equiv> (set_rows ''users'' (rows d ''users'' @ [seed_row d]) (d\<lparr>serial := (serial d)(''users'' := serial d ''users'' + 1)\<rparr>))
     \<lparr>pending := [''users'']\<rparr>"
  shows "data_step legacy_schema seed_crm_service d = Inr d2"
proof -
  note U = seed_users [OF ok]
  have noconf: "\<not> list_ex (\<lambda>q. matches (q ''username'') crm_service) (rows d ''users'')"
    using none by (auto simp: list_ex_iff matches_def)
  have pend: "pending d = []" by (rule consistent_pending [OF ok])
  let ?rs = "rows d ''users'' @ [seed_row d]"
  have ids: "distinct (map (\<lambda>w. w ''id'') ?rs)" and nn: "\<forall>r \<in> set ?rs. r ''id'' \<noteq> SNull"
    using U(1,3) by fastforce+
  have names: "distinct (map (\<lambda>w. w ''username'') ?rs)" and nnu: "\<forall>r \<in> set ?rs. r ''username'' \<noteq> SNull"
    using U(2,3) none by (auto simp: crm_service_def sql_text_def)
  have keys: "keys_distinct (\<lambda>r. [r ''id'']) ?rs" "keys_distinct (\<lambda>r. [r ''username'']) ?rs"
    using ids names keys_distinct_single [OF nn] keys_distinct_single [OF nnu] by simp_all
  have chk: "check_write users_024 ''users'' [seed_row d] d2 = Inr d2"
    using keys nn seed_row_nulls [of d] seed_row_passes [of d]
    by (simp add: check_write_def enforced_def constr_holds_def t_024 d2_def index_holds_def ix_where_def)
  have "defers users_024 None" by (simp add: defers_def t_024)
  with chk noconf show ?thesis by (simp add: seed_step queue_def d2_def pend set_rows_def Let_def)
qed

lemma seed_owner:
  assumes ok: "consistent (legacy_schema, d)"
  obtains d1 i where "data_step legacy_schema seed_crm_service d = Inr d1" "owner_ready d d1 i"
proof (cases "\<exists>v \<in> set (rows d ''users''). v ''username'' = crm_service")
  case True
  then obtain v where v: "v \<in> set (rows d ''users'')" "v ''username'' = crm_service" by blast
  note U = seed_users [OF ok]
  have "filter (\<lambda>w. w ''username'' = crm_service) (rows d ''users'') = [v]"
    using filter_unique [where f = "\<lambda>w. w ''username''", OF U(2) v(1) v(2)] .
  moreover have "pending d = []" by (rule consistent_pending [OF ok])
  moreover have "w ''username'' \<noteq> SNull \<and> w ''id'' \<noteq> SNull \<and>
      (w ''group_id'' = SNull \<or> w ''group_id'' \<in> (\<lambda>q. q ''id'') ` set (rows d ''groups''))" if "w \<in> set (rows d ''users'')" for w
    using bspec [OF U(3) that] by (elim conjE exE) simp
  ultimately have "owner_ready d (d\<lparr>serial := (serial d)(''users'' := serial d ''users'' + 1)\<rparr>) (v ''id'')"
    using U(1) v(1) unfolding owner_ready_def by simp
  with seed_existing [OF v] that show ?thesis by blast
next
  case False
  then have none: "\<forall>w \<in> set (rows d ''users''). w ''username'' \<noteq> crm_service" by blast
  note U = seed_users [OF ok]
  let ?rs = "rows d ''users'' @ [seed_row d]"
  have "filter (\<lambda>w. w ''username'' = crm_service) ?rs = [seed_row d]"
    using none by simp
  moreover have "distinct (map (\<lambda>w. w ''id'') ?rs)" using U(1,3) by fastforce
  moreover have "w ''username'' \<noteq> SNull \<and> w ''id'' \<noteq> SNull \<and>
      (w ''group_id'' = SNull \<or> w ''group_id'' \<in> (\<lambda>q. q ''id'') ` set (rows d ''groups''))" if "w \<in> set ?rs" for w
    using U(3) that by (cases "w = seed_row d") (auto simp: crm_service_def sql_text_def)
  ultimately have "owner_ready d ((set_rows ''users'' ?rs (d\<lparr>serial := (serial d)(''users'' := serial d ''users'' + 1)\<rparr>))
     \<lparr>pending := [''users'']\<rparr>) (SNum (serial d ''users''))"
    unfolding owner_ready_def by (simp del: set_append)
  with seed_missing [OF ok none] that show ?thesis by blast
qed


section \<open>Merging and repointing\<close>

lemma accounts_024:
  assumes ok: "consistent (legacy_schema, d)" and r: "r \<in> set (rows d ''mail_accounts'')"
  shows "nulls_ok mail_accounts_024 r" "\<exists>n. r ''id'' = SNum n" "r ''email'' \<noteq> SNull" "r ''user_id'' \<noteq> SNull"
    "\<And>n e. (n, Check e) \<in> set (t_cons mail_accounts_024) \<Longrightarrow> passes r e"
    "r ''group_id'' = SNull \<or> r ''group_id'' \<in> (\<lambda>q. q ''id'') ` set (rows d ''groups'')"
proof -
  note T = consistent_table [OF ok legacy_facts(2)]
  show nulls: "nulls_ok mail_accounts_024 r" by (rule T(1) [OF r])
  then show "r ''email'' \<noteq> SNull" "r ''user_id'' \<noteq> SNull"
    by (simp_all add: nulls_ok_def mail_accounts_024_def req_def opt_def dflt_def)
  show "\<exists>n. r ''id'' = SNum n"
    using T(3) [of serial_id, OF _ _ r] by (auto simp: mail_accounts_024_def dflt_def)
  show "passes r e" if "(n, Check e) \<in> set (t_cons mail_accounts_024)" for n e
    using T(2) [OF that] r by (simp add: constr_holds_def)
  have "constr_holds d ''mail_accounts'' (Foreign_Key ''group_id'' ''groups'' ''id'' Set_Null False)"
    by (rule T(2) [of "''mail_accounts_group_id_fkey''"]) (simp add: mail_accounts_024_def fkey_def)
  then show "r ''group_id'' = SNull \<or> r ''group_id'' \<in> (\<lambda>q. q ''id'') ` set (rows d ''groups'')"
    using r by (simp add: constr_holds_def)
qed

lemma accounts_ids_distinct:
  assumes ok: "consistent (legacy_schema, d)"
  shows "distinct (map (\<lambda>r. r ''id'') (rows d ''mail_accounts''))"
proof -
  have "constr_holds d ''mail_accounts'' (Primary_Key [''id''])"
    by (rule consistent_table(2) [OF ok legacy_facts(2), of "''mail_accounts_pkey''"]) (simp add: mail_accounts_024_def pkey_def)
  then show ?thesis
    using keys_distinct_single [of "rows d ''mail_accounts''" "''id''"] by (simp add: constr_holds_def)
qed

lemma survivor_id_cong: "lower_email r = lower_email q \<Longrightarrow> survivor_id d r = survivor_id d q"
  by (simp add: survivor_id_def)

lemma survivors_distinct:
  assumes ok: "consistent (legacy_schema, d)"
  shows "distinct (map lower_email (filter (\<lambda>r. \<not> loser d r) (rows d ''mail_accounts'')))" (is "distinct (map _ ?S)")
proof -
  have d1: "distinct (rows d ''mail_accounts'')" and inj: "inj_on (\<lambda>r. r ''id'') (set (rows d ''mail_accounts''))"
    using accounts_ids_distinct [OF ok] by (auto simp: distinct_map)
  have "r = q" if rq: "r \<in> set ?S" "q \<in> set ?S" and eq: "lower_email r = lower_email q" for r q
  proof -
    obtain m n where "r ''id'' = SNum m" "q ''id'' = SNum n"
      using accounts_024(2) [OF ok, of r] accounts_024(2) [OF ok, of q] rq by auto
    moreover have "sql_num (r ''id'') = sql_num (q ''id'')"
      using rq survivor_id_cong [OF eq, of d] by (simp add: loser_def)
    ultimately have "r ''id'' = q ''id''" by (simp add: sql_num_def)
    then show ?thesis using inj rq by (auto simp: inj_on_def)
  qed
  with d1 show ?thesis by (simp add: distinct_map inj_on_def)
qed

lemma survivors_emails_distinct:
  assumes ok: "consistent (legacy_schema, d)"
  shows "distinct (map (\<lambda>r. r ''email'') (filter (\<lambda>r. \<not> loser d r) (rows d ''mail_accounts'')))"
  using survivors_distinct [OF ok] by (auto simp: distinct_map inj_on_def lower_email_def)

lemma mail_accounts_024_parts:
  "t_cons mail_accounts_024 = [(''mail_accounts_pkey'', Primary_Key [''id'']),
       (''mail_accounts_user_id_fkey'', Foreign_Key ''user_id'' ''users'' ''id'' Cascade False),
       (''ck_mail_accounts_imap_port'', Check (Between (Col ''imap_port'') 1 65535)),
       (''ck_mail_accounts_smtp_port'', Check (Between (Col ''smtp_port'') 1 65535)),
       (''ck_mail_accounts_smtp_ssl_xor'', Check (Neg (Conj (Col ''smtp_ssl'') (Col ''smtp_starttls'')))),
       (''uq_mail_accounts_user_email'', Unique [''user_id'', ''email'']),
       (''ck_mail_accounts_display_name_length'', Check ck_display_name),
       (''mail_accounts_group_id_fkey'', Foreign_Key ''group_id'' ''groups'' ''id'' Set_Null False),
       (''ck_mail_accounts_auth_type'', Check ck_auth_type),
       (''ck_mail_accounts_password_creds'', Check ck_password_creds),
       (''ck_mail_accounts_oauth_creds'', Check ck_oauth_creds)]"
  "t_idx mail_accounts_024 = [ix ''ix_mail_accounts_user_id'' [''user_id''],
       ix_where ''ix_mail_accounts_active_partial'' [''is_active''] (is_true ''is_active''),
       ix ''ix_mail_accounts_group_id'' [''group_id'']]"
  "t_trgs mail_accounts_024 = [updated_at_trigger ''trg_mail_accounts_updated_at'']"
  by (simp_all add: mail_accounts_024_def pkey_def fkey_def)

definition moved :: "int \<Rightarrow> sqlval \<Rightarrow> row \<Rightarrow> row" where
  \<comment> \<open>a repointed row: the new owner, and the stamp of the \<open>set_updated_at\<close> trigger\<close>
  "moved now i r = (if r ''user_id'' = i then r else (r(''user_id'' := i))(''updated_at'' := STime now))"

lemma touch_moved: "touch mail_accounts_024 now (r(''user_id'' := i)) = (r(''user_id'' := i))(''updated_at'' := STime now)"
  by (simp add: touch_def mail_accounts_024_parts updated_at_trigger_def)

lemma moved_other: "x \<notin> {''user_id'', ''updated_at''} \<Longrightarrow> moved now i r x = r x"
  by (auto simp: moved_def)

lemma moved_owner: "moved now i r ''user_id'' = i"
  by (simp add: moved_def)

lemma repoint_ok:
  assumes ok: "consistent (legacy_schema, d)" and i: "crm_id d3 = i" "i \<noteq> SNull" "i \<in> (\<lambda>q. q ''id'') ` set (rows d3 ''users'')"
    and g: "rows d3 ''groups'' = rows d ''groups''"
    and as: "rows d3 ''mail_accounts'' = filter (\<lambda>r. \<not> loser d r) (rows d ''mail_accounts'')" (is "_ = ?as")
  shows "data_step legacy_schema repoint d3 = Inr (set_rows ''mail_accounts'' (map (moved (clock d3) i) ?as) d3)"
proof -
  have sub: "r \<in> set (rows d ''mail_accounts'')" if "r \<in> set ?as" for r using that by simp
  note A = accounts_024 [OF ok sub]
  let ?p = "\<lambda>r. r ''user_id'' \<noteq> SNull \<and> crm_id d3 \<noteq> SNull \<and> r ''user_id'' \<noteq> crm_id d3"
  let ?new = "\<lambda>r. touch mail_accounts_024 (clock d3) (r(''user_id'' := crm_id d3))"
  let ?d4 = "set_rows ''mail_accounts'' (map (moved (clock d3) i) ?as) d3"
  have new: "?new r = moved (clock d3) i r" if "?p r" for r
    using that i(1) by (simp add: touch_moved moved_def)
  have rows4: "map (\<lambda>r. if ?p r then ?new r else r) ?as = map (moved (clock d3) i) ?as"
    using A(4) i by (auto simp: touch_moved moved_def)
  have touched: "map ?new (filter ?p ?as) = map (moved (clock d3) i) (filter ?p ?as)"
    using new by simp
  let ?t = "map (moved (clock d3) i) (filter ?p ?as)"
  have nulls: "list_all (nulls_ok mail_accounts_024) ?t"
    using A(1) i(2) by (auto simp: list_all_iff moved_def intro!: nulls_ok_upd)
  have pass: "list_all (\<lambda>r. passes r e) ?t" if e: "(n, Check e) \<in> set (t_cons mail_accounts_024)"
      "''user_id'' \<notin> set (cols_of e)" "''updated_at'' \<notin> set (cols_of e)" for n e
    using A(5) [OF _ e(1)] e(2,3) by (auto simp: list_all_iff moved_def passes_upd)
  have checks: "list_all (\<lambda>r. passes r (Between (Col ''imap_port'') 1 65535)) ?t"
      "list_all (\<lambda>r. passes r (Between (Col ''smtp_port'') 1 65535)) ?t"
      "list_all (\<lambda>r. passes r (Neg (Conj (Col ''smtp_ssl'') (Col ''smtp_starttls'')))) ?t"
      "list_all (\<lambda>r. passes r ck_display_name) ?t" "list_all (\<lambda>r. passes r ck_auth_type) ?t"
      "list_all (\<lambda>r. passes r ck_password_creds) ?t" "list_all (\<lambda>r. passes r ck_oauth_creds) ?t"
    by (rule pass; simp add: mail_accounts_024_parts ck_display_name_def ck_auth_type_def ck_password_creds_def ck_oauth_creds_def)+
  have idnn: "\<forall>r \<in> set (map (moved (clock d3) i) ?as). r ''id'' \<noteq> SNull"
    using A(2) by (fastforce simp: moved_other)
  have ids: "keys_distinct (\<lambda>r. [r ''id'']) (map (moved (clock d3) i) ?as)"
  proof -
    have "map (\<lambda>r. r ''id'') (map (moved (clock d3) i) ?as) = map (\<lambda>r. r ''id'') ?as"
      by (simp add: moved_other)
    moreover have "distinct (map (\<lambda>r. r ''id'') ?as)"
      using accounts_ids_distinct [OF ok] by (simp add: distinct_map_filter)
    ultimately have "distinct (map (\<lambda>r. r ''id'') (map (moved (clock d3) i) ?as))" by metis
    then show ?thesis using keys_distinct_single [OF idnn] by simp
  qed
  have uniq: "keys_distinct (\<lambda>r. [r ''user_id'', r ''email'']) (map (moved (clock d3) i) ?as)"
  proof -
    have "map (\<lambda>r. r ''email'') (map (moved (clock d3) i) ?as) = map (\<lambda>r. r ''email'') ?as"
      by (simp add: moved_other)
    then have "distinct (map (\<lambda>r. r ''email'') (map (moved (clock d3) i) ?as))"
      using survivors_emails_distinct [OF ok] by metis
    then show ?thesis using keys_distinct_pair [of "''email''" _ "''user_id''"] by simp
  qed
  have own: "list_all (\<lambda>r. r ''user_id'' = SNull \<or> r ''user_id'' \<in> (\<lambda>q. q ''id'') ` set (rows ?d4 ''users'')) ?t"
    using i(3) by (auto simp: list_all_iff moved_owner)
  have grp: "list_all (\<lambda>r. r ''group_id'' = SNull \<or> r ''group_id'' \<in> (\<lambda>q. q ''id'') ` set (rows ?d4 ''groups'')) ?t"
    using A(6) g by (auto simp: list_all_iff moved_other)
  have "check_write mail_accounts_024 ''mail_accounts'' ?t ?d4 = Inr ?d4"
    using nulls checks own grp ids idnn uniq
    unfolding check_write_def mail_accounts_024_parts
    by (simp add: enforced_def constr_holds_def index_holds_def ix_def ix_where_def)
  moreover have "\<not> defers mail_accounts_024 (Some [''user_id''])"
    by (simp add: defers_def mail_accounts_024_parts updated_at_trigger_def)
  ultimately show ?thesis
    unfolding repoint_def data_step.simps with_table_def legacy_facts option.case Let_def as
    by (simp add: rows4 touched queue_def legacy_facts del: filter_filter)
qed


lemma survivor_exists:
  assumes "r \<in> set (rows d ''mail_accounts'')"
  obtains q where "q \<in> set (rows d ''mail_accounts'')" "lower_email q = lower_email r" "\<not> loser d q"
proof -
  let ?P = "filter (\<lambda>q. lower_email q = lower_email r) (rows d ''mail_accounts'')"
  have "survivor_id d r \<in> set (map (\<lambda>q. sql_num (q ''id'')) ?P)"
    unfolding survivor_id_def by (rule Min_in) (use assms in \<open>auto simp: filter_empty_conv\<close>)
  then obtain q where q: "q \<in> set ?P" "sql_num (q ''id'') = survivor_id d r" by auto
  then have "\<not> loser d q" using survivor_id_cong [of q r d] by (simp add: loser_def)
  with q that show ?thesis by auto
qed

lemma survivors_cover:
  "lower_email ` set (filter (\<lambda>r. \<not> loser d r) (rows d ''mail_accounts'')) = lower_email ` set (rows d ''mail_accounts'')"
proof (intro equalityI subsetI)
  fix e assume "e \<in> lower_email ` set (rows d ''mail_accounts'')"
  then obtain r where "r \<in> set (rows d ''mail_accounts'')" "e = lower_email r" by blast
  then obtain q where "q \<in> set (rows d ''mail_accounts'')" "lower_email q = e" "\<not> loser d q"
    using survivor_exists [of r d] by metis
  then show "e \<in> lower_email ` set (filter (\<lambda>r. \<not> loser d r) (rows d ''mail_accounts''))" by force
qed auto

lemma dropped_rows:
  "rows (fold drop_effect (drops_025 @ upgrade m026 @ upgrade m027) d) ''users'' = map (\<lambda>r. r(''group_id'' := SNull)) (rows d ''users'')"
  "rows (fold drop_effect (drops_025 @ upgrade m026 @ upgrade m027) d) ''mail_accounts'' =
     map (\<lambda>r. r(''group_id'' := SNull)) (rows d ''mail_accounts'')"
  "rows (fold drop_effect (drops_025 @ upgrade m026 @ upgrade m027) d) ''messages'' = rows d ''messages''"
  by (simp_all add: drops_025_def m026_def m027_def drop_order_def)

lemma drops_are_drops: "list_all is_drop (drops_025 @ upgrade m026 @ upgrade m027)"
  by (simp add: drops_025_def m026_def m027_def drop_order_def)

lemma head_facts:
  "map_of (tables head_schema) ''users'' = Some (drop_column_of ''group_id'' users_024)"
  "references head_schema ''users'' = [(''mail_accounts'', ''user_id'', ''id'', Cascade)]"
  "references head_schema ''mail_accounts'' = [(''messages'', ''mail_account_id'', ''id'', Cascade)]"
  "references head_schema ''messages'' = []"
  "length (tables head_schema) = 3"
  by code_simp+

lemma delete_users_head:
  assumes none: "\<And>r. r \<in> set (rows d ''mail_accounts'') \<Longrightarrow> \<not> hits (filter (p d) (rows d ''users'')) ''user_id'' ''id'' r"
  obtains d' where "data_step head_schema (Delete ''users'' p) d = Inr d'"
    "rows d' ''users'' = filter (\<lambda>r. \<not> p d r) (rows d ''users'')"
    "rows d' ''mail_accounts'' = rows d ''mail_accounts''" "rows d' ''messages'' = rows d ''messages''"
proof -
  have no: "filter (hits (filter (p d) (rows d ''users'')) ''user_id'' ''id'') (rows d ''mail_accounts'') = []"
    using none by (simp add: filter_empty_conv)
  have yes: "filter (\<lambda>r. \<not> hits (filter (p d) (rows d ''users'')) ''user_id'' ''id'' r) (rows d ''mail_accounts'') = rows d ''mail_accounts''"
    using none by (simp add: filter_id_conv)
  have nil: "\<not> hits [] x y r" for x y r by (simp add: hits_def)
  have "data_step head_schema (Delete ''users'' p) d = Inr (set_rows ''users'' (filter (\<lambda>r. \<not> p d r) (rows d ''users'')) d)"
  proof (cases "filter (p d) (rows d ''users'') = []")
    case True
    then show ?thesis
      using delete_rows_none [OF True, of 3 head_schema] by (simp add: head_facts filter_not_none [OF True] del: delete_rows.simps)
  next
    case False
    then show ?thesis
      by (simp add: head_facts numeral_3_eq_3 no yes nil set_rows_def fun_upd_idem fun_upd_twist)
  qed
  from that [OF this] show ?thesis by simp
qed


definition decommission :: "stmt list" where
  "decommission = concat (map upgrade [m025, m026, m027, m028])"

lemma decommission_stmts:
  "decommission = [seed_crm_service, Assert_Row ''users'' (sat is_crm) ''technical user not found'',
     Delete ''messages'' loser_message, Delete ''mail_accounts'' loser, repoint, Set_Constraints_Immediate] @
     (drops_025 @ upgrade m026 @ upgrade m027) @ upgrade m028"
  by (simp add: decommission_def m025_def upgrade_025_def crm_service_id_def merge_duplicates_def drops_025_def)

lemma dml_catalog:
  "cat_step seed_crm_service legacy_schema = Inr legacy_schema"
  "cat_step (Assert_Row ''users'' p m) legacy_schema = Inr legacy_schema"
  "cat_step (Delete ''messages'' q) legacy_schema = Inr legacy_schema"
  "cat_step (Delete ''mail_accounts'' q) legacy_schema = Inr legacy_schema"
  "cat_step repoint legacy_schema = Inr legacy_schema"
  "cat_step Set_Constraints_Immediate legacy_schema = Inr legacy_schema"
  by (simp_all add: on_table_def known_columns_def legacy_facts seed_crm_service_def repoint_def
      users_024_def mail_accounts_024_def col_names_def opt_def req_def dflt_def)

lemma owner_id:
  assumes "owner_ready d d1 i"
  shows "crm_id d1 = i" "i \<noteq> SNull" "i \<in> (\<lambda>q. q ''id'') ` set (rows d1 ''users'')"
    "list_ex (sat is_crm d') (rows d1 ''users'')"
proof -
  obtain v where v: "filter (\<lambda>w. w ''username'' = crm_service) (rows d1 ''users'') = [v]" "v ''id'' = i"
    using assms by (auto simp: owner_ready_def)
  have eq: "sat is_crm d1 = (\<lambda>w. w ''username'' = crm_service)" by (rule ext) (simp add: sat_is_crm)
  then have "filter (sat is_crm d1) (rows d1 ''users'') = [v]" using v(1) by simp
  from find_filter [OF this] v show "crm_id d1 = i" by (simp add: crm_id_def)
  show "i \<noteq> SNull" using assms by (simp add: owner_ready_def)
  have "v \<in> set (filter (\<lambda>w. w ''username'' = crm_service) (rows d1 ''users''))" using v(1) by simp
  then show "i \<in> (\<lambda>q. q ''id'') ` set (rows d1 ''users'')" "list_ex (sat is_crm d') (rows d1 ''users'')"
    using v(2) by (auto simp: list_ex_iff sat_is_crm)
qed

lemma loser_cong: "rows d1 ''mail_accounts'' = rows d ''mail_accounts'' \<Longrightarrow> loser d1 = loser d"
  by (rule ext) (simp add: loser_def survivor_id_def)

lemma loser_message_cong: "rows d1 ''mail_accounts'' = rows d ''mail_accounts'' \<Longrightarrow> loser_message d1 = loser_message d"
  by (rule ext) (simp add: loser_message_def loser_cong [of d1 d])

lemma hits_losers: "hits (filter (loser d) (rows d ''mail_accounts'')) ''mail_account_id'' ''id'' = loser_message d"
  by (rule ext) (auto simp: hits_def loser_message_def list_ex_iff)

lemma crm_id_cong:
  assumes "rows d1 ''users'' = rows d2 ''users''"
  shows "crm_id d1 = crm_id d2"
proof -
  have "sat is_crm d1 = sat is_crm d2" by (rule ext) (simp add: sat_def)
  with assms show ?thesis by (simp add: crm_id_def)
qed

text \<open>After the statements of revision 025 that write rows: duplicates merged, one owner, nothing pending.\<close>

lemma phase_c:
  assumes ok: "consistent (legacy_schema, d)"
  obtains d1 d5 i where
    "exec decommission (legacy_schema, d) = exec ((drops_025 @ upgrade m026 @ upgrade m027) @ upgrade m028) (legacy_schema, d5)"
    "pending d5 = []" "owner_ready d d1 i" "rows d5 ''users'' = rows d1 ''users''"
    "rows d5 ''mail_accounts'' = map (moved (clock d) i) (filter (\<lambda>r. \<not> loser d r) (rows d ''mail_accounts''))"
    "rows d5 ''messages'' = filter (\<lambda>m. \<not> loser_message d m) (rows d ''messages'')"
proof -
  obtain d1 i where d1: "data_step legacy_schema seed_crm_service d = Inr d1" and own: "owner_ready d d1 i"
    by (rule seed_owner [OF ok])
  have same: "rows d1 t = rows d t" if "t \<noteq> ''users''" for t using own that by (simp add: owner_ready_def)
  have as1: "rows d1 ''mail_accounts'' = rows d ''mail_accounts''" by (rule same) simp
  obtain d2 where d2: "data_step legacy_schema (Delete ''messages'' loser_message) d1 = Inr d2"
      "rows d2 ''messages'' = filter (\<lambda>r. \<not> loser_message d1 r) (rows d1 ''messages'')"
      "untouched (- {''users'', ''mail_accounts'', ''groups''}) d1 d2"
    by (rule delete_messages_legacy)
  have as2: "rows d2 ''mail_accounts'' = rows d ''mail_accounts''"
    using untouched_rows [OF d2(3), of "''mail_accounts''"] as1 by simp
  obtain d3 where d3: "data_step legacy_schema (Delete ''mail_accounts'' loser) d2 = Inr d3"
      "rows d3 ''mail_accounts'' = filter (\<lambda>r. \<not> loser d2 r) (rows d2 ''mail_accounts'')"
      "rows d3 ''messages'' = filter (\<lambda>m. \<not> hits (filter (loser d2) (rows d2 ''mail_accounts'')) ''mail_account_id'' ''id'' m) (rows d2 ''messages'')"
      "untouched (- {''users'', ''groups''}) d2 d3"
    by (rule delete_accounts_legacy)
  have as3: "rows d3 ''mail_accounts'' = filter (\<lambda>r. \<not> loser d r) (rows d ''mail_accounts'')"
    using d3(2) by (simp add: loser_cong [OF as2] as2)
  have ms3: "rows d3 ''messages'' = filter (\<lambda>m. \<not> loser_message d m) (rows d ''messages'')"
    using d3(3) d2(2) same [of "''messages''"] unfolding loser_cong [OF as2] as2 hits_losers loser_message_cong [OF as1] by simp
  have us3: "rows d3 ''users'' = rows d1 ''users''" and gs3: "rows d3 ''groups'' = rows d ''groups''"
    using untouched_rows [OF d3(4)] untouched_rows [OF d2(3)] same [of "''groups''"] by simp_all
  have rest: "clock d3 = clock d" "set (pending d3) \<subseteq> {''users''}"
    using d3(4) d2(3) own by (auto simp: untouched_def owner_ready_def)
  define d4 where "d4 = set_rows ''mail_accounts'' (map (moved (clock d3) i) (filter (\<lambda>r. \<not> loser d r) (rows d ''mail_accounts''))) d3"
  have d4: "data_step legacy_schema repoint d3 = Inr d4"
    unfolding d4_def by (rule repoint_ok [OF ok _ _ _ gs3 as3]) (use owner_id [OF own] us3 crm_id_cong [OF us3] in simp_all)
  have fk: "constr_holds d4 ''users'' (Foreign_Key ''group_id'' ''groups'' ''id'' Set_Null True)"
    using own us3 gs3 by (auto simp: constr_holds_def d4_def owner_ready_def)
  have d5: "data_step legacy_schema Set_Constraints_Immediate d4 = Inr (d4\<lparr>pending := []\<rparr>)"
    using fk by (simp add: legacy_facts)
  have assert: "data_step legacy_schema (Assert_Row ''users'' (sat is_crm) ''technical user not found'') d1 = Inr d1"
    using owner_id(4) [OF own] by simp
  have "exec decommission (legacy_schema, d) = exec ((drops_025 @ upgrade m026 @ upgrade m027) @ upgrade m028) (legacy_schema, d4\<lparr>pending := []\<rparr>)"
    unfolding decommission_stmts append_Cons append_Nil
      exec_Cons [OF dml_catalog(1) d1] exec_Cons [OF dml_catalog(2) assert] exec_Cons [OF dml_catalog(3) d2(1)]
      exec_Cons [OF dml_catalog(4) d3(1)] exec_Cons [OF dml_catalog(5) d4] exec_Cons [OF dml_catalog(6) d5] ..
  from that [OF this _ own] show ?thesis using us3 ms3 rest by (simp add: d4_def)
qed

text \<open>After revision 028: only the owner is left, and no mailbox went with the users deleted.\<close>

lemma phase_f:
  assumes own: "owner_ready d d1 i" and us: "rows d6 ''users'' = map (\<lambda>r. r(''group_id'' := SNull)) (rows d1 ''users'')"
    and as: "\<And>r. r \<in> set (rows d6 ''mail_accounts'') \<Longrightarrow> r ''user_id'' = i"
  obtains d' v where "exec (upgrade m028) (head_schema, d6) = Inr (head_schema, d')"
    "rows d' ''users'' = [v]" "v ''username'' = crm_service" "v ''id'' = i"
    "rows d' ''mail_accounts'' = rows d6 ''mail_accounts''" "rows d' ''messages'' = rows d6 ''messages''"
proof -
  let ?cut = "\<lambda>r. r(''group_id'' := SNull)"
  let ?p = "sat (Differs (Col ''username'') (Const crm_service))"
  obtain v where v: "filter (\<lambda>w. w ''username'' = crm_service) (rows d1 ''users'') = [v]" "v ''id'' = i"
    using own by (auto simp: owner_ready_def)
  have vin: "v \<in> set (rows d1 ''users'')" "v ''username'' = crm_service"
    using v(1) by (auto simp: filter_eq_Cons_iff)
  have p: "?p d6 (?cut w) \<longleftrightarrow> w ''username'' \<noteq> crm_service" if "w \<in> set (rows d1 ''users'')" for w
    using own that by (cases "w ''username''") (auto simp: sat_def crm_service_def sql_text_def owner_ready_def)
  have foreign: "w ''id'' \<noteq> i" if "w \<in> set (rows d1 ''users'')" "w ''username'' \<noteq> crm_service" for w
  proof
    assume "w ''id'' = i"
    then have "w = v" using own that(1) vin v(2) by (auto simp: owner_ready_def distinct_map inj_on_def)
    with that(2) vin(2) show False by simp
  qed
  have nohit: "\<not> hits (filter (?p d6) (rows d6 ''users'')) ''user_id'' ''id'' r" if r: "r \<in> set (rows d6 ''mail_accounts'')" for r
  proof -
    have "g ''id'' \<noteq> i" if "g \<in> set (filter (?p d6) (rows d6 ''users''))" for g
      using that us p by (auto dest: foreign)
    with as [OF r] show ?thesis unfolding hits_def list_ex_iff matches_def by metis
  qed
  obtain d' where d': "data_step head_schema (Delete ''users'' ?p) d6 = Inr d'"
      "rows d' ''users'' = filter (\<lambda>r. \<not> ?p d6 r) (rows d6 ''users'')"
      "rows d' ''mail_accounts'' = rows d6 ''mail_accounts''" "rows d' ''messages'' = rows d6 ''messages''"
    by (rule delete_users_head [of d6 ?p, OF nohit])
  have "cat_step (Delete ''users'' ?p) head_schema = Inr head_schema"
    by (simp add: on_table_def head_facts known_columns_def)
  then have run: "exec (upgrade m028) (head_schema, d6) = Inr (head_schema, d')"
    using d'(1) by (simp add: m028_def exec1_def del: data_step.simps cat_step.simps)
  have "rows d' ''users'' = map ?cut (filter (\<lambda>w. \<not> ?p d6 (?cut w)) (rows d1 ''users''))"
    unfolding d'(2) us by (simp add: filter_map o_def)
  also have "filter (\<lambda>w. \<not> ?p d6 (?cut w)) (rows d1 ''users'') = [v]"
    using v(1) p by (simp cong: filter_cong)
  finally have "rows d' ''users'' = [?cut v]" by (simp add: fun_upd_def)
  with that [OF run] d'(3,4) v(2) vin(2) show ?thesis by simp
qed

lemma decommission_run:
  assumes ok: "consistent (legacy_schema, d)"
  obtains d' i v where "exec decommission (legacy_schema, d) = Inr (head_schema, d')"
    "rows d' ''users'' = [v]" "v ''username'' = crm_service" "v ''id'' = i"
    "rows d' ''mail_accounts'' =
       map (\<lambda>r. (moved (clock d) i r)(''group_id'' := SNull)) (filter (\<lambda>r. \<not> loser d r) (rows d ''mail_accounts''))"
    "rows d' ''messages'' = filter (\<lambda>m. \<not> loser_message d m) (rows d ''messages'')"
proof -
  obtain d1 d5 i where run: "exec decommission (legacy_schema, d) =
       exec ((drops_025 @ upgrade m026 @ upgrade m027) @ upgrade m028) (legacy_schema, d5)"
    and pend: "pending d5 = []" and own: "owner_ready d d1 i" and us: "rows d5 ''users'' = rows d1 ''users''"
    and as: "rows d5 ''mail_accounts'' = map (moved (clock d) i) (filter (\<lambda>r. \<not> loser d r) (rows d ''mail_accounts''))"
    and ms: "rows d5 ''messages'' = filter (\<lambda>m. \<not> loser_message d m) (rows d ''messages'')"
    by (rule phase_c [OF ok])
  define d6 where "d6 = fold drop_effect (drops_025 @ upgrade m026 @ upgrade m027) d5"
  note rows6 = dropped_rows [of d5, folded d6_def]
  have us6: "rows d6 ''users'' = map (\<lambda>r. r(''group_id'' := SNull)) (rows d1 ''users'')" by (simp add: rows6 us)
  have as6: "r ''user_id'' = i" if "r \<in> set (rows d6 ''mail_accounts'')" for r
    using that by (auto simp: rows6 as moved_owner)
  obtain d' v where d': "exec (upgrade m028) (head_schema, d6) = Inr (head_schema, d')"
    "rows d' ''users'' = [v]" "v ''username'' = crm_service" "v ''id'' = i"
    "rows d' ''mail_accounts'' = rows d6 ''mail_accounts''" "rows d' ''messages'' = rows d6 ''messages''"
    by (rule phase_f [of d d1 i d6, OF own us6]) (use as6 in auto)
  have "exec decommission (legacy_schema, d) = Inr (head_schema, d')"
    unfolding run by (subst exec_append) (use exec_drops [OF drops_are_drops pend legacy_facts(15)] d'(1) in \<open>simp add: d6_def\<close>)
  from that [OF this d'(2-4)] d'(5,6) show ?thesis unfolding rows6 as ms by simp
qed

text \<open>
  C5. Whatever rows a database at revision 024 holds, as long as they satisfy its constraints, revisions 025 to 028 run without
  an error to the schema of the models: one user, \<open>crm-service\<close>, is left and owns every mailbox; of each address
  (compared in lower case) exactly the oldest mailbox remains, unchanged but for its owner, \<open>updated_at\<close> and the dropped \<open>group_id\<close>; and of
  the messages exactly those of the merged mailboxes are gone.
\<close>
theorem decommission_keeps_canonical_mailboxes:
  assumes ok: "consistent (legacy_schema, d)"
  shows "\<exists>d' i v. exec decommission (legacy_schema, d) = Inr (head_schema, d') \<and>
     rows d' ''users'' = [v] \<and> v ''username'' = crm_service \<and> v ''id'' = i \<and>
     rows d' ''mail_accounts'' =
       map (\<lambda>r. (moved (clock d) i r)(''group_id'' := SNull)) (filter (\<lambda>r. \<not> loser d r) (rows d ''mail_accounts'')) \<and>
     rows d' ''messages'' = filter (\<lambda>m. \<not> loser_message d m) (rows d ''messages'') \<and>
     distinct (map lower_email (rows d' ''mail_accounts'')) \<and>
     set (map lower_email (rows d' ''mail_accounts'')) = set (map lower_email (rows d ''mail_accounts''))"
proof -
  obtain d' i v where d': "exec decommission (legacy_schema, d) = Inr (head_schema, d')"
    "rows d' ''users'' = [v]" "v ''username'' = crm_service" "v ''id'' = i"
    "rows d' ''mail_accounts'' =
       map (\<lambda>r. (moved (clock d) i r)(''group_id'' := SNull)) (filter (\<lambda>r. \<not> loser d r) (rows d ''mail_accounts''))"
    "rows d' ''messages'' = filter (\<lambda>m. \<not> loser_message d m) (rows d ''messages'')"
    by (rule decommission_run [OF ok])
  have lower: "map lower_email (rows d' ''mail_accounts'') = map lower_email (filter (\<lambda>r. \<not> loser d r) (rows d ''mail_accounts''))"
    unfolding d'(5) by (simp add: lower_email_def moved_other)
  have "distinct (map lower_email (rows d' ''mail_accounts''))"
    unfolding lower by (rule survivors_distinct [OF ok])
  moreover have "set (map lower_email (rows d' ''mail_accounts'')) = set (map lower_email (rows d ''mail_accounts''))"
    unfolding lower set_map by (rule survivors_cover)
  ultimately show ?thesis using d' by blast
qed

section \<open>An example\<close>

text \<open>
  Two teams added the same address; the older row has been disabled, the newer one works. One message of each is
  stored, the newer mailbox's not yet pushed.
\<close>

definition sample_user :: row where
  "sample_user = row_of [(''id'', SNum 1), (''username'', sql_text ''ann''), (''password_reset_required'', SBool False),
     (''failed_login_attempts'', SNum 0), (''created_at'', STime 0), (''updated_at'', STime 0), (''role'', sql_text ''super_admin'')]"

definition sample_mailbox :: "int \<Rightarrow> string \<Rightarrow> bool \<Rightarrow> row" where
  "sample_mailbox i m b = row_of [(''id'', SNum i), (''user_id'', SNum 1), (''email'', sql_text m),
     (''encrypted_password'', SBytes [0]), (''imap_host'', sql_text ''h''), (''imap_port'', SNum 993), (''imap_ssl'', SBool True),
     (''smtp_host'', sql_text ''h''), (''smtp_port'', SNum 465), (''smtp_ssl'', SBool True), (''smtp_starttls'', SBool False),
     (''is_active'', SBool b), (''consecutive_failures'', SNum 0), (''created_at'', STime 0), (''updated_at'', STime 0),
     (''auth_type'', sql_text ''password''), (''oauth_needs_consent'', SBool False)]"

definition sample_message :: "int \<Rightarrow> int \<Rightarrow> row" where
  "sample_message i a = row_of [(''id'', SNum i), (''mail_account_id'', SNum a), (''uid'', SNum 5), (''uidvalidity'', SNum 1),
     (''from_addr'', sql_text ''x''), (''to_addrs'', sql_text ''y''), (''internal_date'', STime 0), (''body_text'', sql_text ''z''),
     (''body_truncated'', SBool False), (''body_present'', SBool True), (''is_read'', SBool False), (''fetched_at'', STime 0)]"

definition sample_data :: data where
  "sample_data = \<lparr>rows = (\<lambda>t. if t = ''users'' then [sample_user]
       else if t = ''mail_accounts'' then [sample_mailbox 10 ''Info@x'' False, sample_mailbox 11 ''info@x'' True]
       else if t = ''messages'' then [sample_message 100 10, sample_message 101 11] else []),
     serial = (\<lambda>_. 1000), clock = 7, pending = []\<rparr>"

lemma sample_tables:
  "table_consistent sample_data ''users'' users_024"
  "table_consistent sample_data ''mail_accounts'' mail_accounts_024"
  "table_consistent sample_data ''messages'' messages_024"
  by code_simp+
lemma sample_consistent: "consistent (legacy_schema, sample_data)"
proof (rule consistent_from_tables [OF _ legacy_tables_distinct])
  fix t T assume "rows sample_data t \<noteq> []" and T: "map_of (tables legacy_schema) t = Some T"
  then have "t \<in> {''users'', ''mail_accounts'', ''messages''}" by (auto simp: sample_data_def split: if_splits)
  then show "table_consistent sample_data t T" using T sample_tables by (auto simp: legacy_facts)
qed (simp add: sample_data_def)
lemma sample_survivors:
  "map (\<lambda>r. (r ''id'', r ''is_active'')) (filter (\<lambda>r. \<not> loser sample_data r) (rows sample_data ''mail_accounts'')) = [(SNum 10, SBool False)]"
  "map (\<lambda>r. r ''id'') (filter (\<lambda>m. \<not> loser_message sample_data m) (rows sample_data ''messages'')) = [SNum 100]"
  by code_simp+
theorem decommission_keeps_canonical_mailboxes_witness: "\<exists>d'. exec decommission (legacy_schema, sample_data) = Inr (head_schema, d') \<and>
   map (\<lambda>r. (r ''id'', r ''is_active'')) (rows d' ''mail_accounts'') = [(SNum 10, SBool False)] \<and>
   map (\<lambda>r. r ''id'') (rows d' ''messages'') = [SNum 100]"
proof -
  obtain d' i where "exec decommission (legacy_schema, sample_data) = Inr (head_schema, d')"
    and a: "rows d' ''mail_accounts'' = map (\<lambda>r. (moved (clock sample_data) i r)(''group_id'' := SNull))
         (filter (\<lambda>r. \<not> loser sample_data r) (rows sample_data ''mail_accounts''))"
    and "rows d' ''messages'' = filter (\<lambda>m. \<not> loser_message sample_data m) (rows sample_data ''messages'')"
    using decommission_keeps_canonical_mailboxes [OF sample_consistent] by blast
  moreover have "map (\<lambda>r. (r ''id'', r ''is_active'')) (rows d' ''mail_accounts'') =
      map (\<lambda>r. (r ''id'', r ''is_active'')) (filter (\<lambda>r. \<not> loser sample_data r) (rows sample_data ''mail_accounts''))"
    unfolding a by (simp add: moved_other)
  ultimately show ?thesis using sample_survivors by (intro exI [of _ d']) simp
qed

lemma merge_keeps_disabled_row:
  \<comment> \<open>the working mailbox and its unpushed message are deleted in favour of the disabled row\<close>
  obtains d' where "exec decommission (legacy_schema, sample_data) = Inr (head_schema, d')"
    "map (\<lambda>r. (r ''id'', r ''is_active'')) (rows sample_data ''mail_accounts'') = [(SNum 10, SBool False), (SNum 11, SBool True)]"
    "map (\<lambda>r. (r ''id'', r ''is_active'')) (rows d' ''mail_accounts'') = [(SNum 10, SBool False)]"
    "map (\<lambda>m. (m ''id'', m ''pushed_at'')) (rows sample_data ''messages'') = [(SNum 100, SNull), (SNum 101, SNull)]"
    "map (\<lambda>m. m ''id'') (rows d' ''messages'') = [SNum 100]"
proof -
  obtain d' i where d': "exec decommission (legacy_schema, sample_data) = Inr (head_schema, d')"
    and a: "rows d' ''mail_accounts'' = map (\<lambda>r. (moved (clock sample_data) i r)(''group_id'' := SNull))
         (filter (\<lambda>r. \<not> loser sample_data r) (rows sample_data ''mail_accounts''))"
    and m: "rows d' ''messages'' = filter (\<lambda>m. \<not> loser_message sample_data m) (rows sample_data ''messages'')"
    by (rule decommission_run [OF sample_consistent])
  have "map (\<lambda>r. (r ''id'', r ''is_active'')) (rows d' ''mail_accounts'') =
      map (\<lambda>r. (r ''id'', r ''is_active'')) (filter (\<lambda>r. \<not> loser sample_data r) (rows sample_data ''mail_accounts''))"
    unfolding a by (simp add: moved_other)
  moreover have
    "map (\<lambda>r. (r ''id'', r ''is_active'')) (rows sample_data ''mail_accounts'') = [(SNum 10, SBool False), (SNum 11, SBool True)]"
    "map (\<lambda>m. (m ''id'', m ''pushed_at'')) (rows sample_data ''messages'') = [(SNum 100, SNull), (SNum 101, SNull)]"
    by code_simp+
  ultimately show ?thesis using that [OF d'] sample_survivors m by simp
qed

end
