(* ===== verification/Migration_Chain.thy ===== *)
theory Migration_Chain
  imports Decommission_Data
begin

text \<open>
  The chain of all 28 revisions. On an empty database (CI, a new instance) it runs to the end in one transaction and leaves
  the schema \<open>shared/models/\<close> declares; the revisions form one line; \<open>not_undone\<close> lists those whose
  \<open>downgrade()\<close> does not restore the catalog.
\<close>

section \<open>From an empty database to the models\<close>

lemma rows_not_needed: "list_all needs_no_rows (concat (map upgrade before_decommission))"
proof -
  have "list_all (\<lambda>m. list_all needs_no_rows (upgrade m)) before_decommission"
    unfolding before_decommission_def
    by (simp add: needs_no_rows_def m001_def m002_def m003_def m004_def m005_def m006_def m007_def m008_def m009_def m010_def
        m011_def m012_def m013_def m014_def m015_def m016_def m017_def m018_def m019_def m020_def m021_def m022_def m023_def
        m024_def create_users_def create_mail_accounts_def create_messages_def create_attachments_def create_sent_messages_def
        create_admin_audit_def create_tags_def create_tag_rules_def create_message_tags_def create_groups_def users_roles_def
        leader_check_and_names_def create_telegram_def create_webhooks_def upgrade_017_def upgrade_018_def
        create_forwarding_def blank_rows)
  then show ?thesis by (simp add: list_all_iff)
qed

lemma links:
  "revision m001 = ''20260505_001''" "down_revision m001 = None"
  "revision m002 = ''20260505_002''" "down_revision m002 = Some ''20260505_001''"
  "revision m003 = ''20260507_003''" "down_revision m003 = Some ''20260505_002''"
  "revision m004 = ''20260508_004''" "down_revision m004 = Some ''20260507_003''"
  "revision m005 = ''20260508_005''" "down_revision m005 = Some ''20260508_004''"
  "revision m006 = ''20260508_006''" "down_revision m006 = Some ''20260508_005''"
  "revision m007 = ''20260508_007''" "down_revision m007 = Some ''20260508_006''"
  "revision m008 = ''20260509_008''" "down_revision m008 = Some ''20260508_007''"
  "revision m009 = ''20260509_009''" "down_revision m009 = Some ''20260509_008''"
  "revision m010 = ''20260510_010''" "down_revision m010 = Some ''20260509_009''"
  "revision m011 = ''20260513_011''" "down_revision m011 = Some ''20260510_010''"
  "revision m012 = ''20260514_012''" "down_revision m012 = Some ''20260513_011''"
  "revision m013 = ''20260514_013''" "down_revision m013 = Some ''20260514_012''"
  "revision m014 = ''20260515_014''" "down_revision m014 = Some ''20260514_013''"
  "revision m015 = ''20260521_015''" "down_revision m015 = Some ''20260515_014''"
  "revision m016 = ''20260521_016''" "down_revision m016 = Some ''20260521_015''"
  "revision m017 = ''20260527_017''" "down_revision m017 = Some ''20260521_016''"
  "revision m018 = ''20260527_018''" "down_revision m018 = Some ''20260527_017''"
  "revision m019 = ''20260623_019''" "down_revision m019 = Some ''20260527_018''"
  "revision m020 = ''20260703_020''" "down_revision m020 = Some ''20260623_019''"
  "revision m021 = ''20260703_021''" "down_revision m021 = Some ''20260703_020''"
  "revision m022 = ''20260706_022''" "down_revision m022 = Some ''20260703_021''"
  "revision m023 = ''20260709_023''" "down_revision m023 = Some ''20260706_022''"
  "revision m024 = ''20260710_024''" "down_revision m024 = Some ''20260709_023''"
  "revision m025 = ''20260715_025''" "down_revision m025 = Some ''20260710_024''"
  "revision m026 = ''20260715_026''" "down_revision m026 = Some ''20260715_025''"
  "revision m027 = ''20260715_027''" "down_revision m027 = Some ''20260715_026''"
  "revision m028 = ''20260715_028''" "down_revision m028 = Some ''20260715_027''"
  by (simp_all add: m001_def m002_def m003_def m004_def m005_def m006_def m007_def m008_def m009_def m010_def m011_def m012_def
    m013_def m014_def m015_def m016_def m017_def m018_def m019_def m020_def m021_def m022_def m023_def m024_def
    m025_def m026_def m027_def m028_def)

lemma chain_is_versions: "chain_from versions None = versions"
  by (simp add: versions_def before_decommission_def chain_from.simps links cong: option.case_cong_weak)

lemma all_upgrades: "concat (map upgrade versions) = concat (map upgrade before_decommission) @ decommission"
  by (simp add: versions_def decommission_def)

definition rename_constraint :: "string \<Rightarrow> string \<Rightarrow> tbl \<Rightarrow> tbl" where
  "rename_constraint n n' T = T\<lparr>t_cons := map (\<lambda>(m, k). (if m = n then n' else m, k)) (t_cons T)\<rparr>"

definition declared :: "(string \<times> tbl) list \<Rightarrow> bool" where
  \<comment> \<open>the tables of the models, up to the name of the key on \<open>username\<close>\<close>
  "declared ts \<longleftrightarrow> map fst ts = map fst orm_schema \<and>
     list_all2 (\<lambda>(t, T) (t', U). same_table (rename_constraint ''uq_users_username'' ''users_username_key'' T) U) ts orm_schema"

lemma head_declared: "declared (tables head_schema)"
  by code_simp

text \<open>
  C23. From an empty database, all revisions together run in one transaction without an error, and the result has exactly the
  tables \<open>shared/models/\<close> declares, with the same columns, constraints and indexes (one unique constraint has another
  name); the only row is the technical user \<open>crm-service\<close>.
\<close>
theorem migrations_reach_declared_schema:
  "\<exists>g d v. run_migrations versions None empty_pg = (None, (g, d)) \<and> declared (tables g) \<and>
     rows d ''users'' = [v] \<and> v ''username'' = crm_service \<and> rows d ''mail_accounts'' = [] \<and> rows d ''messages'' = []"
proof -
  have "blank empty_data" by (simp add: blank_def empty_data_def)
  with exec_blank [OF rows_not_needed legacy_run] obtain d0 where
    d0: "exec (concat (map upgrade before_decommission)) (empty_catalog, empty_data) = Inr (legacy_schema, d0)" "blank d0"
    by blast
  obtain d' i v where d': "exec decommission (legacy_schema, d0) = Inr (head_schema, d')"
    "rows d' ''users'' = [v]" "v ''username'' = crm_service" "v ''id'' = i"
    "rows d' ''mail_accounts'' =
       map (\<lambda>r. (moved (clock d0) i r)(''group_id'' := SNull)) (filter (\<lambda>r. \<not> loser d0 r) (rows d0 ''mail_accounts''))"
    "rows d' ''messages'' = filter (\<lambda>m. \<not> loser_message d0 m) (rows d0 ''messages'')"
    by (rule decommission_run [OF blank_consistent [OF d0(2)]])
  have "run_migrations versions None empty_pg = (None, (head_schema, d'))"
    using d0(1) d'(1) by (simp add: run_migrations_def chain_is_versions all_upgrades exec_append empty_pg_def)
  with d' d0(2) head_declared show ?thesis by (auto simp: blank_rows)
qed

section \<open>Downgrades\<close>

fun same_catalogs :: "(string \<times> tbl) list \<Rightarrow> (string \<times> tbl) list \<Rightarrow> bool" where
  "same_catalogs [] [] = True"
| "same_catalogs ((t, T) # ts) ((v, V) # vs) =
     (t = v \<and> (if T = V then True else same_table T V \<and> same_set (t_trgs T) (t_trgs V)) \<and> same_catalogs ts vs)"
| "same_catalogs _ _ = False"

definition undoes :: "migration \<Rightarrow> catalog \<Rightarrow> catalog \<Rightarrow> bool" where
  \<comment> \<open>\<open>downgrade()\<close> takes the catalog \<open>c'\<close> back to \<open>c\<close>, up to the order within a table\<close>
  "undoes m c c' = (case cat_steps (downgrade m) c' of Inl e \<Rightarrow> False
     | Inr c2 \<Rightarrow> same_catalogs (tables c2) (tables c) \<and> same_set (routines c2) (routines c))"

fun not_undone :: "migration list \<Rightarrow> catalog \<Rightarrow> string list" where
  "not_undone [] c = []"
| "not_undone (m # ms) c = (case cat_steps (upgrade m) c of Inl e \<Rightarrow> [revision m]
     | Inr c' \<Rightarrow> (if undoes m c c' then [] else [revision m]) @ not_undone ms c')"


lemma reworded_invariant:
  \<comment> \<open>the two wordings of \<open>users_role_group_invariant\<close> (004 and 005) accept the same rows\<close>
  "passes r (Disj (Disj (Conj (role_is ''super_admin'') (Is_Null (Col ''group_id'')))
                   (Conj (role_is ''group_leader'') (Is_Not_Null (Col ''group_id''))))
             (Conj (role_is ''group_member'') (Is_Not_Null (Col ''group_id'')))) \<longleftrightarrow>
   passes r (Disj (Conj (role_is ''super_admin'') (Is_Null (Col ''group_id'')))
             (Conj (One_Of (Col ''role'') [''group_leader'', ''group_member'']) (Is_Not_Null (Col ''group_id''))))"
  if "r ''role'' = SStr s"
  using that by (cases "r ''group_id'' = SNull") (auto simp: passes_def sql_or_def sql_text_def)

lemma orphan_function:
  \<comment> \<open>revision 007 drops the trigger but, under other names, not the function of revision 004\<close>
  "''check_group_leader_consistency'' \<in> set (routines head_schema)"
  "\<not> function_used ''check_group_leader_consistency'' (tables head_schema)"
  by code_simp+

end
