(* ===== verification/Spec2Isabelle.thy ===== *)
theory Spec2Isabelle
  imports Api_Main Worker_Main Sync_Interleaving Migration_Chain
begin

text \<open>
  Verification library of the mail aggregator: a worker that synchronises IMAP mailboxes into PostgreSQL and pushes new
  messages and mailbox states to a CRM, and a backend with the machine API by which the CRM manages mailboxes, pulls
  messages and sends mail. Paths are relative to the repository root.

  \<^bold>\<open>Parts of the program and where they are modelled.\<close>

  \<^item> Vocabulary. \<open>Prelude\<close>: Python text as lists of code points. \<open>Utf8\<close>, \<open>Base64\<close>: the codecs of the standard library the
    sources call. \<open>Errors\<close>: the exception hierarchy and handlers of \<open>backend/app/exceptions.py\<close>, and the programs
    \<open>('s, 'a) prog\<close> (a state and a result or an exception) with \<open>bindM\<close>, \<open>catchM\<close>, \<open>keeps\<close> and \<open>yields\<close>.
  \<^item> Configuration: \<open>Settings\<close> (\<open>shared/config.py\<close>), \<open>Credentials\<close> (\<open>shared/credentials.py\<close>), \<open>Crypto\<close> (\<open>shared/crypto.py\<close>, the
    AEAD is a parameter with the contract \<open>aead_ok\<close>), \<open>Ssrf\<close> (\<open>backend/app/security.py\<close>, addresses at their width as words).
  \<^item> Data. \<open>World\<close>: rows, constraints, sequences and transactions (\<open>shared/models\<close>, \<open>shared/db.py\<close>); a failed statement or
    transaction keeps the tables but not the sequences. \<open>Accounts_Repo\<close>, \<open>Messages_Repo\<close>: every query of
    \<open>backend/app/repositories\<close>. \<open>Runtime\<close>: the state \<open>world\<close> shared by all processes, with the Redis queues, markers and
    keys, and the traces of outgoing posts and token calls.
  \<^item> Worker. \<open>Html_Sanitize\<close> (\<open>shared/html_sanitize.py\<close>), \<open>Imap_Fetch\<close> (\<open>worker/app/imap_fetcher.py\<close>), \<open>Error_Classify\<close>
    (\<open>worker/app/error_classify.py\<close>), \<open>Sync_Cycle\<close> (\<open>worker/app/sync_cycle.py\<close>), \<open>Crm_Push\<close> (\<open>backend/app/crm_push\<close> and the three
    CRM jobs of \<open>worker/app\<close>), \<open>Housekeeping\<close> (retention, rate limits, the technical user, session guards).
  \<^item> Backend. \<open>OAuth\<close> (\<open>backend/app/oauth\<close>), \<open>Account_Schemas\<close> (request bodies and provider defaults), \<open>Account_Probe\<close> (the
    connection test of \<open>accounts/testers.py\<close> and \<open>accounts/service.py\<close>, as cancellable tasks over a clock), \<open>Account_Service\<close>
    (the rest of \<open>accounts/service.py\<close>), \<open>Send\<close> (\<open>backend/app/send\<close>), \<open>External_Api\<close> (\<open>backend/app/external\<close>).
  \<^item> Composition. \<open>External_Mailboxes\<close>: what creating and patching a mailbox promises end to end. \<open>System\<close>: all jobs and
    requests as steps, the reachable states, the global invariant. \<open>Sync_Interleaving\<close>: overlapping syncs of one mailbox, a
    step per transaction.
  \<^item> Processes. \<open>Logging\<close> (\<open>shared/logging.py\<close>). \<open>Api_Main\<close>: \<open>backend/app/main.py\<close>, \<open>middlewares.py\<close>, \<open>health/router.py\<close>, the
    sessions of \<open>shared/db.py\<close>; every request of the application is served by \<open>serve\<close>. \<open>Worker_Main\<close>: \<open>worker/app/main.py\<close>
    with its job table, \<open>shared/redis_client.py\<close> and the engine of \<open>shared/db.py\<close>.
  \<^item> Schema. \<open>Sql\<close>: a catalog, rows, three-valued expressions and the DDL and data statements the revisions use.
    \<open>Initial_Schema\<close> (001 to 003), \<open>Feature_Migrations\<close> (004 to 024), \<open>Decommission\<close> (025 to 028 and the runner of
    \<open>migrations/env.py\<close>): a definition per revision of \<open>migrations/versions\<close>. \<open>Orm_Schema\<close>: the tables of \<open>shared/models\<close>.
    \<open>Decommission_Data\<close>: what the last revisions keep of arbitrary rows. \<open>Migration_Chain\<close>: the whole chain and its downgrades.

  \<^bold>\<open>State and operations.\<close> A record models a row, a pydantic body or a service environment, field by field. A database
  statement is a program over \<open>db\<close>, run by \<open>on_db\<close> in a transaction of its own or by \<open>in_tx\<close> in the transaction of a
  request (\<open>uow\<close>, which also holds the deferred status events). A job or endpoint is a program over \<open>world\<close>; sending works
  over \<open>mail_world\<close>, which adds the deliveries SMTP servers accepted. Redis availability, HTTP replies and IMAP, SMTP and DNS
  answers are unconstrained functions, so every statement holds for all of them. Clocks are arguments, in microseconds (the
  probe counts milliseconds). The processes wrap these programs: \<open>api\<close> adds the log context, \<open>worker\<close> the alive file and the
  process-wide clients. A migration is a list of statements run by \<open>exec\<close> on a catalog and its rows in one transaction.

  \<^bold>\<open>What the lemmas show.\<close>

  \<^item> Invariants: the table constraints, the cursor of a mailbox, the state of Redis keys, and in \<open>System\<close> all of them together
    for every reachable state; mail is never lost or altered except by retention and mailbox deletion.
  \<^item> Delivery: stored messages enter the push queue once, a dispatcher tick loses nothing and stamps only what the CRM
    accepted, the recovery scan delivers what is pending, the pull visits every message exactly once.
  \<^item> Mailboxes: only probed credentials are stored, under a blob bound to the row; the patch endpoint refines an abstract
    patch; status events follow the commit; the probe always answers.
  \<^item> Safety of the edges: the SSRF guard, the API key and the write gate, rate limits, the one-shot consent state.
  \<^item> Errors: classification, breaker and disabling; what is answered with 500 although the interface documents otherwise.
  \<^item> Concurrency: overlapping syncs of one mailbox store every message once, although the cursor can go back.
  \<^item> Processes: a worker run stays within the reachable states and no exception ends it, a started API never loses its
    technical user, every answer but the generic 500 is labelled, redacted values never reach the log.
  \<^item> Migrations: the chain runs and reaches the declared tables, the decommission keeps exactly the canonical mailboxes,
    which downgrades are inverses, and the declared CHECK constraints are the ones the running program is modelled with.

  The locales state the contracts between components: \<open>account_store\<close> (keyed updates), \<open>keyset\<close> (pages of a listing),
  \<open>work_queue\<close> (no entry lost or invented) and \<open>window_counter\<close> (fixed windows), each interpreted on the repositories,
  queues and counters of the model.

  \<^bold>\<open>Termination and bounds.\<close> Loops are total: the retention loop and the unfolding of header folds by a measure, the IMAP
  retries and the CRM notification by their counters, the wait for a concurrent refresh by its list of polls (one entry per
  sleep). \<open>dispatch_ticks\<close> and \<open>pull_all\<close> take a number of rounds; the theorems that use them say how many suffice. The cascade
  of a DELETE (\<open>delete_rows\<close>) has the number of tables plus one as fuel: foreign keys of the schema form no cycle of cascading
  keys, so no chain is longer, and running out is an error value that the decommission theorem excludes.

  \<^bold>\<open>Granularity.\<close> A step of \<open>System\<close> is a whole job or request; between its transactions other processes can act in reality,
  and the model shows this where the code waits for them (during a token refresh arbitrary steps of the system happen)
  and, in \<open>Sync_Interleaving\<close>, for the syncs of one mailbox. The mailboxes of a cycle are processed in list order, where
  \<open>asyncio.gather\<close> interleaves them; they share only the queues. When APScheduler fires a job is left open: a run of the worker
  is any list of firings.

  \<^bold>\<open>Not modelled.\<close> Signal handling, the cancellation of a job that runs when the worker is stopped (\<open>Worker_Main\<close> runs each
  job to its end; \<open>Sync_Interleaving\<close> lets a run be given up between its transactions), the event loop and server of the
  processes, the serialisation of response models by
  FastAPI (an answer holds the value), the bodies of database trigger functions other than \<open>set_updated_at\<close>, offline
  migrations, TLS contexts, and the libraries the sources call (SQLAlchemy, redis, imap_tools, aiosmtplib, httpx, bleach,
  html2text, cryptography, structlog, APScheduler), which are parameters or left open.
\<close>

end
